(* ===== verification/Fetchline_Prelude.thy ===== *)
theory Fetchline_Prelude
  imports Main "HOL-Library.Word" "HOL-Library.Monad_Syntax"
begin

text \<open>
  Shared vocabulary of the development: the machine integers of the Rust sources, slices and
  fixed arrays whose out-of-range accesses panic (a value of type \<open>'a option\<close>, where
  \<open>None\<close> is the panic), the state-and-error action that models an \<open>async fn\<close>
  returning a \<open>Result\<close> (the \<open>?\<close> operator is \<open>try_then\<close>), byte-order
  conversions, and the generic interfaces (codecs and transition systems) that the
  components instantiate.
\<close>

unbundle bit_operations_syntax

section \<open>Machine integers\<close>

type_synonym u8 = "8 word"
type_synonym u16 = "16 word"
type_synonym u32 = "32 word"
type_synonym u64 = "64 word"

text \<open>A signed 16-bit value is its bit pattern; \<open>sint\<close> reads it.\<close>
type_synonym i16 = "16 word"

named_theorems rust_slice \<open>how slice and array accesses compute when they are in range\<close>
named_theorems action_simps \<open>unfolding of state-and-error actions\<close>

text \<open>\<open>usize\<close> is 32 bits wide on the ESP32-C3.\<close>

definition checked_add_usize :: "nat \<Rightarrow> nat \<Rightarrow> nat option" where
  "checked_add_usize a b = (if a + b < 2 ^ 32 then Some (a + b) else None)"

definition u8_try_from :: "nat \<Rightarrow> u8 option" where
  "u8_try_from n = (if n < 256 then Some (of_nat n) else None)"

definition u16_try_from :: "nat \<Rightarrow> u16 option" where
  "u16_try_from n = (if n < 65536 then Some (of_nat n) else None)"

lemma unat_of_nat_u8 [simp]: "n < 256 \<Longrightarrow> unat (of_nat n :: u8) = n"
  by (simp add: unat_of_nat take_bit_nat_eq_self)

lemma unat_of_nat_u16 [simp]: "n < 65536 \<Longrightarrow> unat (of_nat n :: u16) = n"
  by (simp add: unat_of_nat take_bit_nat_eq_self)

lemma unat_u8_less [simp]: "unat (b :: u8) < 256"
  using unsigned_less [of b] by simp

lemma unat_u8_le [simp]: "unat (b :: u8) \<le> 255"
  using unat_u8_less [of b] by linarith

lemma unat_u16_less [simp]: "unat (w :: u16) < 65536"
  using unsigned_less [of w] by simp

section \<open>Slices and fixed arrays\<close>

text \<open>
  \<open>xs[i]\<close>, \<open>xs[i..j]\<close>, \<open>xs[i] = v\<close> and
  \<open>xs[i..j].copy_from_slice(ys)\<close>: each panics when it is out of range, and
  \<open>copy_from_slice\<close> also when the lengths differ.
\<close>

definition index :: "'a list \<Rightarrow> nat \<Rightarrow> 'a option" where
  "index xs i = (if i < length xs then Some (xs ! i) else None)"

definition subslice :: "'a list \<Rightarrow> nat \<Rightarrow> nat \<Rightarrow> 'a list option" where
  "subslice xs i j = (if i \<le> j \<and> j \<le> length xs then Some (take (j - i) (drop i xs)) else None)"

definition set_index :: "'a list \<Rightarrow> nat \<Rightarrow> 'a \<Rightarrow> 'a list option" where
  "set_index xs i v = (if i < length xs then Some (xs[i := v]) else None)"

definition copy_from_slice :: "'a list \<Rightarrow> nat \<Rightarrow> nat \<Rightarrow> 'a list \<Rightarrow> 'a list option" where
  "copy_from_slice xs i j ys =
     (if i \<le> j \<and> j \<le> length xs \<and> length ys = j - i
      then Some (take i xs @ ys @ drop j xs) else None)"

lemma index_in_range [rust_slice]: "i < length xs \<Longrightarrow> index xs i = Some (xs ! i)"
  by (simp add: index_def)

lemma subslice_in_range [rust_slice]:
  "i \<le> j \<Longrightarrow> j \<le> length xs \<Longrightarrow> subslice xs i j = Some (take (j - i) (drop i xs))"
  by (simp add: subslice_def)

lemma set_index_in_range [rust_slice]:
  "i < length xs \<Longrightarrow> set_index xs i v = Some (take i xs @ v # drop (Suc i) xs)"
  by (simp add: set_index_def upd_conv_take_nth_drop)

lemma copy_in_range [rust_slice]:
  "i \<le> j \<Longrightarrow> j \<le> length xs \<Longrightarrow> length ys = j - i
   \<Longrightarrow> copy_from_slice xs i j ys = Some (take i xs @ ys @ drop j xs)"
  by (simp add: copy_from_slice_def)

lemma copy_middle:
  "length a = i \<Longrightarrow> i + length b = j \<Longrightarrow> length ys = length b \<Longrightarrow>
   copy_from_slice (a @ b @ c) i j ys = Some (a @ ys @ c)"
  by (auto simp: copy_from_slice_def)

lemma subslice_middle:
  "length a = i \<Longrightarrow> i + length b = j \<Longrightarrow> subslice (a @ b @ c) i j = Some b"
  by (auto simp: subslice_def)

section \<open>State-and-error actions\<close>

text \<open>
  An \<open>async fn f(..) -> Result<T, E>\<close> that works on some device or connection is a
  function from the state of that device to its result and the next state. Steps between two
  suspension points are atomic: the firmware runs on one cooperative executor.
\<close>

type_synonym ('s, 'e, 'a) action = "'s \<Rightarrow> ('e + 'a) \<times> 's"

definition return_ok :: "'a \<Rightarrow> ('s, 'e, 'a) action" where
  [action_simps]: "return_ok a = (\<lambda>s. (Inr a, s))"

definition return_err :: "'e \<Rightarrow> ('s, 'e, 'a) action" where
  [action_simps]: "return_err e = (\<lambda>s. (Inl e, s))"

text \<open>\<open>m.await?\<close> followed by the rest of the body.\<close>

definition try_then :: "('s, 'e, 'a) action \<Rightarrow> ('a \<Rightarrow> ('s, 'e, 'b) action) \<Rightarrow> ('s, 'e, 'b) action" where
  "try_then m k = (\<lambda>s. case m s of (Inl e, s') \<Rightarrow> (Inl e, s') | (Inr a, s') \<Rightarrow> k a s')"

lemma try_then_ok [simp]: "m s = (Inr a, s') \<Longrightarrow> try_then m k s = k a s'"
  by (simp add: try_then_def)

lemma try_then_ok_bool [simp]:
  "m s = (Inr True, s') \<Longrightarrow> try_then m k s = k True s'"
  "m s = (Inr False, s') \<Longrightarrow> try_then m k s = k False s'"
  by simp_all

lemma try_then_err [simp]: "m s = (Inl e, s') \<Longrightarrow> try_then m k s = (Inl e, s')"
  by (simp add: try_then_def)

lemma try_then_return_ok [simp]: "try_then (return_ok a) k = k a"
  by (simp add: try_then_def return_ok_def)

lemma try_then_return_err [simp]: "try_then (return_err e) k = return_err e"
  by (simp add: try_then_def return_err_def)

lemma try_then_assoc: "try_then (try_then m k) h = try_then m (\<lambda>a. try_then (k a) h)"
  by (rule ext) (simp add: try_then_def split: prod.splits sum.splits)

lemma try_then_cases:
  obtains (err) e s' where "m s = (Inl e, s')" "try_then m k s = (Inl e, s')"
  | (ok) a s' where "m s = (Inr a, s')" "try_then m k s = k a s'"
  by (cases "m s"; cases "fst (m s)") (auto simp: try_then_def)

section \<open>Byte order\<close>

definition to_le_bytes16 :: "u16 \<Rightarrow> u8 list" where
  "to_le_bytes16 w = [ucast w, ucast (drop_bit 8 w)]"

definition from_le_bytes16 :: "u8 \<Rightarrow> u8 \<Rightarrow> u16" where
  "from_le_bytes16 lo hi = ucast lo OR push_bit 8 (ucast hi)"

definition to_be_bytes16 :: "u16 \<Rightarrow> u8 list" where
  "to_be_bytes16 w = [ucast (drop_bit 8 w), ucast w]"

definition from_be_bytes16 :: "u8 \<Rightarrow> u8 \<Rightarrow> u16" where
  "from_be_bytes16 hi lo = push_bit 8 (ucast hi) OR ucast lo"

definition to_le_bytes32 :: "u32 \<Rightarrow> u8 list" where
  "to_le_bytes32 w = [ucast w, ucast (drop_bit 8 w), ucast (drop_bit 16 w), ucast (drop_bit 24 w)]"

definition from_le_bytes32 :: "u8 \<Rightarrow> u8 \<Rightarrow> u8 \<Rightarrow> u8 \<Rightarrow> u32" where
  "from_le_bytes32 a b c d =
     ucast a OR push_bit 8 (ucast b) OR push_bit 16 (ucast c) OR push_bit 24 (ucast d)"

lemma length_to_bytes [simp]:
  "length (to_le_bytes16 w) = 2" "length (to_be_bytes16 w) = 2" "length (to_le_bytes32 v) = 4"
  by (simp_all add: to_le_bytes16_def to_be_bytes16_def to_le_bytes32_def)

lemma le_bytes16_roundtrip: "from_le_bytes16 (ucast w) (ucast (drop_bit 8 w)) = w"
  unfolding from_le_bytes16_def
  by (rule bit_word_eqI) (auto simp: bit_simps)

lemma be_bytes16_roundtrip: "from_be_bytes16 (ucast (drop_bit 8 w)) (ucast w) = w"
  unfolding from_be_bytes16_def
  by (rule bit_word_eqI) (auto simp: bit_simps)

lemma le_bytes32_roundtrip:
  "from_le_bytes32 (ucast w) (ucast (drop_bit 8 w)) (ucast (drop_bit 16 w)) (ucast (drop_bit 24 w)) = w"
  unfolding from_le_bytes32_def
proof (rule bit_word_eqI)
  fix n assume "n < LENGTH(32)"
  then consider "n < 8" | "8 \<le> n" "n < 16" | "16 \<le> n" "n < 24" | "24 \<le> n" "n < 32"
    by fastforce
  then show "bit (ucast (ucast w :: u8) OR push_bit 8 (ucast (ucast (drop_bit 8 w) :: u8)) OR
      push_bit 16 (ucast (ucast (drop_bit 16 w) :: u8)) OR
      push_bit 24 (ucast (ucast (drop_bit 24 w) :: u8)) :: u32) n = bit w n"
    by cases (auto simp: bit_simps)
qed

lemma unat_from_le_bytes16: "unat (from_le_bytes16 lo hi) = unat lo + 256 * unat hi"
proof -
  have disj: "(ucast lo :: u16) AND push_bit 8 (ucast hi) = 0"
    by (rule bit_word_eqI) (auto simp: bit_simps dest: bit_imp_le_length)
  have "from_le_bytes16 lo hi = ucast lo + push_bit 8 (ucast hi)"
    unfolding from_le_bytes16_def using disj by (simp add: disjunctive_add_eq_or)
  also have "\<dots> = of_nat (unat lo + 256 * unat hi)"
    by (simp add: push_bit_eq_mult mult.commute)
  finally show ?thesis
    using unat_u8_less [of lo] unat_u8_less [of hi] by (simp only: unat_of_nat_u16)
qed

section \<open>Signed readings of 16-bit words\<close>

lemma and_top_bit_u16: "(v :: u16) AND 0x8000 \<noteq> 0 \<longleftrightarrow> bit v 15"
  using and_exp_eq_0_iff_not_bit [of v 15] by simp

lemma and_low_bits_u16: "(v :: u16) AND 0x7fff = take_bit 15 v"
proof -
  have "(0x7fff :: u16) = mask 15" by (simp add: mask_eq_exp_minus_1)
  then show ?thesis by (simp add: take_bit_eq_mask)
qed

lemma sint_word_of_int16: "- 32768 \<le> k \<Longrightarrow> k < 32768 \<Longrightarrow> sint (word_of_int k :: i16) = k"
  by (simp add: sint_sbintrunc' signed_take_bit_int_eq_self)

lemma sint_low15: 
  fixes v :: u16 defines "m \<equiv> int (unat v mod 32768)"
  shows "sint (take_bit 15 v) = m" "sint (- take_bit 15 v) = - m"
proof -
  have "uint (take_bit 15 v) = take_bit 15 (uint v)" by (simp add: unsigned_take_bit_eq)
  also have "\<dots> = m" by (simp add: m_def take_bit_eq_mod zmod_int)
  finally have "uint (take_bit 15 v) = m" .
  then have w: "take_bit 15 v = word_of_int m" by (metis word_of_int_uint)
  have m: "0 \<le> m" "m < 32768" by (simp_all add: m_def)
  show "sint (take_bit 15 v) = m" "sint (- take_bit 15 v) = - m"
    using m sint_word_of_int16 [of m] sint_word_of_int16 [of "- m"] by (simp_all add: w)
qed

lemma take_bit_15: "\<not> bit (v::u16) 15 \<Longrightarrow> take_bit 15 v = v"
proof (rule bit_word_eqI)
  fix n assume "\<not> bit v 15" "n < LENGTH(16)"
  then show "bit (take_bit 15 v) n = bit v n" by (cases "n = 15") (auto simp: bit_take_bit_iff)
qed
lemma bit_15_iff: "bit (v :: u16) 15 \<longleftrightarrow> 32768 \<le> unat v"
proof -
  have "bit v 15 \<longleftrightarrow> bit (unat v) 15" by (simp add: bit_unsigned_iff)
  also have "\<dots> \<longleftrightarrow> odd (unat v div 32768)" by (simp add: bit_iff_odd)
  finally have "bit v 15 \<longleftrightarrow> odd (unat v div 32768)" .
  moreover have "unat v div 32768 = (if unat v < 32768 then 0 else 1)"
    using unat_u16_less [of v] by (auto simp del: unat_u16_less intro: div_nat_eqI)
  ultimately show ?thesis by simp
qed

lemma unat_mod_32768: "32768 \<le> unat (v :: u16) \<Longrightarrow> unat v mod 32768 = unat v - 32768"
  by (subst le_mod_geq) (use unat_u16_less [of v] in \<open>auto simp del: unat_u16_less\<close>)

section \<open>Interfaces shared by several components\<close>

text \<open>
  A codec: what an encoder writes, the decoder of the other side reads back. The wire formats
  of the system (STS status packets, WebSocket frames, the Wi-Fi record in flash) are
  interpretations; the client facts hold for all of them.
\<close>

locale codec =
  fixes encode :: "'a \<Rightarrow> 'b"
    and decode :: "'b \<Rightarrow> 'a option"
    and valid :: "'a \<Rightarrow> bool"
  assumes decode_encode: "valid x \<Longrightarrow> decode (encode x) = Some x"
begin

lemma encode_injective: "valid x \<Longrightarrow> valid y \<Longrightarrow> encode x = encode y \<Longrightarrow> x = y"
  by (metis decode_encode option.inject)

lemma decode_unambiguous: "valid x \<Longrightarrow> encode x = b \<Longrightarrow> decode b = Some y \<Longrightarrow> y = x"
  by (metis decode_encode option.inject)

end

text \<open>
  A transition system with an inductive invariant: the invariant holds initially and every step
  keeps it, so it holds in every reachable state.
\<close>

inductive reachable :: "('s \<Rightarrow> bool) \<Rightarrow> ('s \<Rightarrow> 'e \<Rightarrow> 's \<Rightarrow> bool) \<Rightarrow> 's \<Rightarrow> bool"
  for start :: "'s \<Rightarrow> bool" and step :: "'s \<Rightarrow> 'e \<Rightarrow> 's \<Rightarrow> bool" where
  reachable_start: "start s \<Longrightarrow> reachable start step s"
| reachable_step: "reachable start step s \<Longrightarrow> step s e t \<Longrightarrow> reachable start step t"

text \<open>Running a deterministic step function on a list of events.\<close>

fun run :: "('s \<Rightarrow> 'e \<Rightarrow> 's option) \<Rightarrow> 's \<Rightarrow> 'e list \<Rightarrow> 's option" where
  "run step s [] = Some s"
| "run step s (e # es) = (case step s e of Some t \<Rightarrow> run step t es | None \<Rightarrow> None)"

lemma run_append: "run step s (es @ fs) = (case run step s es of Some t \<Rightarrow> run step t fs | None \<Rightarrow> None)"
  by (induction es arbitrary: s) (auto split: option.splits)

lemma run_reachable:
  assumes "\<And>s e t. step s e = Some t \<Longrightarrow> tr s e t" "reachable start tr s" "run step s es = Some t"
  shows "reachable start tr t"
  using assms(2,3)
  by (induction es arbitrary: s) (auto split: option.splits intro: reachable_step assms(1))

locale invariant_system =
  fixes start :: "'s \<Rightarrow> bool"
    and step :: "'s \<Rightarrow> 'e \<Rightarrow> 's \<Rightarrow> bool"
    and inv :: "'s \<Rightarrow> bool"
  assumes inv_start: "start s \<Longrightarrow> inv s"
    and inv_step: "inv s \<Longrightarrow> step s e t \<Longrightarrow> inv t"
begin

lemma inv_reachable: "reachable start step s \<Longrightarrow> inv s"
  by (induction rule: reachable.induct) (auto intro: inv_start inv_step)

end

end
