(* ===== verification/Sts_Packet.thy ===== *)
theory Sts_Packet
  imports Fetchline_Prelude
begin

text \<open>
  The STS packet layer of the firmware (\<open>src/src/controller.rs\<close>): the inverted checksum,
  the instruction encoder that writes into a caller's buffer, and the validation of a status
  packet body. The lemmas give the encoder's bytes on every branch, an exact characterisation of
  the accepted status packets, the round trip between them, and the error detection the checksum
  buys.
\<close>

section \<open>Definitions\<close>

definition STS_HEADER :: "u8 list" where
  "STS_HEADER = [0xff, 0xff]"

datatype InstructionPacketError = OutputTooSmall | ParametersTooLong

text \<open>The checksum loop: \<open>acc\<close> is its \<open>sum\<close>, \<open>i\<close> its \<open>index\<close>.\<close>

function checksum_loop :: "u8 list \<Rightarrow> u8 \<Rightarrow> nat \<Rightarrow> u8" where
  "checksum_loop bytes acc i =
     (if i < length bytes then checksum_loop bytes (acc + bytes ! i) (i + 1) else acc)"
  by pat_completeness auto
termination
  by (relation "measure (\<lambda>(bytes, acc, i). length bytes - i)") auto

declare checksum_loop.simps [simp del]

definition checksum :: "u8 list \<Rightarrow> u8" where
  "checksum bytes = NOT (checksum_loop bytes 0 0)"

text \<open>
  The encoder returns the result and the buffer after the call; the outer \<open>None\<close> is a
  panic of a slice access.
\<close>

definition encode_instruction_packet ::
  "u8 list \<Rightarrow> u8 \<Rightarrow> u8 \<Rightarrow> u8 list \<Rightarrow> ((InstructionPacketError + nat) \<times> u8 list) option" where
  "encode_instruction_packet output sid instruction parameters =
     (case Option.bind (checked_add_usize (length parameters) 2) u8_try_from of
        None \<Rightarrow> Some (Inl ParametersTooLong, output)
      | Some len \<Rightarrow>
          (let packet_len = unat len + 4 in
           if length output < packet_len then Some (Inl OutputTooSmall, output)
           else do {
             output \<leftarrow> copy_from_slice output 0 2 STS_HEADER;
             output \<leftarrow> set_index output 2 sid;
             output \<leftarrow> set_index output 3 len;
             output \<leftarrow> set_index output 4 instruction;
             output \<leftarrow> copy_from_slice output 5 (packet_len - 1) parameters;
             body \<leftarrow> subslice output 2 (packet_len - 1);
             output \<leftarrow> set_index output (packet_len - 1) (checksum body);
             Some (Inr packet_len, output)
           }))"

datatype StatusPacketError = InvalidLength | UnexpectedId | InvalidChecksum

record StatusPacket =
  sp_error :: u8
  sp_parameters :: "u8 list"

definition decode_status_packet ::
  "u8 list \<Rightarrow> u8 \<Rightarrow> (StatusPacketError + StatusPacket) option" where
  "decode_status_packet packet expected_id =
     (if length packet < 4 then Some (Inl InvalidLength)
      else do {
        sid \<leftarrow> index packet 0;
        length_byte \<leftarrow> index packet 1;
        let len = unat length_byte;
        if \<not> (2 \<le> len \<and> len \<le> 66) \<or> length packet \<noteq> len + 2 then Some (Inl InvalidLength)
        else if sid \<noteq> expected_id then Some (Inl UnexpectedId)
        else do {
          body \<leftarrow> subslice packet 0 (length packet - 1);
          stored \<leftarrow> index packet (length packet - 1);
          if checksum body \<noteq> stored then Some (Inl InvalidChecksum)
          else do {
            err \<leftarrow> index packet 2;
            ps \<leftarrow> subslice packet 3 (length packet - 1);
            Some (Inr \<lparr>sp_error = err, sp_parameters = ps\<rparr>)
          }
        }
      })"

section \<open>The checksum\<close>

lemma checksum_loop_eq:
  "i \<le> length bs \<Longrightarrow> checksum_loop bs s i = s + sum_list (drop i bs)"
proof (induction bs s i rule: checksum_loop.induct)
  case (1 bs s i)
  show ?case
  proof (cases "i < length bs")
    case True
    with 1 have "checksum_loop bs (s + bs ! i) (i + 1) = s + bs ! i + sum_list (drop (i + 1) bs)"
      by simp
    with True show ?thesis
      by (simp add: checksum_loop.simps [of bs s i] Cons_nth_drop_Suc [symmetric] add.assoc)
  next
    case False
    with "1.prems" have "i = length bs" by simp
    then show ?thesis by (simp add: checksum_loop.simps [of bs s "length bs"])
  qed
qed

lemma checksum_eq: "checksum bs = NOT (sum_list bs)"
  by (simp add: checksum_def checksum_loop_eq)

lemma not_eq_minus_u8: "NOT (x :: u8) = 255 - x"
proof -
  have "NOT x = - x - 1" by (rule not_eq_complement)
  also have "\<dots> = 255 - x" by simp
  finally show ?thesis .
qed

lemma checksum_append_closes: "sum_list (bs @ [checksum bs]) = 0xff"
  by (simp add: checksum_eq not_eq_minus_u8)

lemma checksum_iff: "checksum bs = c \<longleftrightarrow> sum_list bs + c = 0xff"
  by (auto simp: checksum_eq not_eq_minus_u8 algebra_simps)

lemma sum_list_update_u8:
  "i < length bs \<Longrightarrow> sum_list (bs[i := (b :: u8)]) = sum_list bs - bs ! i + b"
  by (subst (2) id_take_nth_drop [of i bs]) (simp_all add: upd_conv_take_nth_drop)

section \<open>The instruction encoder\<close>

text \<open>The bytes an instruction packet has, as the STS protocol lays them out.\<close>

definition length_byte :: "u8 list \<Rightarrow> u8" where
  "length_byte ps = of_nat (length ps + 2)"

definition instruction_body :: "u8 \<Rightarrow> u8 \<Rightarrow> u8 list \<Rightarrow> u8 list" where
  "instruction_body sid instruction ps = [sid, length_byte ps, instruction] @ ps"

definition instruction_packet :: "u8 \<Rightarrow> u8 \<Rightarrow> u8 list \<Rightarrow> u8 list" where
  "instruction_packet sid instruction ps =
     STS_HEADER @ instruction_body sid instruction ps @ [checksum (instruction_body sid instruction ps)]"

lemma length_instruction_packet [simp]:
  "length (instruction_packet sid ins ps) = length ps + 6"
  by (simp add: instruction_packet_def instruction_body_def STS_HEADER_def)

lemma unat_length_byte: "length ps \<le> 253 \<Longrightarrow> unat (length_byte ps) = length ps + 2"
  unfolding length_byte_def by (rule unat_of_nat_u8) simp

lemma length_byte_try:
  "length ps \<le> 253 \<Longrightarrow>
   Option.bind (checked_add_usize (length ps) 2) u8_try_from = Some (length_byte ps)"
  by (simp add: checked_add_usize_def u8_try_from_def length_byte_def)

lemma encode_too_long:
  "253 < length ps \<Longrightarrow>
   encode_instruction_packet out sid ins ps = Some (Inl ParametersTooLong, out)"
  by (auto simp: encode_instruction_packet_def checked_add_usize_def u8_try_from_def)

lemma encode_too_small:
  "length ps \<le> 253 \<Longrightarrow> length out < length ps + 6 \<Longrightarrow>
   encode_instruction_packet out sid ins ps = Some (Inl OutputTooSmall, out)"
  by (simp add: encode_instruction_packet_def length_byte_try unat_length_byte)

lemma split_output:
  assumes "n + 6 \<le> length out"
  obtains h0 h1 b2 b3 b4 mid cs rest where
    "out = h0 # h1 # b2 # b3 # b4 # mid @ cs # rest" "length mid = n"
proof -
  from assms have "Suc (Suc (Suc (Suc (Suc (Suc n))))) \<le> length out" by simp
  then obtain h0 h1 b2 b3 b4 tl5 where out: "out = h0 # h1 # b2 # b3 # b4 # tl5"
    and "Suc n \<le> length tl5"
    unfolding Suc_le_length_iff [of _ out] by (auto simp: Suc_le_length_iff)
  then have n: "n < length tl5" by simp
  from n have "tl5 = take n tl5 @ tl5 ! n # drop (Suc n) tl5" "length (take n tl5) = n"
    by (simp_all add: id_take_nth_drop)
  with out show thesis using that by metis
qed

lemma encode_ok:
  assumes "length ps \<le> 253" "length ps + 6 \<le> length out"
  shows "encode_instruction_packet out sid ins ps =
    Some (Inr (length ps + 6), instruction_packet sid ins ps @ drop (length ps + 6) out)"
proof -
  obtain h0 h1 b2 b3 b4 mid cs rest where
    out: "out = h0 # h1 # b2 # b3 # b4 # mid @ cs # rest" and mid: "length mid = length ps"
    using split_output [OF assms(2)] .
  have rest: "drop (length ps + 6) out = rest"
    by (simp add: out mid [symmetric] eval_nat_numeral)
  show ?thesis
    using assms unfolding rest
    by (simp add: encode_instruction_packet_def length_byte_try unat_length_byte out mid rust_slice
        STS_HEADER_def instruction_packet_def instruction_body_def Let_def take_Cons' drop_Cons')
qed

section \<open>Status packets\<close>

text \<open>The wire format of a status packet body, as the STS protocol lays it out.\<close>

definition status_body :: "u8 \<Rightarrow> u8 \<Rightarrow> u8 list \<Rightarrow> u8 list" where
  "status_body sid err ps = [sid, length_byte ps, err] @ ps"

definition status_packet :: "u8 \<Rightarrow> u8 \<Rightarrow> u8 list \<Rightarrow> u8 list" where
  "status_packet sid err ps = status_body sid err ps @ [checksum (status_body sid err ps)]"

lemma length_status_packet [simp]: "length (status_packet sid err ps) = length ps + 4"
  by (simp add: status_packet_def status_body_def)

lemma sum_status_packet: "sum_list (status_packet sid err ps) = 0xff"
  unfolding status_packet_def by (rule checksum_append_closes)

text \<open>The decoder, with every access known to be in range.\<close>

lemma decode_status_packet_alt:
  "decode_status_packet pkt sid = Some
     (if length pkt < 4 \<or> unat (pkt ! 1) < 2 \<or> 66 < unat (pkt ! 1) \<or> length pkt \<noteq> unat (pkt ! 1) + 2
        then Inl InvalidLength
      else if pkt ! 0 \<noteq> sid then Inl UnexpectedId
      else if checksum (butlast pkt) \<noteq> last pkt then Inl InvalidChecksum
      else Inr \<lparr>sp_error = pkt ! 2, sp_parameters = drop 3 (butlast pkt)\<rparr>)"
proof (cases "length pkt < 4")
  case True
  then show ?thesis by (simp add: decode_status_packet_def)
next
  case False
  then have "pkt \<noteq> []" by auto
  with False have acc: "index pkt 0 = Some (pkt ! 0)" "index pkt 1 = Some (pkt ! 1)"
      "index pkt 2 = Some (pkt ! 2)" "index pkt (length pkt - 1) = Some (last pkt)"
      "subslice pkt 0 (length pkt - 1) = Some (butlast pkt)"
      "subslice pkt 3 (length pkt - 1) = Some (drop 3 (butlast pkt))"
    by (auto simp: index_def subslice_def butlast_conv_take last_conv_nth drop_take)
  with False show ?thesis
    unfolding decode_status_packet_def Let_def acc by (simp add: not_le)
qed

lemma packet_shape:
  assumes "4 \<le> length pkt"
  obtains a b c ps d where "pkt = [a, b, c] @ ps @ [d]" "length pkt = length ps + 4"
proof -
  from assms have "Suc (Suc (Suc (Suc 0))) \<le> length pkt" by simp
  then obtain a b c tl3 where pkt: "pkt = a # b # c # tl3" and "tl3 \<noteq> []"
    unfolding Suc_le_length_iff [of _ pkt] by (auto simp: Suc_le_length_iff)
  then show thesis
    using that [of a b c "butlast tl3" "last tl3"] by (simp add: append_butlast_last_id)
qed

lemma decode_status_packet_ok:
  assumes "length ps \<le> 64"
  shows "decode_status_packet (status_packet sid err ps) sid = Some (Inr \<lparr>sp_error = err, sp_parameters = ps\<rparr>)"
  using assms
  by (simp add: decode_status_packet_alt unat_length_byte status_packet_def status_body_def
      butlast_append)

lemma decode_status_packet_okD:
  assumes "decode_status_packet pkt sid = Some (Inr st)"
  shows "length (sp_parameters st) \<le> 64" "pkt = status_packet sid (sp_error st) (sp_parameters st)"
proof -
  from assms have ok: "4 \<le> length pkt" "unat (pkt ! 1) \<le> 66" "length pkt = unat (pkt ! 1) + 2"
      "pkt ! 0 = sid" "checksum (butlast pkt) = last pkt"
      "st = \<lparr>sp_error = pkt ! 2, sp_parameters = drop 3 (butlast pkt)\<rparr>"
    by (auto simp: decode_status_packet_alt split: if_splits)
  obtain a b c ps d where pkt: "pkt = [a, b, c] @ ps @ [d]" "length pkt = length ps + 4"
    using packet_shape [OF ok(1)] .
  with ok show "length (sp_parameters st) \<le> 64" by (simp add: butlast_append)
  have "unat b = unat (length_byte ps)"
    using ok(2,3) pkt by (simp add: unat_length_byte)
  then have "b = length_byte ps" by (simp add: word_unat_eq_iff)
  with ok pkt show "pkt = status_packet sid (sp_error st) (sp_parameters st)"
    by (simp add: status_packet_def status_body_def butlast_append)
qed

interpretation status_codec: codec
  "\<lambda>st. status_packet sid (sp_error st) (sp_parameters st)"
  "\<lambda>pkt. case decode_status_packet pkt sid of Some (Inr st) \<Rightarrow> Some st | _ \<Rightarrow> None"
  "\<lambda>st. length (sp_parameters st) \<le> 64" for sid
  by unfold_locales (simp add: decode_status_packet_ok)

section \<open>Properties\<close>

text \<open>On every input the instruction encoder neither panics nor writes past the packet: it
  refuses more than 253 parameters, then a buffer that is too short, both leaving the buffer as it
  was; otherwise it writes exactly the STS packet (header, id, length, instruction, parameters,
  checksum) at the front, leaves the rest of the buffer alone and returns the packet's length.\<close>
theorem encode_instruction_packet_spec:
  "encode_instruction_packet output sid instruction parameters = Some
     (if 253 < length parameters then (Inl ParametersTooLong, output)
      else if length output < length parameters + 6 then (Inl OutputTooSmall, output)
      else (Inr (length parameters + 6),
            instruction_packet sid instruction parameters @ drop (length parameters + 6) output))"
  by (simp add: encode_too_long encode_too_small encode_ok)

text \<open>The decoder accepts exactly the well-formed status packets: it succeeds with an error byte
  and parameters if and only if the bytes are the packet of the expected servo with that error byte
  and those (at most 64) parameters, checksum included.\<close>
theorem decode_status_packet_accepts:
  "decode_status_packet pkt sid = Some (Inr st) \<longleftrightarrow>
     length (sp_parameters st) \<le> 64 \<and> pkt = status_packet sid (sp_error st) (sp_parameters st)"
  using decode_status_packet_okD [of pkt sid st] decode_status_packet_ok [of "sp_parameters st" sid "sp_error st"]
  by auto

text \<open>The decoder never panics, and it reports the first failed check in the order length,
  servo id, checksum: the checksum is right exactly when all bytes of the body sum to 255 modulo 256,
  and the result then carries the error byte and everything between it and the checksum.\<close>
theorem decode_status_packet_errors:
  "decode_status_packet pkt sid = Some
     (if 4 \<le> length pkt \<and> unat (pkt ! 1) \<in> {2..66} \<and> length pkt = unat (pkt ! 1) + 2
      then if pkt ! 0 = sid
        then if sum_list pkt = 0xff
          then Inr \<lparr>sp_error = pkt ! 2, sp_parameters = drop 3 (butlast pkt)\<rparr>
          else Inl InvalidChecksum
        else Inl UnexpectedId
      else Inl InvalidLength)"
proof -
  have "checksum (butlast pkt) = last pkt \<longleftrightarrow> sum_list pkt = 0xff" if "\<not> length pkt < 4"
  proof -
    from that have "pkt \<noteq> []" by auto
    then have "sum_list pkt = sum_list (butlast pkt) + last pkt"
      by (metis append_butlast_last_id sum_list.append sum_list.Cons sum_list.Nil add.right_neutral)
    then show ?thesis by (simp add: checksum_iff)
  qed
  then show ?thesis
    unfolding decode_status_packet_alt by (auto simp: not_less not_le)
qed

text \<open>C33. A status packet in which any single byte was altered on the wire is never accepted, whatever
  byte it is (id, length, error, parameter or checksum) and whatever it became.\<close>
theorem single_byte_corruption_rejected:
  assumes "i < length ps + 4" and "b \<noteq> status_packet sid err ps ! i"
  shows "\<exists>e. decode_status_packet ((status_packet sid err ps)[i := b]) sid = Some (Inl e)"
proof (rule ccontr)
  let ?pkt = "status_packet sid err ps"
  assume "\<nexists>e. decode_status_packet (?pkt[i := b]) sid = Some (Inl e)"
  then obtain st where "decode_status_packet (?pkt[i := b]) sid = Some (Inr st)"
    by (auto simp: decode_status_packet_alt split: if_splits)
  then have "?pkt[i := b] = status_packet sid (sp_error st) (sp_parameters st)"
    by (rule decode_status_packet_okD)
  then have "sum_list (?pkt[i := b]) = 0xff" by (simp add: sum_status_packet)
  then have "0xff - ?pkt ! i + b = 0xff"
    using assms(1) by (simp add: sum_list_update_u8 sum_status_packet)
  then have "b = ?pkt ! i" by (simp add: algebra_simps)
  with assms(2) show False by simp
qed

theorem single_byte_corruption_rejected_witness:
  "\<exists>e. decode_status_packet ((status_packet 5 0 [0x34, 0x12])[5 := 0xb1]) 5 = Some (Inl e)"
  by (rule single_byte_corruption_rejected)
     (simp_all add: status_packet_def status_body_def length_byte_def checksum_eq)

end
