(* ===== verification/Sts_Stream.thy ===== *)
theory Sts_Stream
  imports Sts_Packet
begin

text \<open>
  The specification both STS readers are measured against: what the byte stream that follows a
  request means. The firmware reads it from the UART, the host from the raw TCP tunnel; both skip
  bytes until a header is found within 128 bytes and then read one status packet.
\<close>

section \<open>Definitions\<close>

datatype header_search = HeaderAt "u8 list" | NoHeader | HeaderStarved

fun header_in :: "nat \<Rightarrow> u8 \<Rightarrow> u8 list \<Rightarrow> header_search" where
  "header_in 0 previous bs = NoHeader"
| "header_in (Suc n) previous [] = HeaderStarved"
| "header_in (Suc n) previous (b # bs) =
     (if previous = 0xff \<and> b = 0xff then HeaderAt bs else header_in n b bs)"

text \<open>
  The meaning of a stream for a request to one servo: it ends before the reply is complete, it is
  not a valid reply, it is a valid reply with an error status, or it is a reply with parameters,
  after which \<open>rest\<close> is left.
\<close>

datatype stream_reply = Starved | Malformed | ErrorStatus | Reply "u8 list" "u8 list"

definition reply_in_stream :: "u8 \<Rightarrow> u8 list \<Rightarrow> stream_reply" where
  "reply_in_stream sid bs =
     (case header_in 128 0 bs of
        HeaderStarved \<Rightarrow> Starved
      | NoHeader \<Rightarrow> Malformed
      | HeaderAt (b0 # b1 # bs') \<Rightarrow>
          if unat b1 < 2 \<or> 66 < unat b1 then Malformed
          else if length bs' < unat b1 then Starved
          else (case the (decode_status_packet ([b0, b1] @ take (unat b1) bs') sid) of
                  Inl _ \<Rightarrow> Malformed
                | Inr st \<Rightarrow> if sp_error st \<noteq> 0 then ErrorStatus
                            else Reply (sp_parameters st) (drop (unat b1) bs'))
      | HeaderAt _ \<Rightarrow> Starved)"

text \<open>Bytes in which no header starts, not even one completed by a following \<open>0xff\<close>.\<close>

fun quiet :: "u8 list \<Rightarrow> bool" where
  "quiet [] = True"
| "quiet [b] = (b \<noteq> 0xff)"
| "quiet (a # b # bs) = (\<not> (a = 0xff \<and> b = 0xff) \<and> quiet (b # bs))"

section \<open>Lemmas\<close>

lemma header_in_found:
  "header_in n previous bs = HeaderAt rest \<longleftrightarrow>
     (\<exists>noise. previous # bs = noise @ STS_HEADER @ rest \<and> quiet noise \<and> length noise < n)"
proof (induction n previous bs rule: header_in.induct)
  case (1 previous bs)
  then show ?case by simp
next
  case (2 n previous)
  then show ?case by (auto simp: STS_HEADER_def Cons_eq_append_conv)
next
  case (3 n previous b bs)
  show ?case
  proof (cases "previous = 0xff \<and> b = 0xff")
    case True
    have "noise = []" if "previous # b # bs = noise @ STS_HEADER @ rest" "quiet noise" for noise
      using that True
      by (cases noise rule: quiet.cases) (auto simp: STS_HEADER_def)
    with True show ?thesis by (auto simp: STS_HEADER_def)
  next
    case False
    have "(\<exists>noise. previous # b # bs = noise @ STS_HEADER @ rest \<and> quiet noise \<and> length noise < Suc n)
      \<longleftrightarrow> (\<exists>noise. b # bs = noise @ STS_HEADER @ rest \<and> quiet noise \<and> length noise < n)" (is "?l \<longleftrightarrow> ?r")
    proof
      assume ?l
      then obtain noise where *: "previous # b # bs = noise @ STS_HEADER @ rest" "quiet noise"
        "length noise < Suc n" by blast
      with False obtain noise' where noise: "noise = previous # noise'"
        by (cases noise) (auto simp: STS_HEADER_def)
      with * have "quiet noise'" by (cases noise') auto
      with * noise show ?r by auto
    next
      assume ?r
      then obtain noise where *: "b # bs = noise @ STS_HEADER @ rest" "quiet noise" "length noise < n"
        by blast
      with False have "quiet (previous # noise)"
        by (cases noise) (auto simp: STS_HEADER_def)
      with * show ?l by (intro exI [of _ "previous # noise"]) auto
    qed
    with "3.IH" [OF False] show ?thesis by (simp only: header_in.simps if_not_P [OF False])
  qed
qed

lemma header_in_from_zero:
  "header_in (Suc n) 0 bs = HeaderAt rest \<longleftrightarrow>
     (\<exists>noise. bs = noise @ STS_HEADER @ rest \<and> quiet noise \<and> length noise < n)"
  (is "?l \<longleftrightarrow> ?r")
proof
  assume ?l
  then obtain noise where *: "0 # bs = noise @ STS_HEADER @ rest" "quiet noise" "length noise < Suc n"
    by (auto simp: header_in_found)
  then obtain noise' where noise: "noise = 0 # noise'"
    by (cases noise) (auto simp: STS_HEADER_def)
  with * have "quiet noise'" by (cases noise') auto
  with * noise show ?r by auto
next
  assume ?r
  then obtain noise where *: "bs = noise @ STS_HEADER @ rest" "quiet noise" "length noise < n" by blast
  then have "quiet (0 # noise)" by (cases noise) auto
  with * show ?l
    unfolding header_in_found by (intro exI [of _ "0 # noise"]) auto
qed

text \<open>A reply is recognised exactly when a valid packet of the servo follows at most 126 bytes of noise.\<close>

lemma reply_in_stream_iff:
  "reply_in_stream sid bs = Reply ps rest \<longleftrightarrow>
     length ps \<le> 64 \<and>
     (\<exists>noise. bs = noise @ STS_HEADER @ status_packet sid 0 ps @ rest \<and> quiet noise \<and> length noise < 127)"
  (is "?l \<longleftrightarrow> ?r")
proof
  assume l: ?l
  then obtain b0 b1 bs' st where hdr: "header_in 128 0 bs = HeaderAt (b0 # b1 # bs')"
    and b1: "\<not> length bs' < unat b1"
    and dec: "the (decode_status_packet ([b0, b1] @ take (unat b1) bs') sid) = Inr st"
    and st: "sp_error st = 0" "ps = sp_parameters st" "rest = drop (unat b1) bs'"
    by (auto simp: reply_in_stream_def split: header_search.splits list.splits if_splits sum.splits)
  from dec have "decode_status_packet ([b0, b1] @ take (unat b1) bs') sid = Some (Inr st)"
    by (simp add: decode_status_packet_alt)
  note ok = decode_status_packet_okD [OF this]
  have "b0 # b1 # bs' = ([b0, b1] @ take (unat b1) bs') @ rest" by (simp add: st)
  also have "\<dots> = status_packet sid 0 ps @ rest" using ok(2) st by simp
  finally show ?r
    using hdr ok(1) st header_in_from_zero [of 127 bs "b0 # b1 # bs'"] by auto
next
  assume r: ?r
  then obtain noise where bs: "bs = noise @ STS_HEADER @ status_packet sid 0 ps @ rest"
    and q: "quiet noise" "length noise < 127" and ps: "length ps \<le> 64" by blast
  have hdr: "header_in 128 0 bs = HeaderAt (status_packet sid 0 ps @ rest)"
    using bs q header_in_from_zero [of 127 bs] by auto
  let ?tail = "0 # ps @ [checksum (status_body sid 0 ps)]"
  have pkt: "status_packet sid 0 ps @ rest = sid # length_byte ps # ?tail @ rest"
    "[sid, length_byte ps] @ ?tail = status_packet sid 0 ps" "length ?tail = length ps + 2"
    by (simp_all add: status_packet_def status_body_def)
  have len: "unat (length_byte ps) = length ps + 2" using ps by (simp add: unat_length_byte)
  have take: "take (length ps + 2) (?tail @ rest) = ?tail" "drop (length ps + 2) (?tail @ rest) = rest"
    using pkt(3) by simp_all
  show ?l
    unfolding reply_in_stream_def hdr pkt(1)
    using ps decode_status_packet_ok [OF ps, of sid 0]
    by (simp add: len take pkt(2) del: append_Cons)
qed

end
