(* ===== verification/Sts_Transaction.thy ===== *)
theory Sts_Transaction
  imports Sts_Stream
begin

text \<open>
  One STS transaction of the firmware (\<open>src/src/bin/main.rs\<close>, module \<open>services\<close>):
  the packet is written to the UART and the status reply read back under a deadline; after a
  failure the receive side is drained. The UART driver is not part of the sources: the model takes,
  as input, the outcome of every driver call in the order in which the calls are made, so that a
  theorem about all inputs covers every behaviour of the driver and of the servos. The lemmas
  relate the reader to a specification on the bytes that arrive before the deadline.
\<close>

section \<open>The UART as seen by the firmware\<close>

text \<open>
  The outcome of one pending \<open>read_async\<close>: it returns the bytes it stored, it returns an
  error, or the deadline of the enclosing \<open>with_timeout\<close> fires while it is pending. When
  the list of outcomes is exhausted nothing arrives any more, so the deadline fires.
\<close>

datatype rx_event = RxOk "u8 list" | RxErr | Deadline

text \<open>
  \<open>tx_results\<close> are the outcomes of the coming \<open>write_all\<close> calls (an exhausted list
  means they succeed); \<open>tx_written\<close> are the buffers handed to \<open>write_all\<close>, oldest
  first.
\<close>

record uart =
  rx_events :: "rx_event list"
  tx_results :: "bool list"
  tx_written :: "u8 list list"

datatype ServoFailure =
  InvalidServoId | InvalidArgument | Timeout | InvalidReply | ReportedError | Transport

text \<open>A future under a deadline ends with its own result or because the deadline fired.\<close>

datatype interrupted = Expired | Failed ServoFailure

section \<open>Definitions\<close>

text \<open>
  One byte from the UART: an empty read or a receive error is ignored and the read repeated, so
  only the enclosing deadline ends the wait without a byte.
\<close>

fun next_byte :: "rx_event list \<Rightarrow> u8 option \<times> rx_event list" where
  "next_byte [] = (None, [])"
| "next_byte (RxOk [b] # es) = (Some b, es)"
| "next_byte (Deadline # es) = (None, es)"
| "next_byte (e # es) = next_byte es"

definition read_uart_byte :: "(uart, interrupted, u8) action" where
  "read_uart_byte = (\<lambda>u. case next_byte (rx_events u) of
       (None, es) \<Rightarrow> (Inl Expired, u\<lparr>rx_events := es\<rparr>)
     | (Some b, es) \<Rightarrow> (Inr b, u\<lparr>rx_events := es\<rparr>))"

text \<open>The header search: at most \<open>n\<close> more bytes, \<open>previous\<close> the last one read.\<close>

fun search_header :: "nat \<Rightarrow> u8 \<Rightarrow> (uart, interrupted, bool) action" where
  "search_header 0 previous = return_ok False"
| "search_header (Suc n) previous = try_then read_uart_byte (\<lambda>byte.
     if previous = 0xff \<and> byte = 0xff then return_ok True else search_header n byte)"

fun read_uart_bytes :: "nat \<Rightarrow> (uart, interrupted, u8 list) action" where
  "read_uart_bytes 0 = return_ok []"
| "read_uart_bytes (Suc n) = try_then read_uart_byte (\<lambda>byte.
     try_then (read_uart_bytes n) (\<lambda>bytes. return_ok (byte # bytes)))"

record StsStatus =
  payload :: "u8 list"
  payload_len :: nat

text \<open>
  \<open>decode_status_packet\<close> and the copy into the 64-byte payload never panic here (the
  packet lemmas show it), so \<open>the\<close> only removes the panic value.
\<close>

definition read_sts_status :: "u8 \<Rightarrow> (uart, interrupted, StsStatus) action" where
  "read_sts_status expected_id =
     try_then (search_header 128 0) (\<lambda>found_header.
     if \<not> found_header then return_err (Failed InvalidReply)
     else try_then read_uart_byte (\<lambda>byte0.
          try_then read_uart_byte (\<lambda>len_byte.
          let len = unat len_byte in
          if \<not> (2 \<le> len \<and> len \<le> 66) then return_err (Failed InvalidReply)
          else try_then (read_uart_bytes len) (\<lambda>rest.
          case the (decode_status_packet ([byte0, of_nat len] @ rest) expected_id) of
            Inl _ \<Rightarrow> return_err (Failed InvalidReply)
          | Inr status \<Rightarrow>
              if sp_error status \<noteq> 0 then return_err (Failed ReportedError)
              else let n = length (sp_parameters status) in
                return_ok
                  \<lparr>payload = the (copy_from_slice (replicate 64 0) 0 n (sp_parameters status)),
                   payload_len = n\<rparr>))))"

definition uart_write_all :: "u8 list \<Rightarrow> (uart, ServoFailure, unit) action" where
  "uart_write_all bytes = (\<lambda>u.
     let u' = u\<lparr>tx_written := tx_written u @ [bytes]\<rparr> in
     case tx_results u of
       [] \<Rightarrow> (Inr (), u')
     | okay # rs \<Rightarrow> (if okay then Inr () else Inl Transport, u'\<lparr>tx_results := rs\<rparr>))"

definition with_response_timeout ::
  "(uart, interrupted, 'a) action \<Rightarrow> (uart, ServoFailure, 'a) action" where
  "with_response_timeout m = (\<lambda>u. case m u of
       (Inr a, u') \<Rightarrow> (Inr a, u')
     | (Inl (Failed e), u') \<Rightarrow> (Inl e, u')
     | (Inl Expired, u') \<Rightarrow> (Inl Timeout, u'))"

definition send_sts_packet :: "u8 \<Rightarrow> u8 \<Rightarrow> u8 list \<Rightarrow> (uart, ServoFailure, StsStatus) action" where
  "send_sts_packet sid instruction parameters =
     (case the (encode_instruction_packet (replicate 16 0) sid instruction parameters) of
        (Inl _, _) \<Rightarrow> return_err InvalidArgument
      | (Inr packet_len, packet) \<Rightarrow>
          try_then (uart_write_all (take packet_len packet)) (\<lambda>_.
            with_response_timeout (read_sts_status sid)))"

text \<open>
  Resynchronization: at most four reads, each under a 2 ms deadline; the first deadline that fires
  ends the loop. Whatever is read, or fails to be read, is discarded.
\<close>

fun discard_reads :: "nat \<Rightarrow> rx_event list \<Rightarrow> rx_event list" where
  "discard_reads 0 es = es"
| "discard_reads (Suc n) [] = []"
| "discard_reads (Suc n) (Deadline # es) = es"
| "discard_reads (Suc n) (e # es) = discard_reads n es"

definition resynchronize_uart :: "uart \<Rightarrow> uart" where
  "resynchronize_uart u = u\<lparr>rx_events := discard_reads 4 (rx_events u)\<rparr>"

section \<open>The bytes that arrive before the deadline\<close>

fun arriving :: "rx_event list \<Rightarrow> u8 list" where
  "arriving [] = []"
| "arriving (RxOk [b] # es) = b # arriving es"
| "arriving (Deadline # es) = []"
| "arriving (e # es) = arriving es"

lemma next_byte_arriving:
  "next_byte es = (None, es') \<Longrightarrow> arriving es = []"
  "next_byte es = (Some b, es') \<Longrightarrow> arriving es = b # arriving es'"
  by (induction es rule: next_byte.induct) auto

lemma read_uart_byte_cases:
  obtains (expired) u' where "arriving (rx_events u) = []" "read_uart_byte u = (Inl Expired, u')"
  | (byte) b u' where "arriving (rx_events u) = b # arriving (rx_events u')" "read_uart_byte u = (Inr b, u')"
proof (cases "next_byte (rx_events u)")
  case (Pair r es)
  show thesis
  proof (cases r)
    case None
    with Pair have "arriving (rx_events u) = []" "read_uart_byte u = (Inl Expired, u\<lparr>rx_events := es\<rparr>)"
      by (auto simp: read_uart_byte_def dest: next_byte_arriving)
    then show thesis by (rule expired)
  next
    case (Some b)
    with Pair have "arriving (rx_events u) = b # arriving (rx_events (u\<lparr>rx_events := es\<rparr>))"
      "read_uart_byte u = (Inr b, u\<lparr>rx_events := es\<rparr>)"
      by (auto simp: read_uart_byte_def dest: next_byte_arriving)
    then show thesis by (rule byte)
  qed
qed

lemma search_header_arriving:
  "(case header_in n previous (arriving (rx_events u)) of
      HeaderAt rest \<Rightarrow> \<exists>u'. search_header n previous u = (Inr True, u') \<and> arriving (rx_events u') = rest
    | NoHeader \<Rightarrow> \<exists>u'. search_header n previous u = (Inr False, u')
    | HeaderStarved \<Rightarrow> \<exists>u'. search_header n previous u = (Inl Expired, u'))"
proof (induction n arbitrary: previous u)
  case 0
  then show ?case by (simp add: return_ok_def)
next
  case (Suc n)
  show ?case
  proof (cases u rule: read_uart_byte_cases)
    case expired
    then show ?thesis by simp
  next
    case (byte b u')
    show ?thesis
    proof (cases "previous = 0xff \<and> b = 0xff")
      case True
      with byte show ?thesis by (simp add: return_ok_def)
    next
      case False
      with byte show ?thesis using Suc.IH [of b u'] by (auto split: header_search.splits)
    qed
  qed
qed

lemma read_uart_bytes_arriving:
  "(if length (arriving (rx_events u)) < n then \<exists>u'. read_uart_bytes n u = (Inl Expired, u')
    else \<exists>u'. read_uart_bytes n u = (Inr (take n (arriving (rx_events u))), u')
              \<and> arriving (rx_events u') = drop n (arriving (rx_events u)))"
proof (induction n arbitrary: u)
  case 0
  then show ?case by (simp add: return_ok_def)
next
  case (Suc n)
  show ?case
  proof (cases u rule: read_uart_byte_cases)
    case expired
    then show ?thesis by simp
  next
    case (byte b u')
    then show ?thesis
      using Suc.IH [of u'] by (auto simp: return_ok_def split: if_splits)
  qed
qed

text \<open>How the result of the firmware's reader follows from the meaning of the stream.\<close>

definition padded_status :: "u8 list \<Rightarrow> StsStatus" where
  "padded_status ps = \<lparr>payload = ps @ replicate (64 - length ps) 0, payload_len = length ps\<rparr>"

fun status_result :: "stream_reply \<Rightarrow> ServoFailure + StsStatus" where
  "status_result Starved = Inl Timeout"
| "status_result Malformed = Inl InvalidReply"
| "status_result ErrorStatus = Inl ReportedError"
| "status_result (Reply ps rest) = Inr (padded_status ps)"

lemma copy_into_payload:
  "length ps \<le> 64 \<Longrightarrow>
   \<lparr>payload = the (copy_from_slice (replicate 64 0) 0 (length ps) ps), payload_len = length ps\<rparr> = padded_status ps"
  by (simp add: padded_status_def rust_slice)

lemma of_nat_unat_u8: "of_nat (unat (b :: u8)) = b"
  by simp

lemma read_sts_status_result:
  "fst (with_response_timeout (read_sts_status sid) u) =
     status_result (reply_in_stream sid (arriving (rx_events u)))"
proof (cases "header_in 128 0 (arriving (rx_events u))")
  case NoHeader
  then obtain u' where "search_header 128 0 u = (Inr False, u')"
    using search_header_arriving [of 128 0 u] by auto
  with NoHeader show ?thesis
    by (simp add: with_response_timeout_def read_sts_status_def return_err_def reply_in_stream_def)
next
  case HeaderStarved
  then obtain u' where "search_header 128 0 u = (Inl Expired, u')"
    using search_header_arriving [of 128 0 u] by auto
  with HeaderStarved show ?thesis
    by (simp add: with_response_timeout_def read_sts_status_def reply_in_stream_def)
next
  case (HeaderAt bs)
  then obtain u1 where u1: "search_header 128 0 u = (Inr True, u1)" "arriving (rx_events u1) = bs"
    using search_header_arriving [of 128 0 u] by auto
  show ?thesis
  proof (cases u1 rule: read_uart_byte_cases)
    case expired
    with u1 HeaderAt show ?thesis
      by (simp add: with_response_timeout_def read_sts_status_def reply_in_stream_def)
  next
    case b0: (byte b0 u2)
    show ?thesis
    proof (cases u2 rule: read_uart_byte_cases)
      case expired
      with u1(2) b0(1) have "bs = [b0]" by simp
      with u1 b0 HeaderAt expired show ?thesis
        by (simp add: with_response_timeout_def read_sts_status_def reply_in_stream_def)
    next
      case b1: (byte b1 u3)
      have hdr: "header_in 128 0 (arriving (rx_events u)) = HeaderAt (b0 # b1 # arriving (rx_events u3))"
        using HeaderAt u1(2) b0(1) b1(1) by simp
      have "read_sts_status sid u =
          (if \<not> (2 \<le> unat b1 \<and> unat b1 \<le> 66) then return_err (Failed InvalidReply)
           else try_then (read_uart_bytes (unat b1)) (\<lambda>rest.
             case the (decode_status_packet ([b0, b1] @ rest) sid) of
               Inl _ \<Rightarrow> return_err (Failed InvalidReply)
             | Inr status \<Rightarrow>
                 if sp_error status \<noteq> 0 then return_err (Failed ReportedError)
                 else return_ok \<lparr>payload = the (copy_from_slice (replicate 64 0) 0
                          (length (sp_parameters status)) (sp_parameters status)),
                        payload_len = length (sp_parameters status)\<rparr>)) u3"
        unfolding read_sts_status_def Let_def using u1 b0 b1 by simp
      moreover have "length (sp_parameters st) \<le> 64"
        if "the (decode_status_packet pkt sid) = Inr st" for pkt st
        using that decode_status_packet_okD(1) [of pkt sid st] by (simp add: decode_status_packet_alt)
      ultimately show ?thesis
        using read_uart_bytes_arriving [of u3 "unat b1"]
        by (auto simp: with_response_timeout_def reply_in_stream_def hdr return_err_def return_ok_def
            copy_into_payload split: if_splits sum.splits)
    qed
  qed
qed

section \<open>What is transmitted\<close>

text \<open>
  \<open>writes P m\<close>: whatever the UART does, the action \<open>m\<close> only appends buffers that
  satisfy \<open>P\<close> to what was handed to the driver.
\<close>

definition writes :: "(u8 list \<Rightarrow> bool) \<Rightarrow> (uart, 'e, 'a) action \<Rightarrow> bool" where
  "writes P m \<longleftrightarrow>
     (\<forall>u. \<exists>pkts. tx_written (snd (m u)) = tx_written u @ pkts \<and> list_all P pkts)"

named_theorems writes_intro \<open>composition rules for what an action transmits\<close>

lemma writesD:
  assumes "writes P m" "m u = (r, u')"
  obtains pkts where "tx_written u' = tx_written u @ pkts" "list_all P pkts"
proof -
  from assms(1) obtain pkts where "tx_written (snd (m u)) = tx_written u @ pkts" "list_all P pkts"
    unfolding writes_def by blast
  with assms(2) that show thesis by simp
qed

lemma writes_return [writes_intro]: "writes P (return_ok a)" "writes P (return_err e)"
  by (simp_all add: writes_def return_ok_def return_err_def)

lemma writes_try_then [writes_intro]:
  assumes m: "writes P m" and k: "\<And>a. writes P (k a)"
  shows "writes P (try_then m k)"
  unfolding writes_def
proof
  fix u
  show "\<exists>pkts. tx_written (snd (try_then m k u)) = tx_written u @ pkts \<and> list_all P pkts"
  proof (cases rule: try_then_cases [of m u k])
    case (err e u')
    with m show ?thesis by (auto elim: writesD)
  next
    case (ok a u')
    obtain p1 where p1: "tx_written u' = tx_written u @ p1" "list_all P p1"
      using writesD [OF m ok(1)] .
    obtain p2 where "tx_written (snd (k a u')) = tx_written u' @ p2" "list_all P p2"
      using writesD [OF k] by (metis prod.collapse)
    with p1 ok(2) show ?thesis by (intro exI [of _ "p1 @ p2"]) simp
  qed
qed

lemma writes_read_uart_byte [writes_intro]: "writes P read_uart_byte"
  by (auto simp: writes_def read_uart_byte_def split: prod.splits option.splits)

lemma writes_search_header [writes_intro]: "writes P (search_header n previous)"
  by (induction n arbitrary: previous) (auto intro!: writes_intro)

lemma writes_read_uart_bytes [writes_intro]: "writes P (read_uart_bytes n)"
  by (induction n) (auto intro!: writes_intro)

lemma writes_read_sts_status [writes_intro]: "writes P (read_sts_status sid)"
  unfolding read_sts_status_def Let_def
  by (auto intro!: writes_intro split: sum.splits)

lemma writes_with_response_timeout [writes_intro]:
  "writes P m \<Longrightarrow> writes P (with_response_timeout m)"
  unfolding writes_def with_response_timeout_def
  by (auto split: prod.splits sum.splits interrupted.splits) (metis snd_conv)+

lemma writes_uart_write_all [writes_intro]: "P bytes \<Longrightarrow> writes P (uart_write_all bytes)"
  by (auto simp: writes_def uart_write_all_def Let_def split: list.splits)

text \<open>The transaction, with the encoder evaluated.\<close>

lemma send_sts_packet_alt:
  "send_sts_packet sid ins ps =
     (if 10 < length ps then return_err InvalidArgument
      else try_then (uart_write_all (instruction_packet sid ins ps))
             (\<lambda>_. with_response_timeout (read_sts_status sid)))"
proof (cases "10 < length ps")
  case True
  then show ?thesis
    by (cases "length ps \<le> 253") (simp_all add: send_sts_packet_def encode_too_small encode_too_long)
next
  case False
  then show ?thesis by (simp add: send_sts_packet_def encode_ok)
qed

lemma writes_send_sts_packet [writes_intro]:
  "P (instruction_packet sid ins ps) \<Longrightarrow> writes P (send_sts_packet sid ins ps)"
  unfolding send_sts_packet_alt by (auto intro!: writes_intro)

lemma send_sts_packet_outcome:
  assumes "length ps \<le> 10"
  shows "send_sts_packet sid ins ps u =
    (case uart_write_all (instruction_packet sid ins ps) u of
       (Inl e, u') \<Rightarrow> (Inl e, u')
     | (Inr _, u') \<Rightarrow> with_response_timeout (read_sts_status sid) u')"
  using assms by (simp add: send_sts_packet_alt try_then_def)

lemma uart_write_all_cases:
  obtains (ok) u' where "uart_write_all bs u = (Inr (), u')" "tx_written u' = tx_written u @ [bs]"
      "rx_events u' = rx_events u" "tx_results u' = tl (tx_results u)" "\<not> (\<exists>rs. tx_results u = False # rs)"
  | (err) u' rs where "uart_write_all bs u = (Inl Transport, u')" "tx_written u' = tx_written u @ [bs]"
      "rx_events u' = rx_events u" "tx_results u = False # rs"
proof (cases "tx_results u")
  case Nil
  show thesis
    by (rule ok [of "u\<lparr>tx_written := tx_written u @ [bs]\<rparr>"]) (simp_all add: uart_write_all_def Nil)
next
  case (Cons r rs)
  show thesis
  proof (cases r)
    case True
    show thesis
      by (rule ok [of "u\<lparr>tx_written := tx_written u @ [bs], tx_results := rs\<rparr>"])
         (simp_all add: uart_write_all_def Let_def Cons True)
  next
    case False
    show thesis
      by (rule err [of "u\<lparr>tx_written := tx_written u @ [bs], tx_results := rs\<rparr>"])
         (simp_all add: uart_write_all_def Let_def Cons False)
  qed
qed

lemma writes_nothing_step:
  assumes "writes (\<lambda>_. False) m" "m u = (r, u')"
  shows "tx_written u' = tx_written u"
proof -
  obtain pkts where "tx_written u' = tx_written u @ pkts" "list_all (\<lambda>_. False) pkts"
    using writesD [OF assms] .
  then show ?thesis by (cases pkts) auto
qed

lemma writes_with_status: "writes (\<lambda>_. False) (with_response_timeout (read_sts_status sid))"
  by (intro writes_intro)

lemma discard_reads_stale:
  "length stale < n \<Longrightarrow> Deadline \<notin> set stale \<Longrightarrow> discard_reads n (stale @ Deadline # fresh) = fresh"
proof (induction stale arbitrary: n)
  case Nil
  then show ?case by (cases n) auto
next
  case (Cons e stale)
  then obtain m where "n = Suc m" by (cases n) auto
  with Cons show ?case by (cases e) auto
qed

definition transient :: "rx_event \<Rightarrow> bool" where
  "transient e \<longleftrightarrow> e = RxErr \<or> e = RxOk []"

lemma arriving_transient: "arriving (filter (\<lambda>e. \<not> transient e) es) = arriving es"
  by (induction es rule: arriving.induct) (auto simp: transient_def)

lemma send_sts_packet_result:
  "fst (send_sts_packet sid ins ps u) =
     (if 10 < length ps then Inl InvalidArgument
      else if \<exists>rs. tx_results u = False # rs then Inl Transport
      else status_result (reply_in_stream sid (arriving (rx_events u))))"
proof (cases "10 < length ps")
  case True
  then show ?thesis by (simp add: send_sts_packet_alt return_err_def)
next
  case False
  then show ?thesis
    by (cases rule: uart_write_all_cases [of "instruction_packet sid ins ps" u])
       (simp_all add: send_sts_packet_outcome read_sts_status_result)
qed

lemma send_sts_packet_written:
  "tx_written (snd (send_sts_packet sid ins ps u)) =
     tx_written u @ (if 10 < length ps then [] else [instruction_packet sid ins ps])"
proof (cases "10 < length ps")
  case True
  then show ?thesis by (simp add: send_sts_packet_alt return_err_def)
next
  case False
  have "tx_written (snd (with_response_timeout (read_sts_status sid) v)) = tx_written v" for v
    using writes_nothing_step [OF writes_with_status] by (metis prod.collapse)
  with False show ?thesis
    by (cases rule: uart_write_all_cases [of "instruction_packet sid ins ps" u])
       (simp_all add: send_sts_packet_outcome)
qed

section \<open>A servo that answers at once\<close>

text \<open>The receive events of bytes that are delivered one by one.\<close>

definition delivered :: "u8 list \<Rightarrow> rx_event list" where
  "delivered bs = map (\<lambda>b. RxOk [b]) bs"

lemma delivered_Cons: "delivered (b # bs) = RxOk [b] # delivered bs"
  by (simp add: delivered_def)

definition reply_events :: "u8 \<Rightarrow> u8 list \<Rightarrow> rx_event list" where
  "reply_events sid ps = delivered (STS_HEADER @ status_packet sid 0 ps)"

lemma read_uart_byte_delivered:
  "rx_events u = RxOk [b] # es \<Longrightarrow> read_uart_byte u = (Inr b, u\<lparr>rx_events := es\<rparr>)"
  by (simp add: read_uart_byte_def)

lemma read_uart_bytes_delivered:
  "rx_events u = delivered bs @ es \<Longrightarrow> read_uart_bytes (length bs) u = (Inr bs, u\<lparr>rx_events := es\<rparr>)"
  by (induction bs arbitrary: u) (simp_all add: delivered_def return_ok_def read_uart_byte_delivered)

lemma read_uart_bytes_delivered_update:
  "read_uart_bytes (length bs) (u\<lparr>rx_events := delivered bs @ es\<rparr>) = (Inr bs, u\<lparr>rx_events := es\<rparr>)"
  by (simp add: read_uart_bytes_delivered)

lemma search_header_two:
  "rx_events u = delivered STS_HEADER @ es \<Longrightarrow>
   search_header (Suc (Suc n)) 0 u = (Inr True, u\<lparr>rx_events := es\<rparr>)"
  by (simp add: delivered_def STS_HEADER_def read_uart_byte_delivered return_ok_def)

lemma search_header_delivered:
  assumes "rx_events u = delivered STS_HEADER @ es"
  shows "search_header 128 0 u = (Inr True, u\<lparr>rx_events := es\<rparr>)"
proof -
  have "(128 :: nat) = Suc (Suc 126)" by simp
  then show ?thesis using search_header_two [OF assms, of 126] by metis
qed

lemma read_sts_status_delivered:
  assumes "length ps \<le> 64" "rx_events u = reply_events sid ps @ es"
  shows "read_sts_status sid u = (Inr (padded_status ps), u\<lparr>rx_events := es\<rparr>)"
proof -
  define tail where "tail = 0 # ps @ [checksum (status_body sid 0 ps)]"
  have pkt: "status_packet sid 0 ps = sid # length_byte ps # tail"
    by (simp add: status_packet_def status_body_def tail_def)
  have hdr: "search_header 128 0 u = (Inr True, u\<lparr>rx_events := delivered (sid # length_byte ps # tail) @ es\<rparr>)"
    using assms(2) by (intro search_header_delivered) (simp add: reply_events_def delivered_def pkt)
  have len: "unat (length_byte ps) = length tail" "2 \<le> length tail" "length tail \<le> 66"
    using assms(1) by (simp_all add: unat_length_byte tail_def)
  have dec: "decode_status_packet (sid # length_byte ps # tail) sid =
      Some (Inr \<lparr>sp_error = 0, sp_parameters = ps\<rparr>)"
    using decode_status_packet_ok [OF assms(1), of sid 0] by (simp add: pkt)
  have bytes: "of_nat (length tail) = length_byte ps"
    using len(1) by (metis of_nat_unat_u8)
  show ?thesis
    unfolding read_sts_status_def Let_def
    using hdr dec assms(1) len
    by (simp add: read_uart_byte_delivered delivered_Cons read_uart_bytes_delivered_update bytes
        return_ok_def copy_into_payload)
qed

lemma send_sts_packet_delivered:
  assumes "length ps \<le> 10" "length qs \<le> 64" "tx_results u = []" "rx_events u = reply_events sid qs @ es"
  shows "send_sts_packet sid ins ps u =
    (Inr (padded_status qs), u\<lparr>rx_events := es, tx_written := tx_written u @ [instruction_packet sid ins ps]\<rparr>)"
  using assms
  by (simp add: send_sts_packet_outcome uart_write_all_def with_response_timeout_def
      read_sts_status_delivered)

lemma send_sts_packet_silence:
  assumes "length ps \<le> 10" "tx_results u = []" "rx_events u = Deadline # es"
  shows "send_sts_packet sid ins ps u =
    (Inl Timeout, u\<lparr>rx_events := es, tx_written := tx_written u @ [instruction_packet sid ins ps]\<rparr>)"
proof -
  have "search_header 128 0 v = (Inl Expired, v\<lparr>rx_events := es\<rparr>)" if "rx_events v = Deadline # es" for v
    using that by (simp add: numeral_eq_Suc read_uart_byte_def)
  then show ?thesis
    using assms
    by (simp add: send_sts_packet_outcome uart_write_all_def with_response_timeout_def read_sts_status_def)
qed

section \<open>Properties\<close>

text \<open>C3. A transaction sends at most one packet and its outcome is decided by the bytes that arrive before
  the deadline: more than ten parameters are refused with nothing sent; a failed UART write is a
  transport failure; otherwise exactly the instruction packet was handed to the UART and the result
  is the meaning of the arriving bytes (timeout, invalid reply, reported error, or the reply's
  parameters, zero-padded to 64 bytes).\<close>
theorem transaction_outcome:
  "fst (send_sts_packet sid ins ps u) =
     (if 10 < length ps then Inl InvalidArgument
      else if \<exists>rs. tx_results u = False # rs then Inl Transport
      else status_result (reply_in_stream sid (arriving (rx_events u)))) \<and>
   tx_written (snd (send_sts_packet sid ins ps u)) =
     tx_written u @ (if 10 < length ps then [] else [instruction_packet sid ins ps])"
  by (simp only: send_sts_packet_result send_sts_packet_written)

text \<open>A reply is never taken from garbage or from another servo: when a transaction succeeds, the
  bytes that arrived contain, after less than 127 bytes of noise, the header and a checksummed status
  packet of the addressed servo with error byte zero, and the returned payload is that packet's
  parameters.\<close>
theorem transaction_reply_authentic:
  assumes "send_sts_packet sid ins ps u = (Inr st, u')"
  shows "\<exists>noise params rest.
    arriving (rx_events u) = noise @ STS_HEADER @ status_packet sid 0 params @ rest \<and>
    length noise < 127 \<and> payload_len st = length params \<and> take (payload_len st) (payload st) = params"
proof -
  from assms have "fst (send_sts_packet sid ins ps u) = Inr st" by simp
  then have "status_result (reply_in_stream sid (arriving (rx_events u))) = Inr st"
    by (simp add: send_sts_packet_result split: if_splits)
  then obtain params rest where "reply_in_stream sid (arriving (rx_events u)) = Reply params rest"
    "st = padded_status params"
    by (cases "reply_in_stream sid (arriving (rx_events u))") auto
  then show ?thesis
    unfolding reply_in_stream_iff by (auto simp: padded_status_def)
qed

theorem transaction_reply_authentic_witness:
  "\<exists>noise params rest.
    arriving (map (\<lambda>b. RxOk [b]) [0xff, 0xff, 5, 4, 0, 0x34, 0x12, 0xb0]) =
      noise @ STS_HEADER @ status_packet 5 0 params @ rest \<and>
    length noise < 127 \<and> 2 = length params \<and> take 2 [0x34, 0x12] = params"
proof -
  let ?u = "\<lparr>rx_events = map (\<lambda>b. RxOk [b]) [0xff, 0xff, 5, 4, 0, 0x34, 0x12, 0xb0],
             tx_results = [], tx_written = []\<rparr>"
  have arr: "arriving (rx_events ?u) = [] @ STS_HEADER @ status_packet 5 0 [0x34, 0x12] @ []"
    by (simp add: STS_HEADER_def status_packet_def status_body_def length_byte_def checksum_eq)
  have "reply_in_stream 5 (arriving (rx_events ?u)) = Reply [0x34, 0x12] []"
    unfolding reply_in_stream_iff arr by (intro conjI exI [of _ "[]"]) simp_all
  then have "fst (send_sts_packet 5 2 [56, 2] ?u) = Inr (padded_status [0x34, 0x12])"
    by (simp add: send_sts_packet_outcome uart_write_all_def read_sts_status_result)
  then obtain u' where "send_sts_packet 5 2 [56, 2] ?u = (Inr (padded_status [0x34, 0x12]), u')"
    by (metis prod.collapse)
  from transaction_reply_authentic [OF this] show ?thesis
    by (simp add: padded_status_def)
qed

text \<open>Transient receive errors and empty reads never change the outcome of a transaction: it is the
  same as if the UART had delivered only its bytes and its deadline.\<close>
theorem transient_rx_events_ignored:
  "fst (send_sts_packet sid ins ps u) =
   fst (send_sts_packet sid ins ps (u\<lparr>rx_events := filter (\<lambda>e. \<not> transient e) (rx_events u)\<rparr>))"
  by (simp add: send_sts_packet_result arriving_transient)

text \<open>Resynchronization discards a late reply: when the stale data comes in at most three reads before
  a quiet interval, all of it, and nothing that arrives afterwards, is dropped, and nothing is sent.\<close>
theorem resynchronize_discards_stale:
  assumes "length stale \<le> 3" and "Deadline \<notin> set stale" and "rx_events u = stale @ Deadline # fresh"
  shows "resynchronize_uart u = u\<lparr>rx_events := fresh\<rparr>"
  using assms by (simp add: resynchronize_uart_def discard_reads_stale)

theorem resynchronize_discards_stale_witness:
  "resynchronize_uart \<lparr>rx_events = [RxOk [0xff, 0xff, 5, 2], RxErr, RxOk [0, 0xf8], Deadline, RxOk [1]],
      tx_results = [], tx_written = []\<rparr> = \<lparr>rx_events = [RxOk [1]], tx_results = [], tx_written = []\<rparr>"
  using resynchronize_discards_stale [of "[RxOk [0xff, 0xff, 5, 2], RxErr, RxOk [0, 0xf8]]"
      "\<lparr>rx_events = [RxOk [0xff, 0xff, 5, 2], RxErr, RxOk [0, 0xf8], Deadline, RxOk [1]],
      tx_results = [], tx_written = []\<rparr>" "[RxOk [1]]"]
  by simp

end
