(* ===== verification/Register_Plan.thy ===== *)
theory Register_Plan
  imports Sts_Packet
begin

text \<open>
  The motor and position commands are sequences of register writes, each started only after the one
  before was acknowledged. The firmware issues them over the UART and the host, in raw-tunnel mode,
  over TCP. This theory states what both rely on, one acknowledged register write that hands
  exactly one packet to the transport, as an interface, and proves once what such a sequence puts
  on the wire.
\<close>

section \<open>Definitions\<close>

text \<open>A plan is a list of register writes: address and data.\<close>

type_synonym plan = "(u8 \<times> u8 list) list"

fun write_plan :: "(u8 \<Rightarrow> u8 \<Rightarrow> u8 list \<Rightarrow> ('s, 'e, unit) action) \<Rightarrow> u8 \<Rightarrow> plan \<Rightarrow> ('s, 'e, unit) action" where
  "write_plan wr sid [] = return_ok ()"
| "write_plan wr sid [(a, d)] = wr sid a d"
| "write_plan wr sid ((a, d) # plan) = try_then (wr sid a d) (\<lambda>_. write_plan wr sid plan)"

definition plan_packets :: "u8 \<Rightarrow> plan \<Rightarrow> u8 list list" where
  "plan_packets sid plan = map (\<lambda>(a, d). instruction_packet sid 3 (a # d)) plan"

definition short_plan :: "plan \<Rightarrow> bool" where
  "short_plan plan = list_all (\<lambda>(a, d). length d \<le> 7) plan"

text \<open>The register writes of the commands, as the STS memory table lays them out.\<close>

definition start_plan :: "bool \<Rightarrow> u16 \<Rightarrow> u8 \<Rightarrow> plan" where
  "start_plan ccw spd acc =
     [(33, [1]), (40, [1]),
      (41, [acc, 0, 0, 0, 0] @ to_le_bytes16 (if ccw then spd OR 0x8000 else spd))]"

definition stop_plan :: plan where
  "stop_plan = [(41, replicate 7 0)]"

definition move_plan :: "u16 \<Rightarrow> u8 \<Rightarrow> u16 \<Rightarrow> plan" where
  "move_plan pos acc torque =
     [(40, [1]), (48, to_le_bytes16 torque), (41, [acc] @ to_le_bytes16 pos @ [0, 0, 0, 0])]"

lemma short_plans [simp]:
  "short_plan (start_plan ccw spd acc)" "short_plan stop_plan" "short_plan (move_plan pos acc torque)"
  by (simp_all add: short_plan_def start_plan_def stop_plan_def move_plan_def)

lemma length_plans [simp]:
  "length (start_plan ccw spd acc) = 3" "length stop_plan = 1" "length (move_plan pos acc torque) = 3"
  "start_plan ccw spd acc \<noteq> []" "stop_plan \<noteq> []" "move_plan pos acc torque \<noteq> []"
  by (simp_all add: start_plan_def stop_plan_def move_plan_def)

section \<open>The interface of a register bus\<close>

locale register_bus =
  fixes wr :: "u8 \<Rightarrow> u8 \<Rightarrow> u8 list \<Rightarrow> ('s, 'e, unit) action"
    and written :: "'s \<Rightarrow> u8 list list"
    and usable :: "'s \<Rightarrow> bool"
  assumes wr_one_packet: "usable s \<Longrightarrow> length d \<le> 7 \<Longrightarrow> wr sid a d s = (r, s') \<Longrightarrow>
      written s' = written s @ [instruction_packet sid 3 (a # d)] \<and> usable s'"
begin

text \<open>
  The packets of a plan appear in order; the sequence stops after the first write that is not
  acknowledged, so what was sent is a non-empty prefix, and all of it when the plan succeeds.
\<close>

lemma plan_prefix:
  assumes "usable s" "short_plan plan" "plan \<noteq> []" "write_plan wr sid plan s = (r, s')"
  shows "\<exists>n. 0 < n \<and> n \<le> length plan \<and> (r = Inr () \<longrightarrow> n = length plan) \<and>
    written s' = written s @ take n (plan_packets sid plan)"
  using assms
proof (induction plan arbitrary: s)
  case Nil
  then show ?case by simp
next
  case (Cons ad plan)
  obtain a d where ad: "ad = (a, d)" by (cases ad)
  from Cons.prems ad have d: "length d \<le> 7" and short: "short_plan plan"
    by (auto simp: short_plan_def)
  show ?case
  proof (cases plan)
    case Nil
    with Cons.prems ad d wr_one_packet [of s d sid a r s'] show ?thesis
      by (intro exI [of _ 1]) (simp add: plan_packets_def)
  next
    case more: (Cons ad' plan')
    have eq: "write_plan wr sid (ad # plan) = try_then (wr sid a d) (\<lambda>_. write_plan wr sid plan)"
      by (simp add: ad more)
    show ?thesis
    proof (cases rule: try_then_cases [of "wr sid a d" s "\<lambda>_. write_plan wr sid plan"])
      case (err e s1)
      with Cons.prems eq wr_one_packet [OF Cons.prems(1) d, of sid a] show ?thesis
        by (intro exI [of _ 1]) (auto simp: plan_packets_def ad)
    next
      case (ok x s1)
      note w = wr_one_packet [OF Cons.prems(1) d ok(1)]
      from Cons.IH [of s1] w short more ok(2) eq Cons.prems(4) obtain n where
        n: "0 < n" "n \<le> length plan" "r = Inr () \<longrightarrow> n = length plan"
          "written s' = written s1 @ take n (plan_packets sid plan)"
        by auto
      then show ?thesis
        using w by (intro exI [of _ "Suc n"]) (simp add: plan_packets_def ad)
    qed
  qed
qed

end

end
