(* ===== verification/Sts_Bus.thy ===== *)
theory Sts_Bus
  imports Sts_Transaction Register_Plan
begin

text \<open>
  The servo commands of the firmware (\<open>src/src/bin/main.rs\<close>, module \<open>services\<close>):
  register writes and reads, the motor and position commands, the bus scan, and
  \<open>execute_command\<close>, which runs one command while it holds both halves of the UART. The
  lemmas say which packets each command writes, in which order and to whom, and what it returns.
\<close>

section \<open>Constants\<close>

definition STS_BROADCAST_ID :: u8 where "STS_BROADCAST_ID = 0xfe"
definition MAX_SERVO_ID :: u8 where "MAX_SERVO_ID = STS_BROADCAST_ID - 1"
definition MAX_SCAN_RESULTS :: nat where "MAX_SCAN_RESULTS = unat MAX_SERVO_ID"
definition MAX_POSITION_BATCH :: nat where "MAX_POSITION_BATCH = 6"
definition STS_INSTRUCTION_PING :: u8 where "STS_INSTRUCTION_PING = 0x01"
definition STS_INSTRUCTION_READ :: u8 where "STS_INSTRUCTION_READ = 0x02"
definition STS_INSTRUCTION_WRITE :: u8 where "STS_INSTRUCTION_WRITE = 0x03"
definition STS_MODE :: u8 where "STS_MODE = 33"
definition STS_TORQUE_ENABLE :: u8 where "STS_TORQUE_ENABLE = 40"
definition STS_ACCELERATION :: u8 where "STS_ACCELERATION = 41"
definition STS_TORQUE_LIMIT :: u8 where "STS_TORQUE_LIMIT = 48"
definition STS_PRESENT_POSITION :: u8 where "STS_PRESENT_POSITION = 56"

lemmas servo_id_consts = MAX_SERVO_ID_def STS_BROADCAST_ID_def

section \<open>Definitions\<close>

definition is_unicast_servo_id :: "u8 \<Rightarrow> bool" where
  "is_unicast_servo_id sid \<longleftrightarrow> sid \<noteq> 0 \<and> sid \<le> MAX_SERVO_ID"

definition validate_servo_id :: "u8 \<Rightarrow> ServoFailure + unit" where
  "validate_servo_id sid = (if \<not> is_unicast_servo_id sid then Inl InvalidServoId else Inr ())"

definition decode_signed_15 :: "u16 \<Rightarrow> i16" where
  "decode_signed_15 value =
     (if value AND 0x8000 \<noteq> 0 then - (value AND 0x7fff) else value)"

definition write_register :: "u8 \<Rightarrow> u8 \<Rightarrow> u8 list \<Rightarrow> (uart, ServoFailure, unit) action" where
  "write_register sid address data =
     (if length data > 8 - 1 then return_err InvalidArgument
      else let parameters = (replicate 8 0)[0 := address];
               parameters = the (copy_from_slice parameters 1 (length data + 1) data)
      in try_then (send_sts_packet sid STS_INSTRUCTION_WRITE (take (length data + 1) parameters))
           (\<lambda>status. if payload_len status = 0 then return_ok () else return_err InvalidReply))"

definition ping_servo :: "u8 \<Rightarrow> (uart, ServoFailure, unit) action" where
  "ping_servo sid =
     (case validate_servo_id sid of
        Inl e \<Rightarrow> return_err e
      | Inr _ \<Rightarrow> try_then (send_sts_packet sid STS_INSTRUCTION_PING []) (\<lambda>_. return_ok ()))"

definition read_position :: "u8 \<Rightarrow> (uart, ServoFailure, i16) action" where
  "read_position sid =
     (case validate_servo_id sid of
        Inl e \<Rightarrow> return_err e
      | Inr _ \<Rightarrow>
          try_then (send_sts_packet sid STS_INSTRUCTION_READ [STS_PRESENT_POSITION, 2]) (\<lambda>status.
            if payload_len status \<noteq> 2 then return_err InvalidReply
            else return_ok (decode_signed_15 (from_le_bytes16 (payload status ! 0) (payload status ! 1)))))"

definition start_motor :: "u8 \<Rightarrow> bool \<Rightarrow> u16 \<Rightarrow> u8 \<Rightarrow> (uart, ServoFailure, unit) action" where
  "start_motor sid counter_clockwise speed acceleration =
     (case validate_servo_id sid of
        Inl e \<Rightarrow> return_err e
      | Inr _ \<Rightarrow>
          if speed > 4095 then return_err InvalidArgument
          else
            try_then (write_register sid STS_MODE [1]) (\<lambda>_.
            try_then (write_register sid STS_TORQUE_ENABLE [1]) (\<lambda>_.
            let signed_speed = (if counter_clockwise then speed OR 0x8000 else speed);
                command = (replicate 7 0)[0 := acceleration];
                command = the (copy_from_slice command 5 7 (to_le_bytes16 signed_speed))
            in write_register sid STS_ACCELERATION command)))"

definition stop_motor :: "u8 \<Rightarrow> (uart, ServoFailure, unit) action" where
  "stop_motor sid =
     (case validate_servo_id sid of
        Inl e \<Rightarrow> return_err e
      | Inr _ \<Rightarrow> write_register sid STS_ACCELERATION (replicate 7 0))"

definition move_position :: "u8 \<Rightarrow> u16 \<Rightarrow> u8 \<Rightarrow> u16 \<Rightarrow> (uart, ServoFailure, unit) action" where
  "move_position sid position acceleration torque_limit =
     (case validate_servo_id sid of
        Inl e \<Rightarrow> return_err e
      | Inr _ \<Rightarrow>
          if position > 4095 \<or> torque_limit > 1000 then return_err InvalidArgument
          else
            try_then (write_register sid STS_TORQUE_ENABLE [1]) (\<lambda>_.
            try_then (write_register sid STS_TORQUE_LIMIT (to_le_bytes16 torque_limit)) (\<lambda>_.
            let command = (replicate 7 0)[0 := acceleration];
                command = the (copy_from_slice command 1 3 (to_le_bytes16 position))
            in write_register sid STS_ACCELERATION command)))"

record PositionResult =
  pr_id :: u8
  pr_position :: i16

fun read_positions_loop ::
  "u8 list \<Rightarrow> PositionResult list \<Rightarrow> (uart, ServoFailure, PositionResult list) action" where
  "read_positions_loop [] positions = return_ok positions"
| "read_positions_loop (sid # ids) positions =
     try_then (read_position sid) (\<lambda>position.
       if length positions < MAX_POSITION_BATCH
       then read_positions_loop ids (positions @ [\<lparr>pr_id = sid, pr_position = position\<rparr>])
       else return_err InvalidArgument)"

definition read_positions :: "u8 list \<Rightarrow> (uart, ServoFailure, PositionResult list) action" where
  "read_positions ids = read_positions_loop ids []"

fun scan_loop :: "nat list \<Rightarrow> u8 list \<Rightarrow> (uart, ServoFailure, u8 list) action" where
  "scan_loop [] ids = return_ok ids"
| "scan_loop (raw_id # raw_ids) ids = (\<lambda>u.
     let sid = of_nat raw_id in
     if \<not> is_unicast_servo_id sid then scan_loop raw_ids ids u
     else case ping_servo sid u of
         (Inr _, u') \<Rightarrow>
           if length ids < MAX_SCAN_RESULTS then scan_loop raw_ids (ids @ [sid]) u'
           else (Inl InvalidArgument, u')
       | (Inl Transport, u') \<Rightarrow> (Inl Transport, resynchronize_uart u')
       | (Inl _, u') \<Rightarrow> scan_loop raw_ids ids (resynchronize_uart u'))"

definition scan_servos :: "u8 \<Rightarrow> u8 \<Rightarrow> (uart, ServoFailure, u8 list) action" where
  "scan_servos start_id end_id =
     (if start_id = 0 \<or> start_id > end_id \<or> end_id > MAX_SERVO_ID then return_err InvalidArgument
      else scan_loop [unat start_id ..< unat end_id + 1] [])"

text \<open>The fields are in the order of the source: id, direction flag, speed, acceleration; id;
  id, position, acceleration, torque limit; id; ids; first and last id.\<close>

datatype ControllerCommand =
    StartMotor u8 bool u16 u8
  | StopMotor u8
  | SetPosition u8 u16 u8 u16
  | GetPosition u8
  | GetPositions "u8 list"
  | ScanServos u8 u8

datatype ControllerResult =
    Ready
  | Accepted
  | Position PositionResult
  | Positions "PositionResult list"
  | Servos "u8 list"
  | RawTunnel bool

fun dispatch_command :: "ControllerCommand \<Rightarrow> (uart, ServoFailure, ControllerResult) action" where
  "dispatch_command (StartMotor sid ccw spd acc) =
     try_then (start_motor sid ccw spd acc) (\<lambda>_. return_ok Accepted)"
| "dispatch_command (StopMotor sid) = try_then (stop_motor sid) (\<lambda>_. return_ok Accepted)"
| "dispatch_command (SetPosition sid pos acc torque) =
     try_then (move_position sid pos acc torque) (\<lambda>_. return_ok Accepted)"
| "dispatch_command (GetPosition sid) =
     try_then (read_position sid) (\<lambda>p. return_ok (Position \<lparr>pr_id = sid, pr_position = p\<rparr>))"
| "dispatch_command (GetPositions ids) = try_then (read_positions ids) (\<lambda>ps. return_ok (Positions ps))"
| "dispatch_command (ScanServos lo hi) =
     try_then (scan_servos lo hi) (\<lambda>ids. return_ok (Servos ids))"

text \<open>Both halves of the UART are locked for the whole command, so it sees one \<open>uart\<close>.\<close>

definition execute_command :: "ControllerCommand \<Rightarrow> (uart, ServoFailure, ControllerResult) action" where
  "execute_command command = (\<lambda>u. case dispatch_command command u of
       (Inl e, u') \<Rightarrow> (Inl e, resynchronize_uart u')
     | (Inr r, u') \<Rightarrow> (Inr r, u'))"

section \<open>Signed positions\<close>

lemma decode_signed_15_sint:
  "sint (decode_signed_15 v) =
     (if unat v < 32768 then int (unat v) else - (int (unat v) - 32768))"
proof (cases "unat v < 32768")
  case True
  then have "\<not> bit v 15" by (simp add: bit_15_iff)
  then show ?thesis
    using True sint_low15(1) [of v] by (simp add: decode_signed_15_def and_top_bit_u16 take_bit_15)
next
  case False
  then have "bit v 15" by (simp add: bit_15_iff)
  with False show ?thesis
    using sint_low15(2) [of v]
    by (simp add: decode_signed_15_def and_top_bit_u16 and_low_bits_u16 unat_mod_32768)
qed

section \<open>Register writes\<close>

lemma write_register_alt:
  assumes "length d \<le> 7"
  shows "write_register sid a d = try_then (send_sts_packet sid STS_INSTRUCTION_WRITE (a # d))
    (\<lambda>st. if payload_len st = 0 then return_ok () else return_err InvalidReply)"
proof -
  have "copy_from_slice ((replicate 8 0)[0 := a]) 1 (length d + 1) d =
      Some ([a] @ d @ drop (length d + 1) ((replicate 8 0)[0 := a]))"
    using assms by (simp add: copy_from_slice_def take_Cons' numeral_eq_Suc)
  with assms show ?thesis by (simp add: write_register_def Let_def)
qed

interpretation fw: register_bus write_register tx_written "\<lambda>_. True"
proof unfold_locales
  fix s s' :: uart and d sid a r
  assume d: "length (d :: u8 list) \<le> 7" and w: "write_register sid a d s = (r, s')"
  let ?ps = "a # d"
  have sent: "tx_written (snd (send_sts_packet sid STS_INSTRUCTION_WRITE ?ps s)) =
      tx_written s @ [instruction_packet sid 3 ?ps]"
    using d by (simp add: send_sts_packet_written STS_INSTRUCTION_WRITE_def)
  have "s' = snd (send_sts_packet sid STS_INSTRUCTION_WRITE ?ps s)"
    using w d
    by (cases "send_sts_packet sid STS_INSTRUCTION_WRITE ?ps s";
        cases "fst (send_sts_packet sid STS_INSTRUCTION_WRITE ?ps s)")
       (auto simp: write_register_alt try_then_def return_ok_def return_err_def split: if_splits)
  with sent show "tx_written s' = tx_written s @ [instruction_packet sid 3 ?ps] \<and> True" by simp
qed

lemmas sts_registers =
  STS_MODE_def STS_TORQUE_ENABLE_def STS_ACCELERATION_def STS_TORQUE_LIMIT_def

lemma start_motor_plan:
  "is_unicast_servo_id sid \<Longrightarrow> spd \<le> 4095 \<Longrightarrow>
   start_motor sid ccw spd acc = write_plan write_register sid (start_plan ccw spd acc)"
  unfolding not_less [symmetric]
  by (simp add: start_motor_def validate_servo_id_def start_plan_def sts_registers Let_def
      copy_from_slice_def to_le_bytes16_def numeral_eq_Suc)

lemma stop_motor_plan:
  "is_unicast_servo_id sid \<Longrightarrow> stop_motor sid = write_plan write_register sid stop_plan"
  by (simp add: stop_motor_def validate_servo_id_def stop_plan_def sts_registers)

lemma move_position_plan:
  "is_unicast_servo_id sid \<Longrightarrow> pos \<le> 4095 \<Longrightarrow> torque \<le> 1000 \<Longrightarrow>
   move_position sid pos acc torque = write_plan write_register sid (move_plan pos acc torque)"
  unfolding not_less [symmetric]
  by (simp add: move_position_def validate_servo_id_def move_plan_def sts_registers Let_def
      copy_from_slice_def to_le_bytes16_def numeral_eq_Suc)

section \<open>Who is addressed\<close>

text \<open>A buffer that is an instruction packet for a unicast servo id.\<close>

definition unicast_packet :: "u8 list \<Rightarrow> bool" where
  "unicast_packet p \<longleftrightarrow>
     (\<exists>sid ins ps. 1 \<le> unat sid \<and> unat sid \<le> 253 \<and> length ps \<le> 8 \<and> p = instruction_packet sid ins ps)"

lemma is_unicast_iff: "is_unicast_servo_id sid \<longleftrightarrow> 1 \<le> unat sid \<and> unat sid \<le> 253"
proof -
  have "sid \<noteq> 0 \<longleftrightarrow> 1 \<le> unat sid" by (simp add: unat_eq_0 [symmetric] Suc_le_eq)
  moreover have "sid \<le> 253 \<longleftrightarrow> unat sid \<le> 253" by (simp add: word_le_nat_alt)
  ultimately show ?thesis by (simp add: is_unicast_servo_id_def servo_id_consts)
qed

lemma unicast_packetI: "is_unicast_servo_id sid \<Longrightarrow> length ps \<le> 8 \<Longrightarrow> unicast_packet (instruction_packet sid ins ps)"
  unfolding unicast_packet_def is_unicast_iff by blast

lemma writes_validated [writes_intro]:
  "(is_unicast_servo_id sid \<Longrightarrow> writes P m) \<Longrightarrow>
   writes P (case validate_servo_id sid of Inl e \<Rightarrow> return_err e | Inr _ \<Rightarrow> m)"
  by (auto simp: validate_servo_id_def intro: writes_intro)

lemma writes_if [writes_intro]:
  "(b \<Longrightarrow> writes P m) \<Longrightarrow> (\<not> b \<Longrightarrow> writes P m') \<Longrightarrow> writes P (if b then m else m')"
  by simp

lemma writes_write_register [writes_intro]:
  "is_unicast_servo_id sid \<Longrightarrow> writes unicast_packet (write_register sid a d)"
  by (cases "length d \<le> 7")
     (auto simp: write_register_alt write_register_def intro!: writes_intro unicast_packetI)

lemma writes_transactions [writes_intro]:
  "writes unicast_packet (ping_servo sid)"
  "writes unicast_packet (read_position sid)"
  "writes unicast_packet (start_motor sid ccw spd acc)"
  "writes unicast_packet (stop_motor sid)"
  "writes unicast_packet (move_position sid pos acc torque)"
  unfolding ping_servo_def read_position_def start_motor_def stop_motor_def move_position_def Let_def
  by (intro writes_intro unicast_packetI; simp)+

lemma writes_read_positions_loop [writes_intro]:
  "writes unicast_packet (read_positions_loop ids positions)"
  by (induction ids arbitrary: positions) (auto intro!: writes_intro)

lemma tx_written_resynchronize [simp]: "tx_written (resynchronize_uart u) = tx_written u"
  by (simp add: resynchronize_uart_def)

lemma writes_continue:
  assumes "writes P m" "tx_written v = tx_written u @ ps" "list_all P ps"
  shows "\<exists>pkts. tx_written (snd (m v)) = tx_written u @ pkts \<and> list_all P pkts"
proof -
  from assms(1) obtain qs where "tx_written (snd (m v)) = tx_written v @ qs" "list_all P qs"
    unfolding writes_def by blast
  with assms show ?thesis by (intro exI [of _ "ps @ qs"]) simp
qed

lemma writes_scan_loop [writes_intro]: "writes unicast_packet (scan_loop raw_ids ids)"
proof (induction raw_ids arbitrary: ids)
  case Nil
  then show ?case by (simp add: writes_intro)
next
  case (Cons raw raw_ids)
  show ?case
    unfolding writes_def
  proof
    fix u
    obtain r v where ping: "ping_servo (of_nat raw) u = (r, v)" by fastforce
    obtain ps where ps: "tx_written v = tx_written u @ ps" "list_all unicast_packet ps"
      using writesD [OF writes_transactions(1) ping] .
    then have ps': "tx_written (resynchronize_uart v) = tx_written u @ ps" by simp
    show "\<exists>pkts. tx_written (snd (scan_loop (raw # raw_ids) ids u)) = tx_written u @ pkts \<and>
        list_all unicast_packet pkts"
    proof (cases r)
      case (Inl e)
      with ping ps ps' show ?thesis
        using writes_continue [OF Cons.IH ps' ps(2)] writes_continue [OF Cons.IH, of u u "[]"]
        by (cases e) (auto simp: Let_def)
    next
      case (Inr x)
      with ping ps show ?thesis
        using writes_continue [OF Cons.IH ps] writes_continue [OF Cons.IH, of u u "[]"]
        by (auto simp: Let_def)
    qed
  qed
qed

lemma writes_dispatch [writes_intro]: "writes unicast_packet (dispatch_command command)"
  by (cases command) (auto simp: read_positions_def scan_servos_def intro!: writes_intro)

section \<open>Scanning\<close>

lemma scan_loop_found:
  assumes "distinct raw_ids" "scan_loop raw_ids ids u = (Inr found, u')"
  shows "\<exists>A. found = ids @ map of_nat (filter (\<lambda>i. i \<in> A) raw_ids) \<and> (\<forall>i \<in> A. is_unicast_servo_id (of_nat i))"
  using assms
proof (induction raw_ids arbitrary: ids u)
  case Nil
  then show ?case by (intro exI [of _ "{}"]) (simp add: return_ok_def)
next
  case (Cons raw raw_ids)
  let ?sid = "of_nat raw :: u8"
  consider (found) v where "is_unicast_servo_id ?sid" "scan_loop raw_ids (ids @ [?sid]) v = (Inr found, u')"
    | (absent) v where "scan_loop raw_ids ids v = (Inr found, u')"
    using Cons.prems(2) by (auto simp: Let_def split: if_splits sum.splits prod.splits ServoFailure.splits)
  then show ?case
  proof cases
    case found
    with Cons.IH [of "ids @ [?sid]" v] Cons.prems(1) obtain A where
      A: "found = ids @ ?sid # map of_nat (filter (\<lambda>i. i \<in> A) raw_ids)"
        "\<forall>i \<in> A. is_unicast_servo_id (of_nat i)"
      by auto
    have "filter (\<lambda>i. i \<in> insert raw A) raw_ids = filter (\<lambda>i. i \<in> A) raw_ids"
      using Cons.prems(1) by (intro filter_cong) auto
    with A found(1) show ?thesis by (intro exI [of _ "insert raw A"]) simp
  next
    case absent
    with Cons.IH [of ids v] Cons.prems(1) obtain A where
      A: "found = ids @ map of_nat (filter (\<lambda>i. i \<in> A) raw_ids)" "\<forall>i \<in> A. is_unicast_servo_id (of_nat i)"
      by auto
    have "filter (\<lambda>i. i \<in> A - {raw}) raw_ids = filter (\<lambda>i. i \<in> A) raw_ids"
      using Cons.prems(1) by (intro filter_cong) auto
    with A show ?thesis by (intro exI [of _ "A - {raw}"]) simp
  qed
qed

text \<open>A bus on which the servos of \<open>S\<close> answer every ping and the other addresses stay silent.\<close>

definition bus_events :: "nat set \<Rightarrow> nat list \<Rightarrow> rx_event list" where
  "bus_events S raw_ids =
     concat (map (\<lambda>i. if i \<in> S then reply_events (of_nat i) [] else [Deadline, Deadline]) raw_ids)"

definition ping_packets :: "nat list \<Rightarrow> u8 list list" where
  "ping_packets raw_ids = map (\<lambda>i. instruction_packet (of_nat i) STS_INSTRUCTION_PING []) raw_ids"

lemma ping_servo_answered:
  assumes "is_unicast_servo_id sid" "tx_results u = []" "rx_events u = reply_events sid [] @ es"
  shows "ping_servo sid u =
    (Inr (), u\<lparr>rx_events := es, tx_written := tx_written u @ [instruction_packet sid STS_INSTRUCTION_PING []]\<rparr>)"
  using assms send_sts_packet_delivered [of "[]" "[]" u sid es]
  by (simp add: ping_servo_def validate_servo_id_def return_ok_def)

lemma ping_servo_silent:
  assumes "is_unicast_servo_id sid" "tx_results u = []" "rx_events u = Deadline # es"
  shows "ping_servo sid u =
    (Inl Timeout, u\<lparr>rx_events := es, tx_written := tx_written u @ [instruction_packet sid STS_INSTRUCTION_PING []]\<rparr>)"
  using assms send_sts_packet_silence [of "[]" u es]
  by (simp add: ping_servo_def validate_servo_id_def)

lemma resynchronize_quiet:
  "resynchronize_uart (u\<lparr>rx_events := Deadline # es, tx_written := t\<rparr>) = u\<lparr>rx_events := es, tx_written := t\<rparr>"
  by (simp add: resynchronize_uart_def numeral_eq_Suc)

lemma scan_loop_on_bus:
  assumes "list_all (\<lambda>i. 1 \<le> i \<and> i \<le> 253) raw_ids" "tx_results u = []"
    and "rx_events u = bus_events S raw_ids @ es" "length ids + length raw_ids \<le> 253"
  shows "scan_loop raw_ids ids u =
    (Inr (ids @ map of_nat (filter (\<lambda>i. i \<in> S) raw_ids)),
     u\<lparr>rx_events := es, tx_written := tx_written u @ ping_packets raw_ids\<rparr>)"
  using assms
proof (induction raw_ids arbitrary: ids u)
  case Nil
  then show ?case by (simp add: return_ok_def bus_events_def ping_packets_def)
next
  case (Cons raw raw_ids)
  let ?sid = "of_nat raw :: u8"
  have uni: "is_unicast_servo_id ?sid" using Cons.prems(1) by (simp add: is_unicast_iff)
  let ?v = "u\<lparr>rx_events := bus_events S raw_ids @ es,
      tx_written := tx_written u @ [instruction_packet ?sid STS_INSTRUCTION_PING []]\<rparr>"
  show ?case
  proof (cases "raw \<in> S")
    case True
    then have "ping_servo ?sid u = (Inr (), ?v)"
      using Cons.prems by (intro ping_servo_answered [OF uni]) (simp_all add: bus_events_def)
    moreover have "length ids < MAX_SCAN_RESULTS"
      using Cons.prems(4) by (simp add: MAX_SCAN_RESULTS_def servo_id_consts)
    ultimately show ?thesis
      using True uni Cons.IH [of ?v "ids @ [?sid]"] Cons.prems
      by (simp add: ping_packets_def Let_def)
  next
    case False
    then have "ping_servo ?sid u = (Inl Timeout, u\<lparr>rx_events := Deadline # bus_events S raw_ids @ es,
        tx_written := tx_written u @ [instruction_packet ?sid STS_INSTRUCTION_PING []]\<rparr>)"
      using Cons.prems ping_servo_silent [OF uni, of u "Deadline # bus_events S raw_ids @ es"]
      by (simp add: bus_events_def)
    then show ?thesis
      using False uni Cons.IH [of ?v ids] Cons.prems
      by (simp add: ping_packets_def resynchronize_quiet Let_def)
  qed
qed

section \<open>Reading positions\<close>

lemma read_position_ok:
  assumes "read_position sid u = (Inr p, u')"
  obtains lo hi where "is_unicast_servo_id sid" "p = decode_signed_15 (from_le_bytes16 lo hi)"
    "fst (send_sts_packet sid STS_INSTRUCTION_READ [STS_PRESENT_POSITION, 2] u) = Inr (padded_status [lo, hi])"
proof -
  let ?send = "send_sts_packet sid STS_INSTRUCTION_READ [STS_PRESENT_POSITION, 2]"
  from assms have uni: "is_unicast_servo_id sid"
    by (auto simp: read_position_def validate_servo_id_def return_err_def split: if_splits)
  obtain st v where st: "?send u = (Inr st, v)" "payload_len st = 2"
    "p = decode_signed_15 (from_le_bytes16 (payload st ! 0) (payload st ! 1))"
    using assms uni
    by (cases rule: try_then_cases [of ?send u])
       (auto simp: read_position_def validate_servo_id_def return_err_def return_ok_def split: if_splits)
  from st(1) have "fst (?send u) = Inr st" by simp
  then obtain ps where ps: "st = padded_status ps"
    unfolding send_sts_packet_result
    by (cases "reply_in_stream sid (arriving (rx_events u))") (auto split: if_splits)
  with st(2) obtain lo hi where "ps = [lo, hi]"
    by (auto simp: padded_status_def numeral_eq_Suc length_Suc_conv)
  with st ps uni show thesis using that [of lo hi] by (simp add: padded_status_def)
qed

lemma read_positions_loop_ok:
  assumes "read_positions_loop ids acc u = (Inr ps, u')"
  shows "map pr_id ps = map pr_id acc @ ids \<and> (ids \<noteq> [] \<longrightarrow> length ps \<le> MAX_POSITION_BATCH)
    \<and> list_all is_unicast_servo_id ids"
  using assms
proof (induction ids arbitrary: acc u)
  case Nil
  then show ?case by (simp add: return_ok_def)
next
  case (Cons sid ids)
  from Cons.prems obtain p v where rd: "read_position sid u = (Inr p, v)"
    and len: "length acc < MAX_POSITION_BATCH"
    and rest: "read_positions_loop ids (acc @ [\<lparr>pr_id = sid, pr_position = p\<rparr>]) v = (Inr ps, u')"
    by (cases rule: try_then_cases [of "read_position sid" u])
       (auto simp: return_err_def split: if_splits)
  have uni: "is_unicast_servo_id sid" using read_position_ok [OF rd] .
  show ?case
  proof (cases ids)
    case Nil
    with rest len uni show ?thesis by (auto simp: return_ok_def)
  next
    case (Cons i ids')
    with Cons.IH [OF rest] uni show ?thesis by auto
  qed
qed

lemma scan_servos_ok:
  assumes "scan_servos s e u = (Inr ids, u')"
  shows "s \<noteq> 0" "e \<le> 253" "sorted_wrt (<) ids" "set ids \<subseteq> {s..e}"
proof -
  let ?raw = "[unat s ..< unat e + 1]"
  have guard: "\<not> (s = 0 \<or> e < s \<or> 253 < e)"
    using assms by (auto simp: scan_servos_def servo_id_consts return_err_def)
  then show "s \<noteq> 0" "e \<le> 253" by (auto simp: not_less)
  have "scan_loop ?raw [] u = (Inr ids, u')"
    using assms guard by (simp add: scan_servos_def servo_id_consts)
  then obtain A where ids: "ids = map of_nat (filter (\<lambda>i. i \<in> A) ?raw)"
    using scan_loop_found [of ?raw "[]" u ids u'] by (auto simp del: upt_Suc)
  have small: "i < 256" if "i \<in> set ?raw" for i
    using that unat_u8_less [of e] by (auto simp del: unat_u8_less)
  have "sorted_wrt (<) (filter (\<lambda>i. i \<in> A) ?raw)"
    by (rule sorted_wrt_filter) (rule sorted_wrt_upt)
  then have "sorted_wrt (\<lambda>i j. (of_nat i :: u8) < of_nat j) (filter (\<lambda>i. i \<in> A) ?raw)"
    by (rule sorted_wrt_mono_rel [rotated])
       (metis filter_is_subset small subsetD unat_of_nat_u8 word_less_nat_alt)
  then show "sorted_wrt (<) ids" by (simp add: ids sorted_wrt_map)
  show "set ids \<subseteq> {s..e}" using small by (auto simp: ids word_le_nat_alt)
qed

text \<open>A servo that answers a position read with the bytes of -1.\<close>

lemma sample_reading:
  "read_position 2 \<lparr>rx_events = reply_events 2 [1, 0x80], tx_results = [], tx_written = []\<rparr> =
     (Inr (- 1), snd (read_position 2 \<lparr>rx_events = reply_events 2 [1, 0x80], tx_results = [], tx_written = []\<rparr>))"
proof -
  let ?u = "\<lparr>rx_events = reply_events 2 [1, 0x80], tx_results = [], tx_written = []\<rparr>"
  have "\<exists>v. read_position 2 ?u = (Inr (- 1), v)"
    using send_sts_packet_delivered [of "[STS_PRESENT_POSITION, 2]" "[1, 0x80]" ?u 2 "[]"]
    by (simp add: read_position_def validate_servo_id_def is_unicast_servo_id_def servo_id_consts
        padded_status_def return_ok_def decode_signed_15_def from_le_bytes16_def)
  then show ?thesis by (metis snd_conv)
qed

section \<open>Properties\<close>

text \<open>C9. No controller command ever addresses the broadcast id or an invalid id: whatever the command and
  its arguments and whatever the bus does, every buffer handed to the UART is an STS instruction packet
  for a servo id from 1 to 253.\<close>
theorem commands_only_unicast:
  assumes "execute_command command u = (r, u')"
  shows "\<exists>pkts. tx_written u' = tx_written u @ pkts \<and> list_all unicast_packet pkts"
proof -
  obtain r' v where d: "dispatch_command command u = (r', v)" by fastforce
  with assms have "tx_written u' = tx_written v"
    by (auto simp: execute_command_def split: sum.splits)
  moreover obtain pkts where "tx_written v = tx_written u @ pkts" "list_all unicast_packet pkts"
    using writesD [OF writes_dispatch d] .
  ultimately show ?thesis by auto
qed

theorem commands_only_unicast_witness:
  "\<exists>r u'. execute_command (StopMotor 254) \<lparr>rx_events = [], tx_results = [], tx_written = []\<rparr> = (r, u')
     \<and> (\<exists>pkts. tx_written u' = [] @ pkts \<and> list_all unicast_packet pkts)"
  using commands_only_unicast [of "StopMotor 254" "\<lparr>rx_events = [], tx_results = [], tx_written = []\<rparr>"]
  by (metis (no_types, lifting) prod.collapse uart.select_convs(3))

text \<open>Starting a motor is guarded and ordered: an invalid id or a speed above 4095 is refused with
  nothing sent; otherwise the packets sent are a non-empty prefix of select continuous mode, enable
  torque, write acceleration and signed speed, each sent only after the one before was acknowledged,
  and all three when the command succeeds.\<close>
theorem start_motor_sequence:
  assumes "start_motor sid ccw spd acc u = (r, u')"
  shows "if \<not> is_unicast_servo_id sid then r = Inl InvalidServoId \<and> u' = u
    else if 4095 < spd then r = Inl InvalidArgument \<and> u' = u
    else \<exists>n. 0 < n \<and> n \<le> 3 \<and> (r = Inr () \<longrightarrow> n = 3) \<and>
      tx_written u' = tx_written u @ take n (plan_packets sid (start_plan ccw spd acc))"
proof (cases "is_unicast_servo_id sid \<and> \<not> 4095 < spd")
  case True
  then have "spd \<le> 4095" by (simp only: not_less)
  with True assms have "write_plan write_register sid (start_plan ccw spd acc) u = (r, u')"
    by (metis start_motor_plan)
  from fw.plan_prefix [OF _ _ _ this] True show ?thesis by simp
next
  case False
  with assms show ?thesis
    by (auto simp: start_motor_def validate_servo_id_def return_err_def split: if_splits)
qed

theorem start_motor_sequence_witness:
  "\<exists>n. 0 < n \<and> n \<le> 3 \<and>
     tx_written (snd (start_motor 1 False 1024 20 \<lparr>rx_events = [], tx_results = [], tx_written = []\<rparr>)) =
       take n (plan_packets 1 (start_plan False 1024 20))"
  using start_motor_sequence [of 1 False 1024 20 "\<lparr>rx_events = [], tx_results = [], tx_written = []\<rparr>"]
  by (fastforce simp: is_unicast_servo_id_def servo_id_consts
      intro: prod.collapse [symmetric])



text \<open>A scan refuses any range that is not within 1 to 253 without touching the bus; otherwise, whatever
  the bus does, a successful scan returns ids of the requested range only, strictly ascending, so at
  most one per address.\<close>
theorem scan_result_sound:
  assumes "scan_servos s e u = (r, u')"
  shows "if s = 0 \<or> e < s \<or> 253 < e then r = Inl InvalidArgument \<and> u' = u
    else \<forall>ids. r = Inr ids \<longrightarrow> sorted_wrt (<) ids \<and> set ids \<subseteq> {s..e}"
proof (cases "s = 0 \<or> e < s \<or> 253 < e")
  case True
  with assms show ?thesis by (simp add: scan_servos_def servo_id_consts return_err_def)
next
  case False
  with assms show ?thesis by (auto dest: scan_servos_ok)
qed

theorem scan_result_sound_witness:
  "\<exists>v. scan_servos 1 3 \<lparr>rx_events = bus_events {2} [1, 2, 3], tx_results = [], tx_written = []\<rparr> = (Inr [2], v)
     \<and> sorted_wrt (<) [2 :: u8] \<and> set [2 :: u8] \<subseteq> {1..3}"
proof -
  let ?u = "\<lparr>rx_events = bus_events {2} [1, 2, 3], tx_results = [], tx_written = []\<rparr>"
  have range: "[unat (1 :: u8) ..< unat (3 :: u8) + 1] = [1, 2, 3]" by code_simp
  obtain v where v: "scan_servos 1 3 ?u = (Inr [2], v)"
    using scan_loop_on_bus [of "[1, 2, 3]" ?u "{2}" "[]" "[]"]
    unfolding scan_servos_def range by (simp add: servo_id_consts)
  with scan_result_sound [OF v] show ?thesis by (auto split: if_splits)
qed

text \<open>C10. On a bus where the servos of a set S answer each ping with a clean status packet and every other
  address stays silent, a scan of a valid range finds exactly the servos of S in that range, in
  ascending order, having pinged every address of the range once and sent nothing else.\<close>
theorem scan_finds_responding_servos:
  assumes "s \<noteq> 0" "s \<le> e" "e \<le> 253" and "tx_results u = []"
    and "rx_events u = bus_events S [unat s ..< unat e + 1] @ es"
  shows "scan_servos s e u =
    (Inr (map of_nat (filter (\<lambda>i. i \<in> S) [unat s ..< unat e + 1])),
     u\<lparr>rx_events := es, tx_written := tx_written u @ ping_packets [unat s ..< unat e + 1]\<rparr>)"
proof -
  have e: "unat e \<le> 253" "1 \<le> unat s"
    using assms(1,3) by (simp_all add: word_le_nat_alt unat_eq_0 [symmetric] Suc_le_eq)
  then have "list_all (\<lambda>i. 1 \<le> i \<and> i \<le> 253) [unat s ..< unat e + 1]"
    by (auto simp: list_all_iff)
  moreover have "\<not> (s = 0 \<or> e < s \<or> 253 < e)" using assms by (simp add: not_less)
  ultimately show ?thesis
    using assms e scan_loop_on_bus [of "[unat s ..< unat e + 1]" u S es "[]"]
    by (simp add: scan_servos_def servo_id_consts del: upt_Suc)
qed

theorem scan_finds_responding_servos_witness:
  "fst (scan_servos 1 3 \<lparr>rx_events = bus_events {2} [1, 2, 3], tx_results = [], tx_written = []\<rparr>) = Inr [2]"
proof -
  let ?u = "\<lparr>rx_events = bus_events {2} [1, 2, 3], tx_results = [], tx_written = []\<rparr>"
  have range: "[unat (1 :: u8) ..< unat (3 :: u8) + 1] = [1, 2, 3]" by code_simp
  show ?thesis
    using scan_finds_responding_servos [of 1 3 ?u "{2}" "[]"] unfolding range by simp
qed

text \<open>A position that is returned was measured by the addressed servo: the arriving bytes contain its
  checksummed status packet with exactly two parameters, and the result is their little-endian value
  read as sign and 15-bit magnitude, so it lies between -32767 and 32767.\<close>
theorem read_position_decodes:
  assumes "read_position sid u = (Inr p, u')"
  shows "is_unicast_servo_id sid \<and>
    (\<exists>noise lo hi rest. arriving (rx_events u) = noise @ STS_HEADER @ status_packet sid 0 [lo, hi] @ rest \<and>
      sint p = (if unat hi < 128 then int (unat lo + 256 * unat hi)
                else - int (unat lo + 256 * (unat hi - 128)))) \<and>
    \<bar>sint p\<bar> \<le> 32767"
proof -
  obtain lo hi where uni: "is_unicast_servo_id sid" and p: "p = decode_signed_15 (from_le_bytes16 lo hi)"
    and sent: "fst (send_sts_packet sid STS_INSTRUCTION_READ [STS_PRESENT_POSITION, 2] u) = Inr (padded_status [lo, hi])"
    using read_position_ok [OF assms] .
  have inj: "ps = qs" if "padded_status ps = padded_status qs" for ps qs
    using that by (auto simp: padded_status_def)
  from sent obtain rest where "reply_in_stream sid (arriving (rx_events u)) = Reply [lo, hi] rest"
    unfolding send_sts_packet_result
    by (cases "reply_in_stream sid (arriving (rx_events u))") (auto split: if_splits dest: inj)
  then obtain noise where "arriving (rx_events u) = noise @ STS_HEADER @ status_packet sid 0 [lo, hi] @ rest"
    unfolding reply_in_stream_iff by blast
  moreover have "sint p = (if unat hi < 128 then int (unat lo + 256 * unat hi)
                else - int (unat lo + 256 * (unat hi - 128)))"
    using unat_u8_less [of lo]
    by (auto simp: p decode_signed_15_sint unat_from_le_bytes16 simp del: unat_u8_less of_nat_unat)
  moreover have "\<bar>sint p\<bar> \<le> 32767"
    using unat_u16_less [of "from_le_bytes16 lo hi"]
    by (auto simp: p decode_signed_15_sint simp del: unat_u16_less of_nat_unat)
  ultimately show ?thesis using uni by blast
qed

theorem read_position_decodes_witness:
  "fst (read_position 2 \<lparr>rx_events = reply_events 2 [1, 0x80], tx_results = [], tx_written = []\<rparr>) = Inr (- 1)
   \<and> \<bar>sint (- 1 :: i16)\<bar> \<le> 32767"
proof -
  let ?u = "\<lparr>rx_events = reply_events 2 [1, 0x80], tx_results = [], tx_written = []\<rparr>"
  have "fst (read_position 2 ?u) = Inr (- 1)" using arg_cong [OF sample_reading, of fst] by simp
  with read_position_decodes [OF sample_reading] show ?thesis by simp
qed

text \<open>A batch read is all or nothing: when it succeeds there are at most six ids, every one a unicast
  id, and the results carry exactly the requested ids in the requested order.\<close>
theorem read_positions_complete:
  assumes "read_positions ids u = (Inr ps, u')"
  shows "map pr_id ps = ids \<and> length ids \<le> 6 \<and> list_all is_unicast_servo_id ids"
proof -
  have "map pr_id ps = ids \<and> (ids \<noteq> [] \<longrightarrow> length ps \<le> 6) \<and> list_all is_unicast_servo_id ids"
    using read_positions_loop_ok [of ids "[]" u ps u'] assms
    by (simp add: read_positions_def MAX_POSITION_BATCH_def)
  then show ?thesis by (cases ids) auto
qed

theorem read_positions_complete_witness:
  "\<exists>ps v. read_positions [2] \<lparr>rx_events = reply_events 2 [1, 0x80], tx_results = [], tx_written = []\<rparr> = (Inr ps, v)
     \<and> map pr_id ps = [2]"
proof -
  let ?u = "\<lparr>rx_events = reply_events 2 [1, 0x80], tx_results = [], tx_written = []\<rparr>"
  have "\<exists>ps v. read_positions [2] ?u = (Inr ps, v)"
    using send_sts_packet_delivered [of "[STS_PRESENT_POSITION, 2]" "[1, 0x80]" ?u 2 "[]"]
    by (simp add: read_positions_def read_position_def validate_servo_id_def is_unicast_servo_id_def
        servo_id_consts padded_status_def return_ok_def try_then_def MAX_POSITION_BATCH_def)
  then show ?thesis using read_positions_complete [of "[2]" ?u] by blast
qed

end
