(* ===== verification/Json.thy ===== *)
theory Json
  imports Fetchline_Prelude
begin

text \<open>
  JSON values and their compact text, the common format of the firmware's responses (written by
  \<open>serde_json_core\<close>) and of the host's messages (\<open>serde_json\<close>). A serializer is
  a parameter of the components that use it; \<open>compact_serializer\<close> states what they rely
  on: values whose strings need no escape are written compactly, and writing fails exactly when the
  text does not fit the buffer.
\<close>

section \<open>Definitions\<close>

text \<open>A number is an integer, or any other number kept as its text.\<close>

datatype json =
    JNull
  | JBool bool
  | JInt int
  | JFloat string
  | JStr string
  | JArr "json list"
  | JObj "(string \<times> json) list"

fun decimal :: "nat \<Rightarrow> string" where
  "decimal n = (if n < 10 then [char_of (48 + n)] else decimal (n div 10) @ [char_of (48 + n mod 10)])"

declare decimal.simps [simp del]

definition render_int :: "int \<Rightarrow> string" where
  "render_int i = (if i < 0 then CHR ''-'' # decimal (nat (- i)) else decimal (nat i))"

definition quoted :: "string \<Rightarrow> string" where
  "quoted s = CHR 0x22 # s @ [CHR 0x22]"

fun separated :: "string list \<Rightarrow> string" where
  "separated [] = []"
| "separated [x] = x"
| "separated (x # xs) = x @ CHR '','' # separated xs"

fun render :: "json \<Rightarrow> string" where
  "render JNull = ''null''"
| "render (JBool b) = (if b then ''true'' else ''false'')"
| "render (JInt i) = render_int i"
| "render (JStr s) = quoted s"
| "render (JArr vs) = CHR ''['' # separated (map render vs) @ [CHR '']'']"
| "render (JObj kvs) =
     CHR ''{'' # separated (map (\<lambda>(k, v). quoted k @ CHR '':'' # render v) kvs) @ [CHR ''}'']"
| "render (JFloat t) = t"

text \<open>Characters that JSON writes as they are.\<close>

definition plain_char :: "char \<Rightarrow> bool" where
  "plain_char c \<longleftrightarrow> 0x20 \<le> (of_char c :: nat) \<and> of_char c < (0x7f :: nat) \<and> c \<noteq> CHR 0x22 \<and> c \<noteq> CHR 0x5c"

fun plain :: "json \<Rightarrow> bool" where
  "plain (JStr s) = list_all plain_char s"
| "plain (JFloat t) = False"
| "plain (JArr vs) = list_all plain vs"
| "plain (JObj kvs) = list_all (\<lambda>(k, v). list_all plain_char k \<and> plain v) kvs"
| "plain _ = True"

text \<open>A serializer into a buffer of a given length: the text written, or failure.\<close>

type_synonym serializer = "json \<Rightarrow> nat \<Rightarrow> string option"

definition compact_serializer :: "serializer \<Rightarrow> bool" where
  "compact_serializer ser \<longleftrightarrow>
     (\<forall>v n. plain v \<longrightarrow> ser v n = (if length (render v) \<le> n then Some (render v) else None))"

section \<open>Lengths\<close>

lemma length_decimal_le: "n < 10 ^ Suc k \<Longrightarrow> length (decimal n) \<le> Suc k"
proof (induction k arbitrary: n)
  case 0
  then show ?case by (simp add: decimal.simps)
next
  case (Suc k)
  show ?case
  proof (cases "n < 10")
    case False
    have "n div 10 < 10 ^ Suc k" using Suc.prems by (simp add: div_less_iff_less_mult)
    with Suc.IH [of "n div 10"] False show ?thesis by (subst decimal.simps) simp
  qed (simp add: decimal.simps)
qed

lemma length_render_int:
  "0 \<le> i \<Longrightarrow> i < 10 ^ Suc k \<Longrightarrow> length (render_int i) \<le> Suc k"
  "\<bar>i\<bar> < 10 ^ Suc k \<Longrightarrow> length (render_int i) \<le> Suc (Suc k)"
  using length_decimal_le [of "nat i" k] length_decimal_le [of "nat (- i)" k]
  by (auto simp: render_int_def nat_less_iff le_Suc_eq abs_if split: if_splits)

lemma length_render_word:
  "length (render_int (uint (b :: u8))) \<le> 3" "length (render_int (uint (w :: u32))) \<le> 10"
proof -
  have "uint b < 10 ^ Suc 2" "uint w < 10 ^ Suc 9"
    using uint_lt2p [of b] uint_lt2p [of w] by simp_all
  then show "length (render_int (uint b)) \<le> 3" "length (render_int (uint w)) \<le> 10"
    using length_render_int(1) [of "uint b" 2] length_render_int(1) [of "uint w" 9] by simp_all
qed

lemma length_quoted [simp]: "length (quoted s) = length s + 2"
  by (simp add: quoted_def)

lemma length_separated: "length (separated xs) = sum_list (map length xs) + (length xs - 1)"
  by (induction xs rule: separated.induct) auto

lemma render_obj_length:
  "length (render (JObj kvs)) =
     2 + (length kvs - 1) + (\<Sum>(k, v) \<leftarrow> kvs. length k + 3 + length (render v))"
  by (simp add: length_separated comp_def case_prod_beta' add.assoc add.commute [of 3] numeral_3_eq_3)

lemma render_arr_length:
  "length (render (JArr vs)) = 2 + (length vs - 1) + (\<Sum>v \<leftarrow> vs. length (render v))"
  by (simp add: length_separated comp_def)

text \<open>The lengths of the decimals of distinct numbers are at most those of the whole range.\<close>

lemma sum_lengths_distinct:
  assumes "distinct xs" "set xs \<subseteq> {1..<254}"
  shows "(\<Sum>x \<leftarrow> xs. length (decimal x)) \<le> 651"
proof -
  have "(\<Sum>x \<leftarrow> xs. length (decimal x)) = (\<Sum>x \<in> set xs. length (decimal x))"
    using assms(1) by (simp add: sum_list_distinct_conv_sum_set)
  also have "\<dots> \<le> (\<Sum>x \<in> {1..<254}. length (decimal x))"
    using assms(2) by (intro sum_mono2) auto
  also have "\<dots> = (\<Sum>x \<in> {1..<10}. length (decimal x)) + (\<Sum>x \<in> {10..<100}. length (decimal x)) +
      (\<Sum>x \<in> {100..<254}. length (decimal x))"
    by (simp add: sum.atLeastLessThan_concat)
  also have "\<dots> \<le> (\<Sum>x \<in> {1..<10 :: nat}. 1) + (\<Sum>x \<in> {10..<100 :: nat}. 2) + (\<Sum>x \<in> {100..<254 :: nat}. 3)"
    using length_decimal_le [of _ 0] length_decimal_le [of _ 1] length_decimal_le [of _ 2]
    by (intro add_mono sum_mono) (auto simp: numeral_eq_Suc)
  finally show ?thesis by simp
qed

end
