(* ===== verification/Host_Raw.thy ===== *)
theory Host_Raw
  imports Sts_Stream Register_Plan Json
begin

text \<open>
  The host's bridge connection (\<open>src/host/src/main.rs\<close>) and its raw-tunnel path: in raw mode
  the host speaks STS itself through the TCP tunnel. The data types of the connection are here because
  both paths share them; \<open>Host_Rpc\<close> has the controller path. Errors are the host's message
  strings, since the host decides from their text whether a connection is still usable. The lemmas
  show that the raw path puts the same packets on the wire as the firmware, in the same order, and
  reads replies by the same rules.
\<close>

section \<open>Connections\<close>

text \<open>What the raw TCP stream delivers: a byte, the end of a 750 ms wait, or a failure with its text.
  The end of the list is the end of the stream. The outcome of each write, and the buffers handed to it.\<close>

datatype tcp_event = TcpByte u8 | Elapsed | TcpError string

datatype tcp_outcome = TcpSent | TcpElapsed | TcpFailed string

record tcp_stream =
  ts_rx :: "tcp_event list"
  ts_tx_outcomes :: "tcp_outcome list"
  ts_tx :: "u8 list list"

text \<open>What the controller WebSocket delivers: each item with the milliseconds that pass before it is there,
  after the previous one was taken. An exhausted list is a peer that stays silent. What was sent on it,
  with the outcome of each send, and how long the host has waited for messages.\<close>

datatype ws_incoming =
    WsEnd
  | WsFailed string
  | WsText string
  | WsPing "u8 list"
  | WsPong "u8 list"
  | WsClose
  | WsBinary "u8 list"
  | WsFrame "u8 list"

datatype ws_outgoing = SentText string | SentPong "u8 list"

record ws_stream =
  ws_in :: "(nat \<times> ws_incoming) list"
  ws_outcomes :: "tcp_outcome list"
  ws_out :: "ws_outgoing list"
  ws_waited :: nat

datatype BridgeTransport = Controller ws_stream | DebugRaw tcp_stream

record BridgeConnection =
  bc_peer :: string
  bc_transport :: BridgeTransport
  bc_next_request_id :: u32

type_synonym 'a bridge_action = "(BridgeConnection, string, 'a) action"

definition is_controller :: "BridgeConnection \<Rightarrow> bool" where
  "is_controller c = (case bc_transport c of Controller _ \<Rightarrow> True | DebugRaw _ \<Rightarrow> False)"

text \<open>\<open>raw_stream_mut\<close>: run an action on the raw stream of the connection.\<close>

definition raw_stream_mut :: "(tcp_stream, string, 'a) action \<Rightarrow> 'a bridge_action" where
  "raw_stream_mut act c = (case bc_transport c of
       DebugRaw stream \<Rightarrow> (case act stream of (r, stream') \<Rightarrow> (r, c\<lparr>bc_transport := DebugRaw stream'\<rparr>))
     | Controller _ \<Rightarrow> (Inl ''the MCU connection is in JSON-RPC controller mode'', c))"

section \<open>Bytes\<close>

definition host_checksum :: "u8 list \<Rightarrow> u8" where
  "host_checksum bytes = NOT (fold (\<lambda>byte sum. sum + byte) bytes 0)"

definition checksum_for_status :: "u8 \<Rightarrow> u8 \<Rightarrow> u8 list \<Rightarrow> u8" where
  "checksum_for_status sid len body = NOT (fold (\<lambda>byte sum. sum + byte) body (sid + len))"

definition host_decode_signed_15 :: "u16 \<Rightarrow> i16" where
  "host_decode_signed_15 value = (if value AND 0x8000 \<noteq> 0 then - (value AND 0x7fff) else value)"

definition hex_digit :: "nat \<Rightarrow> char" where
  "hex_digit n = char_of (if n < 10 then 48 + n else 87 + n)"

definition hex2 :: "u8 \<Rightarrow> string" where
  "hex2 b = [hex_digit (unat b div 16), hex_digit (unat b mod 16)]"

section \<open>The raw stream\<close>

fun tcp_read :: "nat \<Rightarrow> tcp_event list \<Rightarrow> (string + u8 list) \<times> tcp_event list" where
  "tcp_read 0 es = (Inr [], es)"
| "tcp_read (Suc n) [] = (Inl ''Could not read STS servo reply: early eof'', [])"
| "tcp_read (Suc n) (TcpByte b # es) =
     (case tcp_read n es of (Inr bs, es') \<Rightarrow> (Inr (b # bs), es') | (Inl e, es') \<Rightarrow> (Inl e, es'))"
| "tcp_read (Suc n) (Elapsed # es) = (Inl ''Timed out waiting for an STS servo reply'', es)"
| "tcp_read (Suc n) (TcpError d # es) = (Inl (''Could not read STS servo reply: '' @ d), es)"

definition read_exact_with_timeout :: "nat \<Rightarrow> (tcp_stream, string, u8 list) action" where
  "read_exact_with_timeout n s = (case tcp_read n (ts_rx s) of (r, es) \<Rightarrow> (r, s\<lparr>ts_rx := es\<rparr>))"

definition write_with_timeout :: "u8 list \<Rightarrow> (tcp_stream, string, unit) action" where
  "write_with_timeout bytes s =
     (let s' = s\<lparr>ts_tx_outcomes := tl (ts_tx_outcomes s), ts_tx := ts_tx s @ [bytes]\<rparr> in
      case ts_tx_outcomes s of
        TcpElapsed # _ \<Rightarrow> (Inl ''Timed out sending command to the MCU'', s')
      | TcpFailed d # _ \<Rightarrow> (Inl (''Could not send command to the MCU: '' @ d), s')
      | _ \<Rightarrow> (Inr (), s'))"

fun find_header_loop :: "nat \<Rightarrow> u8 \<Rightarrow> (tcp_stream, string, unit) action" where
  "find_header_loop 0 previous = return_err ''Could not find an STS response header''"
| "find_header_loop (Suc n) previous = try_then (read_exact_with_timeout 1) (\<lambda>byte.
     if previous = 0xff \<and> byte ! 0 = 0xff then return_ok () else find_header_loop n (byte ! 0))"

definition find_header :: "(tcp_stream, string, unit) action" where
  "find_header = find_header_loop 128 0"

definition status_body_checked :: "u8 \<Rightarrow> u8 \<Rightarrow> nat \<Rightarrow> u8 list \<Rightarrow> (tcp_stream, string, u8 list) action" where
  "status_body_checked sid len data_length body =
     (let checksum_index = length body - 1 in
      if body ! checksum_index \<noteq> checksum_for_status sid len (take checksum_index body)
      then return_err ''STS reply checksum did not match''
      else if body ! 0 \<noteq> 0
      then return_err (''Servo '' @ decimal (unat sid) @ '' reported STS error 0x'' @ hex2 (body ! 0))
      else let payload = drop 1 (take checksum_index body) in
        if length payload \<noteq> data_length
        then return_err (''Servo '' @ decimal (unat sid) @ '' returned '' @ decimal (length payload) @
          '' data bytes; expected '' @ decimal data_length)
        else return_ok payload)"

definition read_status_stream :: "u8 \<Rightarrow> nat \<Rightarrow> (tcp_stream, string, u8 list) action" where
  "read_status_stream expected_id data_length =
     try_then find_header (\<lambda>_.
     try_then (read_exact_with_timeout 2) (\<lambda>fixed.
       let sid = fixed ! 0; len = unat (fixed ! 1) in
       if sid \<noteq> expected_id
       then return_err (''STS reply came from servo '' @ decimal (unat sid) @ '', but servo '' @
         decimal (unat expected_id) @ '' was addressed'')
       else if len < 2 \<or> 66 < len
       then return_err (''STS reply has an invalid length ('' @ decimal len @ '')'')
       else try_then (read_exact_with_timeout len) (status_body_checked sid (fixed ! 1) data_length)))"

definition read_status :: "u8 \<Rightarrow> nat \<Rightarrow> u8 list bridge_action" where
  "read_status expected_id data_length = raw_stream_mut (read_status_stream expected_id data_length)"

definition write_packet :: "u8 \<Rightarrow> u8 \<Rightarrow> u8 list \<Rightarrow> unit bridge_action" where
  "write_packet sid instruction parameters =
     (case u8_try_from (length parameters + 2) of
        None \<Rightarrow> return_err ''STS command is too long''
      | Some len \<Rightarrow>
          let packet = STS_HEADER @ [sid, len, instruction] @ parameters;
              packet = packet @ [host_checksum (drop 2 packet)]
          in raw_stream_mut (write_with_timeout packet))"

definition host_write_register :: "u8 \<Rightarrow> u8 \<Rightarrow> u8 list \<Rightarrow> unit bridge_action" where
  "host_write_register sid address data =
     try_then (write_packet sid 0x03 (address # data)) (\<lambda>_.
     try_then (read_status sid 0) (\<lambda>_. return_ok ()))"

definition host_read_register :: "u8 \<Rightarrow> u8 \<Rightarrow> u8 \<Rightarrow> u8 list bridge_action" where
  "host_read_register sid address len =
     try_then (write_packet sid 0x02 [address, len]) (\<lambda>_. read_status sid (unat len))"

section \<open>The raw commands\<close>

text \<open>The register addresses are those of the host's constants (mode 33, torque enable 40, acceleration
  41, torque limit 48, present position 56).\<close>

datatype Direction = DirClockwise | DirCounterclockwise

record host_position =
  hp_id :: u8
  hp_position :: i16

text \<open>The answers to the browser: fields as in the source, an error with its text and whether the bridge
  is still connected.\<close>

datatype ServerMessage =
    Connected string
  | Complete string
  | PositionMsg u8 i16
  | PositionsMsg "host_position list" "string list"
  | ServoScan u8 u8 "u8 list"
  | ErrorMsg string bool

definition raw_start_motor :: "u8 \<Rightarrow> u16 \<Rightarrow> u8 \<Rightarrow> Direction \<Rightarrow> ServerMessage bridge_action" where
  "raw_start_motor sid speed acceleration direction =
     try_then (host_write_register sid 33 [1]) (\<lambda>_.
     try_then (host_write_register sid 40 [1]) (\<lambda>_.
     let signed_speed = (case direction of DirClockwise \<Rightarrow> speed | DirCounterclockwise \<Rightarrow> speed OR 0x8000);
         command = (replicate 7 0)[0 := acceleration];
         command = the (copy_from_slice command 5 7 (to_le_bytes16 signed_speed))
     in try_then (host_write_register sid 41 command) (\<lambda>_. return_ok (Complete ''motor_started''))))"

definition raw_stop_motor :: "u8 \<Rightarrow> ServerMessage bridge_action" where
  "raw_stop_motor sid =
     try_then (host_write_register sid 41 (replicate 7 0)) (\<lambda>_. return_ok (Complete ''motor_stopped''))"

definition raw_move_position :: "u8 \<Rightarrow> u16 \<Rightarrow> u8 \<Rightarrow> u16 \<Rightarrow> ServerMessage bridge_action" where
  "raw_move_position sid position acceleration torque_limit =
     try_then (host_write_register sid 40 [1]) (\<lambda>_.
     try_then (host_write_register sid 48 (to_le_bytes16 torque_limit)) (\<lambda>_.
     let command = (replicate 7 0)[0 := acceleration];
         command = the (copy_from_slice command 1 3 (to_le_bytes16 position))
     in try_then (host_write_register sid 41 command) (\<lambda>_. return_ok (Complete ''position_commanded''))))"

definition raw_read_position :: "u8 \<Rightarrow> i16 bridge_action" where
  "raw_read_position sid =
     try_then (host_read_register sid 56 2) (\<lambda>bytes.
       return_ok (host_decode_signed_15 (from_le_bytes16 (bytes ! 0) (bytes ! 1))))"

section \<open>Agreement with the firmware's encodings\<close>

lemma fold_plus_u8: "fold (\<lambda>byte sum. sum + byte) bs (a :: u8) = a + sum_list bs"
  by (induction bs arbitrary: a) (simp_all add: add.assoc)

lemma host_checksum_eq: "host_checksum = checksum"
  by (simp add: fun_eq_iff host_checksum_def checksum_eq fold_plus_u8)

lemma checksum_for_status_eq: "checksum_for_status sid len body = checksum (sid # len # body)"
  by (simp add: checksum_for_status_def checksum_eq fold_plus_u8 add.assoc)

definition raw_written :: "BridgeConnection \<Rightarrow> u8 list list" where
  "raw_written c = (case bc_transport c of DebugRaw s \<Rightarrow> ts_tx s | Controller _ \<Rightarrow> [])"

definition is_raw :: "BridgeConnection \<Rightarrow> bool" where
  "is_raw c \<longleftrightarrow> \<not> is_controller c"

lemma is_rawE: assumes "is_raw c" obtains s where "bc_transport c = DebugRaw s"
  using assms by (cases "bc_transport c") (auto simp: is_raw_def is_controller_def)

lemma write_packet_raw:
  assumes "bc_transport c = DebugRaw s" "length ps \<le> 253"
  shows "write_packet sid ins ps c =
    (case write_with_timeout (instruction_packet sid ins ps) s of
       (r, s') \<Rightarrow> (r, c\<lparr>bc_transport := DebugRaw s'\<rparr>))"
proof -
  have "STS_HEADER @ [sid, of_nat (length ps + 2), ins] @ ps @
      [host_checksum (drop 2 (STS_HEADER @ [sid, of_nat (length ps + 2), ins] @ ps))] = instruction_packet sid ins ps"
    by (simp add: instruction_packet_def instruction_body_def host_checksum_eq STS_HEADER_def length_byte_def)
  then show ?thesis
    using assms by (simp add: write_packet_def u8_try_from_def raw_stream_mut_def Let_def)
qed

section \<open>What the raw path writes\<close>

text \<open>An action that only reads.\<close>

definition silent :: "(tcp_stream, string, 'a) action \<Rightarrow> bool" where
  "silent act \<longleftrightarrow> (\<forall>s. ts_tx (snd (act s)) = ts_tx s)"

named_theorems silent_intro \<open>actions that write nothing\<close>

lemma silent_basic [silent_intro]:
  "silent (return_ok a)" "silent (return_err e)" "silent (read_exact_with_timeout n)"
  by (simp_all add: silent_def return_ok_def return_err_def read_exact_with_timeout_def split: prod.splits)

lemma silent_try_then [silent_intro]:
  assumes "silent m" "\<And>a. silent (k a)"
  shows "silent (try_then m k)"
  unfolding silent_def
proof
  fix s
  show "ts_tx (snd (try_then m k s)) = ts_tx s"
    by (cases rule: try_then_cases [of m s k]) (use assms in \<open>auto simp: silent_def dest: spec [of _ s]\<close>)
qed

lemma silent_if [silent_intro]: "silent m \<Longrightarrow> silent m' \<Longrightarrow> silent (if b then m else m')"
  by simp

lemma silent_find_header_loop [silent_intro]: "silent (find_header_loop n previous)"
  by (induction n arbitrary: previous) (auto intro!: silent_intro)

lemma silent_read_status [silent_intro]: "silent (read_status_stream sid n)"
  unfolding read_status_stream_def find_header_def status_body_checked_def Let_def
  by (intro silent_intro)

lemma raw_stream_silent:
  assumes "is_raw c" "silent act" "raw_stream_mut act c = (r, c')"
  shows "is_raw c' \<and> raw_written c' = raw_written c"
  using assms
  by (elim is_rawE)
     (auto simp: raw_stream_mut_def is_raw_def is_controller_def raw_written_def silent_def
       split: prod.splits; metis snd_conv)

lemma write_packet_written:
  assumes "is_raw c" "length ps \<le> 253" "write_packet sid ins ps c = (r, c')"
  shows "is_raw c' \<and> raw_written c' = raw_written c @ [instruction_packet sid ins ps]"
  using assms
  by (elim is_rawE)
     (auto simp: write_packet_raw write_with_timeout_def raw_written_def is_raw_def is_controller_def Let_def
       split: prod.splits list.splits tcp_outcome.splits)

interpretation host: register_bus host_write_register raw_written is_raw
proof unfold_locales
  fix s s' :: BridgeConnection and d sid a r
  assume raw: "is_raw s" and d: "length (d :: u8 list) \<le> 7" and w: "host_write_register sid a d s = (r, s')"
  obtain r1 s1 where p: "write_packet sid 3 (a # d) s = (r1, s1)" by fastforce
  note p1 = write_packet_written [OF raw _ p]
  obtain r2 s2 where q: "read_status sid 0 s1 = (r2, s2)" by fastforce
  have "is_raw s2 \<and> raw_written s2 = raw_written s1"
    using raw_stream_silent [of s1 "read_status_stream sid 0" r2 s2] p1 d q silent_read_status
    by (auto simp: read_status_def)
  with w p q p1 d show "raw_written s' = raw_written s @ [instruction_packet sid 3 (a # d)] \<and> is_raw s'"
    by (cases r1; cases r2) (auto simp: host_write_register_def return_ok_def try_then_def)
qed

lemma raw_plans:
  "raw_start_motor sid spd acc dir = try_then (write_plan host_write_register sid
     (start_plan (dir = DirCounterclockwise) spd acc)) (\<lambda>_. return_ok (Complete ''motor_started''))"
  "raw_stop_motor sid = try_then (write_plan host_write_register sid stop_plan)
     (\<lambda>_. return_ok (Complete ''motor_stopped''))"
  "raw_move_position sid pos acc torque = try_then (write_plan host_write_register sid (move_plan pos acc torque))
     (\<lambda>_. return_ok (Complete ''position_commanded''))"
  by (auto simp: raw_start_motor_def raw_stop_motor_def raw_move_position_def start_plan_def stop_plan_def
      move_plan_def try_then_assoc Let_def copy_from_slice_def to_le_bytes16_def numeral_eq_Suc
      split: Direction.splits)

lemma try_then_complete:
  "try_then m (\<lambda>_. return_ok v) c = (r, c') \<Longrightarrow>
   \<exists>r'. m c = (r', c') \<and> (r = Inr v \<longleftrightarrow> r' = Inr ()) \<and> (\<forall>v'. r = Inr v' \<longrightarrow> v' = v)"
  by (cases rule: try_then_cases [of m c "\<lambda>_. return_ok v"]) (auto simp: return_ok_def)

section \<open>How the raw path reads replies\<close>

text \<open>The stream delivers no byte before its next other event.\<close>

fun stalled :: "tcp_event list \<Rightarrow> bool" where
  "stalled (TcpByte _ # _) = False"
| "stalled _ = True"

lemma tcp_read_bytes:
  "n \<le> length bs \<Longrightarrow> tcp_read n (map TcpByte bs @ es) = (Inr (take n bs), map TcpByte (drop n bs) @ es)"
  by (induction n arbitrary: bs) (auto simp: Suc_le_length_iff)

lemma tcp_read_starved:
  "length bs < n \<Longrightarrow> stalled es \<Longrightarrow> \<exists>e es'. tcp_read n (map TcpByte bs @ es) = (Inl e, es')"
proof (induction n arbitrary: bs)
  case 0
  then show ?case by simp
next
  case (Suc n)
  show ?case
  proof (cases bs)
    case Nil
    with Suc.prems show ?thesis by (cases es rule: stalled.cases) auto
  next
    case (Cons b bs')
    with Suc.IH [of bs'] Suc.prems show ?thesis by auto
  qed
qed

lemma read_exact_bytes:
  "ts_rx s = map TcpByte bs @ es \<Longrightarrow> n \<le> length bs \<Longrightarrow>
   read_exact_with_timeout n s = (Inr (take n bs), s\<lparr>ts_rx := map TcpByte (drop n bs) @ es\<rparr>)"
  by (simp add: read_exact_with_timeout_def tcp_read_bytes)

lemma read_exact_starved:
  "ts_rx s = map TcpByte bs @ es \<Longrightarrow> length bs < n \<Longrightarrow> stalled es \<Longrightarrow>
   \<exists>e s'. read_exact_with_timeout n s = (Inl e, s')"
  using tcp_read_starved [of bs n es] by (auto simp: read_exact_with_timeout_def)

lemma find_header_bytes:
  assumes "ts_rx s = map TcpByte bs @ es" "stalled es"
  shows "case header_in n previous bs of
      HeaderAt rest \<Rightarrow> find_header_loop n previous s = (Inr (), s\<lparr>ts_rx := map TcpByte rest @ es\<rparr>)
    | _ \<Rightarrow> \<exists>e s'. find_header_loop n previous s = (Inl e, s')"
  using assms
proof (induction n previous bs arbitrary: s rule: header_in.induct)
  case (1 previous bs)
  then show ?case by (simp add: return_err_def)
next
  case (2 n previous)
  then show ?case using read_exact_starved [of s "[]" es 1] by auto
next
  case (3 n previous b bs)
  let ?s = "s\<lparr>ts_rx := map TcpByte bs @ es\<rparr>"
  have "read_exact_with_timeout 1 s = (Inr [b], ?s)"
    using read_exact_bytes [of s "b # bs" es 1] 3 by simp
  with 3 show ?case
    by (auto simp: return_ok_def split: header_search.splits)
qed

text \<open>The checks on a complete body are those of the firmware's decoder.\<close>

lemma status_body_agrees:
  assumes "length body = unat b1" "2 \<le> unat b1" "unat b1 \<le> 66"
  shows "status_body_checked sid b1 n body s = (Inr ps, s') \<longleftrightarrow>
    s' = s \<and> length ps = n \<and>
    decode_status_packet ([sid, b1] @ body) sid = Some (Inr \<lparr>sp_error = 0, sp_parameters = ps\<rparr>)"
proof -
  from assms have ne: "body \<noteq> []" by auto
  have parts: "take (length body - 1) body = butlast body" "body ! (length body - 1) = last body"
    using ne by (simp_all add: butlast_conv_take last_conv_nth)
  have but: "butlast ([sid, b1] @ body) = sid # b1 # butlast body" "last ([sid, b1] @ body) = last body"
    "([sid, b1] @ body) ! 2 = body ! 0" "drop 3 (butlast ([sid, b1] @ body)) = drop 1 (butlast body)"
    using ne by (simp_all add: butlast_append)
  show ?thesis
    unfolding status_body_checked_def Let_def parts decode_status_packet_alt but checksum_for_status_eq
    using assms by (auto simp: return_ok_def return_err_def)
qed

lemma status_after_header:
  assumes HeaderAt: "header_in 128 0 bs = HeaderAt (b0 # b1 # bs')"
    and h: "find_header s = (Inr (), s\<lparr>ts_rx := map TcpByte (b0 # b1 # bs') @ es\<rparr>)" and st: "stalled es"
  shows "read_status_stream sid n s = (Inr ps, s') \<longleftrightarrow>
    length ps = n \<and> (\<exists>rest. reply_in_stream sid bs = Reply ps rest \<and> s' = s\<lparr>ts_rx := map TcpByte rest @ es\<rparr>)"
proof -
  let ?s2 = "s\<lparr>ts_rx := map TcpByte bs' @ es\<rparr>"
  have two: "read_exact_with_timeout 2 (s\<lparr>ts_rx := map TcpByte (b0 # b1 # bs') @ es\<rparr>) = (Inr [b0, b1], ?s2)"
    using read_exact_bytes [of "s\<lparr>ts_rx := map TcpByte (b0 # b1 # bs') @ es\<rparr>" "b0 # b1 # bs'" es 2] by simp
  consider "b0 \<noteq> sid \<or> unat b1 < 2 \<or> 66 < unat b1" | "b0 = sid" "2 \<le> unat b1" "unat b1 \<le> 66" "length bs' < unat b1"
    | "b0 = sid" "2 \<le> unat b1" "unat b1 \<le> 66" "unat b1 \<le> length bs'" by linarith
  then show ?thesis
  proof cases
    case 1
    then have "\<exists>e s''. read_status_stream sid n s = (Inl e, s'')"
      by (auto simp: read_status_stream_def h [simplified] two [simplified] Let_def return_err_def)
    moreover have "reply_in_stream sid bs \<noteq> Reply ps r" for r
    proof
      assume "reply_in_stream sid bs = Reply ps r"
      then obtain st where len: "\<not> (unat b1 < 2 \<or> 66 < unat b1)"
        and "the (decode_status_packet ([b0, b1] @ take (unat b1) bs') sid) = Inr st"
        by (auto simp: reply_in_stream_def HeaderAt split: if_splits sum.splits)
      then have "decode_status_packet ([b0, b1] @ take (unat b1) bs') sid = Some (Inr st)"
        by (simp add: decode_status_packet_alt)
      from decode_status_packet_okD(2) [OF this] have "b0 = sid"
        by (simp add: status_packet_def status_body_def)
      with 1 len show False by blast
    qed
    ultimately show ?thesis by auto
  next
    case 2
    then obtain e s'' where "read_exact_with_timeout (unat b1) ?s2 = (Inl e, s'')"
      using read_exact_starved [of ?s2 bs' es "unat b1"] st by auto
    with 2(2-4) have "read_status_stream sid n s = (Inl e, s'')"
      unfolding 2(1) [symmetric]
      by (simp add: read_status_stream_def h [simplified] two [simplified] Let_def not_less)
    moreover have "reply_in_stream sid bs = Starved"
      using 2 by (simp add: reply_in_stream_def HeaderAt)
    ultimately show ?thesis by simp
  next
    case 3
    let ?s3 = "s\<lparr>ts_rx := map TcpByte (drop (unat b1) bs') @ es\<rparr>"
    have body: "read_exact_with_timeout (unat b1) ?s2 = (Inr (take (unat b1) bs'), ?s3)"
      using read_exact_bytes [of ?s2 bs' es "unat b1"] 3 by simp
    have "read_status_stream sid n s = status_body_checked sid b1 n (take (unat b1) bs') ?s3"
      unfolding 3(1) [symmetric] using 3(2-4) by (simp add: read_status_stream_def h [simplified] two [simplified] body Let_def not_less)
    then have "read_status_stream sid n s = (Inr ps, s') \<longleftrightarrow> s' = ?s3 \<and> length ps = n \<and>
        decode_status_packet ([sid, b1] @ take (unat b1) bs') sid = Some (Inr \<lparr>sp_error = 0, sp_parameters = ps\<rparr>)"
      using status_body_agrees [of "take (unat b1) bs'" b1 sid n ?s3 ps s'] 3 by simp
    then show ?thesis
      using 3 by (auto simp: reply_in_stream_def HeaderAt not_less decode_status_packet_alt
          split: sum.splits if_splits)
  qed
qed

lemma read_status_agrees:
  assumes "ts_rx s = map TcpByte bs @ es" "stalled es"
  shows "read_status_stream sid n s = (Inr ps, s') \<longleftrightarrow>
    length ps = n \<and> (\<exists>rest. reply_in_stream sid bs = Reply ps rest \<and> s' = s\<lparr>ts_rx := map TcpByte rest @ es\<rparr>)"
proof (cases "header_in 128 0 bs")
  case (HeaderAt rest)
  let ?s = "s\<lparr>ts_rx := map TcpByte rest @ es\<rparr>"
  have h: "find_header s = (Inr (), ?s)"
    using find_header_bytes [OF assms, of 128 0] HeaderAt by (simp add: find_header_def)
  show ?thesis
  proof (cases "\<exists>b0 b1 bs'. rest = b0 # b1 # bs'")
    case True
    then obtain b0 b1 bs' where rest: "rest = b0 # b1 # bs'" by blast
    with HeaderAt h assms(2) status_after_header [of bs b0 b1 bs' s es] show ?thesis by simp
  next
    case False
    then have "length rest < 2" by (cases rest; cases "tl rest") auto
    then show ?thesis
      using read_exact_starved [of ?s rest es 2] assms(2) False
      by (auto simp: read_status_stream_def h reply_in_stream_def HeaderAt split: list.splits)
  qed
qed (use find_header_bytes [OF assms, of 128 0] in
    \<open>auto simp: read_status_stream_def find_header_def reply_in_stream_def\<close>)

section \<open>Properties\<close>

text \<open>The host's raw path drives a motor with the register writes the firmware uses: on a raw connection,
  whatever the tunnel does, starting a motor hands to it a non-empty prefix of the packets select mode,
  enable torque, write acceleration and signed speed (the same packets, byte for byte, as the
  firmware's), all of them when it reports success.\<close>
theorem raw_mode_same_writes:
  assumes "is_raw c" "raw_start_motor sid spd acc dir c = (r, c')"
  shows "\<exists>n. 0 < n \<and> n \<le> 3 \<and> (r = Inr (Complete ''motor_started'') \<longrightarrow> n = 3) \<and>
    raw_written c' = raw_written c @ take n (plan_packets sid (start_plan (dir = DirCounterclockwise) spd acc))"
proof -
  obtain r' where r: "write_plan host_write_register sid (start_plan (dir = DirCounterclockwise) spd acc) c = (r', c')"
    "r = Inr (Complete ''motor_started'') \<longleftrightarrow> r' = Inr ()"
    using try_then_complete [OF assms(2) [unfolded raw_plans]] by blast
  from host.plan_prefix [OF assms(1) _ _ r(1)] r(2) show ?thesis by simp
qed

theorem raw_mode_same_writes_witness:
  "\<exists>n. 0 < n \<and> n \<le> 3 \<and>
     raw_written (snd (raw_start_motor 1 100 5 DirClockwise
       \<lparr>bc_peer = ''p'', bc_transport = DebugRaw \<lparr>ts_rx = [], ts_tx_outcomes = [], ts_tx = []\<rparr>, bc_next_request_id = 2\<rparr>)) =
     take n (plan_packets 1 (start_plan False 100 5))"
proof -
  let ?c = "\<lparr>bc_peer = ''p'', bc_transport = DebugRaw \<lparr>ts_rx = [], ts_tx_outcomes = [], ts_tx = []\<rparr>, bc_next_request_id = 2\<rparr>"
  have "is_raw ?c" "raw_written ?c = []" by (simp_all add: is_raw_def is_controller_def raw_written_def)
  then show ?thesis
    using raw_mode_same_writes [of ?c 1 100 5 DirClockwise "fst (raw_start_motor 1 100 5 DirClockwise ?c)"
        "snd (raw_start_motor 1 100 5 DirClockwise ?c)"]
    by auto
qed

text \<open>C27. The host reads a reply in raw mode by exactly the firmware's rules: given the bytes the tunnel
  delivers before it stalls, a status with the expected number of parameters is returned if and only
  if the abstract parse of those bytes is a reply of the addressed servo with that many parameters, and
  then exactly the bytes after that reply are left.\<close>
theorem raw_reply_agrees:
  assumes "ts_rx s = map TcpByte bs @ es" "stalled es"
  shows "read_status_stream sid n s = (Inr ps, s') \<longleftrightarrow>
    length ps = n \<and> (\<exists>rest. reply_in_stream sid bs = Reply ps rest \<and> s' = s\<lparr>ts_rx := map TcpByte rest @ es\<rparr>)"
  by (rule read_status_agrees [OF assms])

theorem raw_reply_agrees_witness:
  "read_status_stream 2 1 \<lparr>ts_rx = map TcpByte (STS_HEADER @ status_packet 2 0 [7]), ts_tx_outcomes = [], ts_tx = []\<rparr> =
     (Inr [7], \<lparr>ts_rx = [], ts_tx_outcomes = [], ts_tx = []\<rparr>)"
proof -
  let ?bs = "STS_HEADER @ status_packet 2 0 [7]"
  have "reply_in_stream 2 ?bs = Reply [7] []"
    unfolding reply_in_stream_iff by (auto intro!: exI [of _ "[]"])
  then show ?thesis
    using raw_reply_agrees [of "\<lparr>ts_rx = map TcpByte ?bs, ts_tx_outcomes = [], ts_tx = []\<rparr>" ?bs "[]" 2 1 "[7]"] by simp
qed

end
