(* ===== verification/Protocol.thy ===== *)
theory Protocol
  imports Fetchline_Prelude
begin

text \<open>
  The TCP ports that firmware and host agree on (\<open>src/protocol/src/lib.rs\<close>).
\<close>

definition CONTROLLER_TCP_PORT :: u16 where "CONTROLLER_TCP_PORT = 3333"

definition RAW_TUNNEL_TCP_PORT :: u16 where "RAW_TUNNEL_TCP_PORT = 3334"

end
