(* ===== verification/Json_Reader.thy ===== *)
theory Json_Reader
  imports Json
begin

text \<open>
  A reference reader of compact JSON. The programs read JSON with \<open>serde_json_core\<close> and
  \<open>serde_json\<close>, which are parameters of the model; what the composed theorems assume of them
  is that they read back the values the other side wrote. This reader does so on the values of
  \<open>Json\<close>, so those assumptions hold of a concrete function.
\<close>

section \<open>Definitions\<close>

definition is_digit :: "char \<Rightarrow> bool" where
  "is_digit c \<longleftrightarrow> 48 \<le> (of_char c :: nat) \<and> of_char c \<le> (57 :: nat)"

definition undecimal :: "string \<Rightarrow> nat" where
  "undecimal ds = fold (\<lambda>c n. 10 * n + (of_char c - 48)) ds 0"

definition read_digits :: "string \<Rightarrow> (nat \<times> string) option" where
  "read_digits s = (case takeWhile is_digit s of [] \<Rightarrow> None | ds \<Rightarrow> Some (undecimal ds, dropWhile is_digit s))"

definition read_string :: "string \<Rightarrow> (string \<times> string) option" where
  "read_string s = (case dropWhile (\<lambda>c. c \<noteq> CHR 0x22) s of
     _ # rest \<Rightarrow> Some (takeWhile (\<lambda>c. c \<noteq> CHR 0x22) s, rest) | [] \<Rightarrow> None)"

definition read_atom :: "string \<Rightarrow> (json \<times> string) option" where
  "read_atom s = (
     if take 4 s = ''null'' then Some (JNull, drop 4 s)
     else if take 4 s = ''true'' then Some (JBool True, drop 4 s)
     else if take 5 s = ''false'' then Some (JBool False, drop 5 s)
     else if take 1 s = ''-'' then map_option (\<lambda>(n, rest). (JInt (- int n), rest)) (read_digits (drop 1 s))
     else map_option (\<lambda>(n, rest). (JInt (int n), rest)) (read_digits s))"

fun read_value :: "nat \<Rightarrow> string \<Rightarrow> (json \<times> string) option"
  and read_elements :: "nat \<Rightarrow> string \<Rightarrow> (json list \<times> string) option"
  and read_members :: "nat \<Rightarrow> string \<Rightarrow> ((string \<times> json) list \<times> string) option" where
  "read_value 0 s = None"
| "read_value (Suc n) s =
     (if take 1 s = [CHR 0x22] then map_option (\<lambda>(t, rest). (JStr t, rest)) (read_string (tl s))
      else if take 2 s = ''[]'' then Some (JArr [], drop 2 s)
      else if take 1 s = ''['' then map_option (\<lambda>(vs, rest). (JArr vs, rest)) (read_elements n (tl s))
      else if take 2 s = ''{}'' then Some (JObj [], drop 2 s)
      else if take 1 s = ''{'' then map_option (\<lambda>(kvs, rest). (JObj kvs, rest)) (read_members n (tl s))
      else read_atom s)"
| "read_elements 0 s = None"
| "read_elements (Suc n) s = (case read_value n s of
       None \<Rightarrow> None
     | Some (v, rest) \<Rightarrow>
         if take 1 rest = '']'' then Some ([v], tl rest)
         else if take 1 rest = '','' then map_option (\<lambda>(vs, r). (v # vs, r)) (read_elements n (tl rest))
         else None)"
| "read_members 0 s = None"
| "read_members (Suc n) s = (if take 1 s \<noteq> [CHR 0x22] then None else case read_string (tl s) of
       None \<Rightarrow> None
     | Some (k, rest) \<Rightarrow> if take 1 rest \<noteq> '':'' then None else (case read_value n (tl rest) of
         None \<Rightarrow> None
       | Some (v, rest) \<Rightarrow>
           if take 1 rest = ''}'' then Some ([(k, v)], tl rest)
           else if take 1 rest = '','' then map_option (\<lambda>(kvs, r). ((k, v) # kvs, r)) (read_members n (tl rest))
           else None))"

definition read_json :: "string \<Rightarrow> json option" where
  "read_json s = (case read_value (2 * length s) s of Some (v, []) \<Rightarrow> Some v | _ \<Rightarrow> None)"

section \<open>Numbers and strings\<close>

lemma is_digit_char_of: "n < 10 \<Longrightarrow> is_digit (char_of (48 + n :: nat))"
  by (simp add: is_digit_def)

lemma decimal_not_Nil [simp]: "decimal n \<noteq> []"
  by (subst decimal.simps) simp

lemma decimal_digits: "list_all is_digit (decimal n)"
proof (induction n rule: decimal.induct)
  case (1 n)
  show ?case by (subst decimal.simps) (use 1 in \<open>auto simp: is_digit_char_of\<close>)
qed

lemma undecimal_decimal [simp]: "undecimal (decimal n) = n"
proof (induction n rule: decimal.induct)
  case (1 n)
  then show ?case by (subst decimal.simps) (auto simp: undecimal_def)
qed

text \<open>What may follow a value: no further digit.\<close>

definition no_digit :: "string \<Rightarrow> bool" where
  "no_digit s \<longleftrightarrow> (case s of [] \<Rightarrow> True | c # _ \<Rightarrow> \<not> is_digit c)"

lemma read_digits_decimal: "no_digit rest \<Longrightarrow> read_digits (decimal n @ rest) = Some (n, rest)"
proof -
  assume "no_digit rest"
  then have "takeWhile is_digit (decimal n @ rest) = decimal n \<and> dropWhile is_digit (decimal n @ rest) = rest"
    using decimal_digits [of n]
    by (auto simp: takeWhile_append2 dropWhile_append2 list_all_iff no_digit_def split: list.splits)
  moreover obtain c cs where c: "decimal n = c # cs" by (cases "decimal n") auto
  moreover have "undecimal (c # cs) = n" using undecimal_decimal [of n] unfolding c .
  ultimately show ?thesis by (simp add: read_digits_def)
qed

lemma read_string_quoted:
  assumes "list_all plain_char t"
  shows "read_string (t @ CHR 0x22 # rest) = Some (t, rest)"
proof -
  have "\<And>c. c \<in> set t \<Longrightarrow> c \<noteq> CHR 0x22" using assms by (auto simp: list_all_iff plain_char_def)
  then have "takeWhile (\<lambda>c. c \<noteq> CHR 0x22) (t @ CHR 0x22 # rest) = t"
    "dropWhile (\<lambda>c. c \<noteq> CHR 0x22) (t @ CHR 0x22 # rest) = CHR 0x22 # rest"
    by (subst takeWhile_append2 dropWhile_append2; simp)+
  then show ?thesis by (simp add: read_string_def)
qed

lemma decimal_head: "decimal n = c # cs \<Longrightarrow> is_digit c"
  using decimal_digits [of n] by simp

lemma read_int:
  assumes "no_digit rest"
  shows "read_value (Suc n) (render_int i @ rest) = Some (JInt i, rest)"
proof (cases "i < 0")
  case True
  then show ?thesis
    using read_digits_decimal [OF assms] by (simp add: render_int_def read_atom_def)
next
  case False
  obtain c cs where c: "decimal (nat i) = c # cs" by (cases "decimal (nat i)") auto
  have "c \<notin> {CHR 0x22, CHR ''['', CHR ''{'', CHR ''n'', CHR ''t'', CHR ''f'', CHR ''-''}"
    using decimal_head [OF c] by (auto simp: is_digit_def)
  with c False read_digits_decimal [OF assms, of "nat i"] show ?thesis
    by (simp add: render_int_def read_atom_def)
qed

section \<open>The round trip\<close>

definition read_back :: "json \<Rightarrow> bool" where
  "read_back v \<longleftrightarrow> (\<forall>n rest. no_digit rest \<longrightarrow> 2 * length (render v) \<le> n \<longrightarrow> read_value n (render v @ rest) = Some (v, rest))"

lemma read_backD:
  "read_back v \<Longrightarrow> no_digit rest \<Longrightarrow> 2 * length (render v) \<le> n \<Longrightarrow> read_value n (render v @ rest) = Some (v, rest)"
  by (simp add: read_back_def)

lemma read_backI:
  assumes "\<And>n rest. no_digit rest \<Longrightarrow> 2 * length (render v) \<le> Suc n \<Longrightarrow> read_value (Suc n) (render v @ rest) = Some (v, rest)"
    and "render v \<noteq> []"
  shows "read_back v"
  unfolding read_back_def
proof (intro allI impI)
  fix n rest assume "no_digit rest" "2 * length (render v) \<le> n"
  then show "read_value n (render v @ rest) = Some (v, rest)" using assms by (cases n) auto
qed

lemma no_digit_punctuation [simp]:
  "no_digit []" "no_digit (CHR '','' # s)" "no_digit (CHR '']'' # s)" "no_digit (CHR ''}'' # s)"
  by (simp_all add: no_digit_def is_digit_def)

lemma read_elements_render:
  assumes "list_all read_back vs" "vs \<noteq> []" "2 * length (separated (map render vs)) < n"
  shows "read_elements n (separated (map render vs) @ CHR '']'' # rest) = Some (vs, rest)"
  using assms
proof (induction vs arbitrary: n rule: induct_list012)
  case (2 v)
  then obtain k where "n = Suc k" "2 * length (render v) \<le> k" by (cases n) auto
  with 2 show ?case by (simp add: read_backD)
next
  case (3 v w vs)
  then obtain k where k: "n = Suc k" "2 * length (render v) \<le> k"
    "2 * length (separated (map render (w # vs))) < k" by (cases n) auto
  then have "read_elements k (separated (map render (w # vs)) @ CHR '']'' # rest) = Some (w # vs, rest)"
    using 3 by simp
  with k 3 show ?case by (simp add: read_backD)
qed simp

definition render_member :: "string \<times> json \<Rightarrow> string" where
  "render_member = (\<lambda>(k, v). quoted k @ CHR '':'' # render v)"

lemma render_member_pair [simp]: "render_member (k, v) = CHR 0x22 # k @ CHR 0x22 # CHR '':'' # render v"
  by (simp add: render_member_def quoted_def)

lemma read_members_render:
  assumes "list_all (\<lambda>(k, v). list_all plain_char k \<and> read_back v) kvs" "kvs \<noteq> []"
    "2 * length (separated (map render_member kvs)) < n"
  shows "read_members n (separated (map render_member kvs) @ CHR ''}'' # rest) = Some (kvs, rest)"
  using assms
proof (induction kvs arbitrary: n rule: induct_list012)
  case (2 kv)
  obtain key v where kv: "kv = (key, v)" by fastforce
  with 2 obtain k where "n = Suc k" "2 * length (render v) \<le> k" by (cases n) auto
  with 2 kv show ?case by (simp add: read_backD read_string_quoted)
next
  case (3 kv kw kvs)
  obtain key v where kv: "kv = (key, v)" by fastforce
  with 3 obtain k where k: "n = Suc k" "2 * length (render v) \<le> k"
    "2 * length (separated (map render_member (kw # kvs))) < k" by (cases n) auto
  then have "read_members k (separated (map render_member (kw # kvs)) @ CHR ''}'' # rest) = Some (kw # kvs, rest)"
    using 3 by simp
  with k 3 kv show ?case
    by (simp add: read_backD read_string_quoted)
qed simp

lemma render_not_Nil: "plain v \<Longrightarrow> render v \<noteq> []"
  by (cases v) (auto simp: render_int_def quoted_def)

text \<open>No value is written with a closing bracket in front, so a non-empty array does not look empty.\<close>

lemma render_head: "plain v \<Longrightarrow> render v = c # cs \<Longrightarrow> c \<noteq> CHR '']''"
  by (cases v) (auto simp: render_int_def quoted_def is_digit_def dest: decimal_head split: if_splits)

lemma array_read_back:
  assumes "list_all plain vs" "list_all read_back vs"
  shows "read_back (JArr vs)"
proof (rule read_backI)
  fix n rest assume n: "2 * length (render (JArr vs)) \<le> Suc n"
  show "read_value (Suc n) (render (JArr vs) @ rest) = Some (JArr vs, rest)"
  proof (cases vs)
    case (Cons v ws)
    obtain c cs where c: "render v = c # cs" using assms(1) Cons render_not_Nil [of v] by (cases "render v") auto
    have "c \<noteq> CHR '']''" using assms(1) Cons by (intro render_head [OF _ c]) simp
    then have "take 2 (render (JArr vs) @ rest) \<noteq> ''[]''" using Cons c by (cases ws) auto
    with n Cons read_elements_render [OF assms(2), of n rest] show ?thesis by simp
  qed simp
qed simp

lemma object_read_back:
  assumes "list_all (\<lambda>(k, v). list_all plain_char k \<and> read_back v) kvs"
  shows "read_back (JObj kvs)"
proof (rule read_backI)
  have render: "render (JObj kvs) = CHR ''{'' # separated (map render_member kvs) @ ''}''"
    by (simp add: render_member_def)
  fix n rest assume n: "2 * length (render (JObj kvs)) \<le> Suc n"
  show "read_value (Suc n) (render (JObj kvs) @ rest) = Some (JObj kvs, rest)"
  proof (cases kvs)
    case (Cons kv kws)
    have "take 2 (render (JObj kvs) @ rest) \<noteq> ''{}''"
      unfolding render using Cons by (cases kws; cases kv) simp_all
    with n Cons read_members_render [OF assms, of n rest] show ?thesis unfolding render by simp
  qed simp
qed simp

lemma plain_read_back: "plain v \<Longrightarrow> read_back v"
proof (induction v)
  case (JArr vs)
  then show ?case by (intro array_read_back) (simp_all add: list_all_iff)
next
  case (JObj kvs)
  then show ?case by (intro object_read_back) (fastforce simp: list_all_iff)
next
  case (JInt i)
  show ?case by (intro read_backI) (use read_int render_not_Nil [of "JInt i"] in \<open>simp_all del: read_value.simps\<close>)
next
  case (JStr t)
  then show ?case by (intro read_backI) (simp_all add: quoted_def read_string_quoted)
qed (auto intro!: read_backI simp: read_atom_def split: if_splits)

interpretation json_codec: codec render read_json plain
proof unfold_locales
  fix v assume "plain v"
  then have "read_value (2 * length (render v)) (render v @ []) = Some (v, [])"
    by (intro read_backD plain_read_back) simp_all
  then show "read_json (render v) = Some v" by (simp add: read_json_def)
qed

end
