(* ===== verification/Host_Rpc.thy ===== *)
theory Host_Rpc
  imports Host_Raw Protocol Json_Reader
begin

text \<open>
  The host's JSON-RPC client (\<open>src/host/src/main.rs\<close>): \<open>controller_request\<close> sends one
  numbered request on the controller WebSocket and waits for the response with that number, answering
  pings and discarding stale responses on the way. \<open>serde_json\<close> is a parameter, a record of
  the four conversions the host uses. The lemmas say which message a result comes from, that a
  response which is there in time is found, and how long a request can take.
\<close>

section \<open>Definitions\<close>

text \<open>Times in milliseconds.\<close>

definition HOST_SERVO_TIMEOUT :: nat where "HOST_SERVO_TIMEOUT = 750"
definition SERVO_SCAN_TIMEOUT :: nat where "SERVO_SCAN_TIMEOUT = 20000"
definition MAX_STALE_CONTROLLER_RESPONSES :: nat where "MAX_STALE_CONTROLLER_RESPONSES = 32"

record ControllerJsonRpcError =
  je_code :: int
  je_message :: string

record ControllerJsonRpcResponse =
  jr_jsonrpc :: string
  jr_id :: "u32 option"
  jr_result :: "json option"
  jr_error :: "ControllerJsonRpcError option"

text \<open>The conversions of \<open>serde_json\<close>; a failure carries the text of its error.\<close>

record serde =
  sd_to_string :: "json \<Rightarrow> string + string"
  sd_response :: "string \<Rightarrow> string + ControllerJsonRpcResponse"
  sd_position :: "json \<Rightarrow> string + host_position"
  sd_scan :: "json \<Rightarrow> string + u8 list"

text \<open>An object built with \<open>json!\<close> is a sorted map, so its fields are in the order of their names.\<close>

definition request_json :: "u32 \<Rightarrow> string \<Rightarrow> json \<Rightarrow> json" where
  "request_json rid method params =
     JObj [(''id'', JInt (uint rid)), (''jsonrpc'', JStr ''2.0''), (''method'', JStr method), (''params'', params)]"

text \<open>\<open>timeout(d, websocket.next())\<close>: the next message if it is there within \<open>d\<close>.\<close>

definition ws_next :: "nat \<Rightarrow> ws_stream \<Rightarrow> ws_incoming option \<times> ws_stream" where
  "ws_next d s = (case ws_in s of
       [] \<Rightarrow> (None, s\<lparr>ws_waited := ws_waited s + d\<rparr>)
     | (t, m) # rest \<Rightarrow>
         if t \<le> d then (Some m, s\<lparr>ws_in := rest, ws_waited := ws_waited s + t\<rparr>)
         else (None, s\<lparr>ws_in := (t - d, m) # rest, ws_waited := ws_waited s + d\<rparr>))"

definition ws_sent :: "ws_outgoing \<Rightarrow> ws_stream \<Rightarrow> ws_stream" where
  "ws_sent m s = s\<lparr>ws_outcomes := tl (ws_outcomes s), ws_out := ws_out s @ [m]\<rparr>"

definition send_command :: "string \<Rightarrow> (ws_stream, string, unit) action" where
  "send_command msg s = (case ws_outcomes s of
       TcpElapsed # _ \<Rightarrow> (Inl ''Timed out sending a JSON-RPC command to the MCU'', ws_sent (SentText msg) s)
     | TcpFailed d # _ \<Rightarrow> (Inl (''Could not send a JSON-RPC command to the MCU: '' @ d), ws_sent (SentText msg) s)
     | _ \<Rightarrow> (Inr (), ws_sent (SentText msg) s))"

text \<open>A pong has no deadline of its own: a slow send completes late.\<close>

definition answer_ping :: "u8 list \<Rightarrow> (ws_stream, string, unit) action" where
  "answer_ping payload s = (case ws_outcomes s of
       TcpFailed d # _ \<Rightarrow> (Inl (''Could not answer MCU WebSocket ping: '' @ d), ws_sent (SentPong payload) s)
     | _ \<Rightarrow> (Inr (), ws_sent (SentPong payload) s))"

definition response_outcome :: "ControllerJsonRpcResponse \<Rightarrow> string + json" where
  "response_outcome response = (case (jr_result response, jr_error response) of
       (Some result, None) \<Rightarrow> Inr result
     | (None, Some error) \<Rightarrow>
         Inl (''MCU JSON-RPC error '' @ render_int (je_code error) @ '': '' @ je_message error)
     | _ \<Rightarrow> Inl ''MCU returned an invalid JSON-RPC result/error combination'')"

fun response_loop :: "serde \<Rightarrow> u32 \<Rightarrow> nat \<Rightarrow> nat \<Rightarrow> (ws_stream, string, json) action" where
  "response_loop sd rid d 0 s = (Inl ''MCU sent too many stale JSON-RPC responses'', s)"
| "response_loop sd rid d (Suc n) s = (case ws_next d s of
       (None, s) \<Rightarrow> (Inl ''Timed out waiting for an MCU JSON-RPC response'', s)
     | (Some WsEnd, s) \<Rightarrow> (Inl ''MCU closed the JSON-RPC WebSocket'', s)
     | (Some (WsFailed e), s) \<Rightarrow> (Inl (''Could not read an MCU JSON-RPC response: '' @ e), s)
     | (Some (WsText msg), s) \<Rightarrow>
         (case sd_response sd msg of
            Inl e \<Rightarrow> (Inl (''MCU sent invalid JSON-RPC: '' @ e), s)
          | Inr response \<Rightarrow>
              if jr_jsonrpc response \<noteq> ''2.0''
              then (Inl ''MCU sent a JSON-RPC response with an unsupported version'', s)
              else if jr_id response \<noteq> Some rid then response_loop sd rid d n s
              else (response_outcome response, s))
     | (Some (WsPing payload), s) \<Rightarrow> try_then (answer_ping payload) (\<lambda>_. response_loop sd rid d n) s
     | (Some (WsPong _), s) \<Rightarrow> response_loop sd rid d n s
     | (Some WsClose, s) \<Rightarrow> (Inl ''MCU closed the JSON-RPC WebSocket'', s)
     | (Some (WsBinary _), s) \<Rightarrow> (Inl ''MCU sent an unsupported WebSocket message'', s)
     | (Some (WsFrame _), s) \<Rightarrow> (Inl ''MCU sent an unsupported WebSocket message'', s))"

definition controller_request_with_timeout :: "serde \<Rightarrow> string \<Rightarrow> json \<Rightarrow> nat \<Rightarrow> json bridge_action" where
  "controller_request_with_timeout sd method params response_timeout c =
     (let request_id = bc_next_request_id c; c = c\<lparr>bc_next_request_id := request_id + 1\<rparr> in
      case sd_to_string sd (request_json request_id method params) of
        Inl e \<Rightarrow> (Inl (''Could not encode JSON-RPC request: '' @ e), c)
      | Inr request \<Rightarrow>
          (case bc_transport c of
             DebugRaw _ \<Rightarrow> (Inl ''the MCU connection is in debug raw-tunnel mode'', c)
           | Controller websocket \<Rightarrow>
               (case try_then (send_command request)
                   (\<lambda>_. response_loop sd request_id response_timeout MAX_STALE_CONTROLLER_RESPONSES) websocket of
                  (r, websocket') \<Rightarrow> (r, c\<lparr>bc_transport := Controller websocket'\<rparr>))))"

definition controller_request :: "serde \<Rightarrow> string \<Rightarrow> json \<Rightarrow> json bridge_action" where
  "controller_request sd method params = controller_request_with_timeout sd method params HOST_SERVO_TIMEOUT"

text \<open>\<open>Value::get\<close>, \<open>as_bool\<close> and \<open>as_u64\<close>; the keys of a parsed object are distinct.\<close>

definition json_get :: "json \<Rightarrow> string \<Rightarrow> json option" where
  "json_get v key = (case v of JObj kvs \<Rightarrow> map_of kvs key | _ \<Rightarrow> None)"

definition as_bool :: "json \<Rightarrow> bool option" where
  "as_bool v = (case v of JBool b \<Rightarrow> Some b | _ \<Rightarrow> None)"

definition as_u64 :: "json \<Rightarrow> nat option" where
  "as_u64 v = (case v of JInt i \<Rightarrow> if 0 \<le> i \<and> i < 2 ^ 64 then Some (nat i) else None | _ \<Rightarrow> None)"

definition expect_controller_ready :: "json \<Rightarrow> string + unit" where
  "expect_controller_ready result =
     (if Option.bind (json_get result ''ready'') as_bool = Some True then Inr ()
      else Inl ''MCU returned an unexpected result to system.ping'')"

definition expect_controller_accepted :: "json \<Rightarrow> string + unit" where
  "expect_controller_accepted result =
     (if Option.bind (json_get result ''accepted'') as_bool = Some True then Inr ()
      else Inl ''MCU rejected the controller command without an accepted result'')"

section \<open>What a request reads\<close>

text \<open>Messages the loop passes over while it waits for the response to request \<open>rid\<close>, the
  pongs it sends for them, and the time it waits.\<close>

definition passed_over :: "serde \<Rightarrow> u32 \<Rightarrow> nat \<Rightarrow> nat \<times> ws_incoming \<Rightarrow> bool" where
  "passed_over sd rid d = (\<lambda>(t, m). t \<le> d \<and> (case m of
       WsPing _ \<Rightarrow> True
     | WsPong _ \<Rightarrow> True
     | WsText msg \<Rightarrow> (case sd_response sd msg of
           Inr response \<Rightarrow> jr_jsonrpc response = ''2.0'' \<and> jr_id response \<noteq> Some rid
         | Inl _ \<Rightarrow> False)
     | _ \<Rightarrow> False))"

fun pongs :: "(nat \<times> ws_incoming) list \<Rightarrow> ws_outgoing list" where
  "pongs [] = []"
| "pongs ((_, WsPing payload) # ms) = SentPong payload # pongs ms"
| "pongs (_ # ms) = pongs ms"

definition answers :: "serde \<Rightarrow> u32 \<Rightarrow> ws_incoming \<Rightarrow> ControllerJsonRpcResponse \<Rightarrow> bool" where
  "answers sd rid m response \<longleftrightarrow> (\<exists>msg. m = WsText msg \<and> sd_response sd msg = Inr response \<and>
     jr_jsonrpc response = ''2.0'' \<and> jr_id response = Some rid)"

definition sends_ok :: "ws_stream \<Rightarrow> bool" where
  "sends_ok s \<longleftrightarrow> set (ws_outcomes s) \<subseteq> {TcpSent}"

lemma ws_next_ok: "ws_in s = (t, m) # rest \<Longrightarrow> t \<le> d \<Longrightarrow>
    ws_next d s = (Some m, s\<lparr>ws_in := rest, ws_waited := ws_waited s + t\<rparr>)"
  by (simp add: ws_next_def)

lemma ws_next_someD:
  assumes "ws_next d s = (Some m, s')"
  obtains t rest where "ws_in s = (t, m) # rest" "t \<le> d" "s' = s\<lparr>ws_in := rest, ws_waited := ws_waited s + t\<rparr>"
  using assms by (auto simp: ws_next_def split: list.splits prod.splits if_splits)

lemma answer_ping_effect:
  assumes "answer_ping payload s = (r, s')"
  shows "ws_in s' = ws_in s" "ws_waited s' = ws_waited s" "ws_out s' = ws_out s @ [SentPong payload]"
    and "sends_ok s \<Longrightarrow> r = Inr () \<and> sends_ok s'"
  using assms
  by (auto simp: answer_ping_def ws_sent_def sends_ok_def split: list.splits tcp_outcome.splits
      dest: list.set_sel(2))

text \<open>A round of the loop that takes a message, and what it does with a message that is passed over or
  that answers the request.\<close>

lemma response_loop_takes:
  assumes "ws_in s = (t, m) # rest" "t \<le> d"
  shows "response_loop sd rid d (Suc n) s = (let s1 = s\<lparr>ws_in := rest, ws_waited := ws_waited s + t\<rparr> in
    if passed_over sd rid d (t, m)
    then (case m of WsPing payload \<Rightarrow> try_then (answer_ping payload) (\<lambda>_. response_loop sd rid d n) s1
          | _ \<Rightarrow> response_loop sd rid d n s1)
    else (fst (response_loop sd rid d (Suc n) s), s1))"
  using assms by (cases m) (auto simp: ws_next_ok passed_over_def Let_def split: sum.splits)

lemma response_loop_passes:
  assumes "ws_in s = (t, m) # rest" "passed_over sd rid d (t, m)"
  obtains (next_round) s' where "response_loop sd rid d (Suc n) s = response_loop sd rid d n s'" "ws_in s' = rest"
      "ws_waited s' = ws_waited s + t" "ws_out s' = ws_out s @ pongs [(t, m)]" "sends_ok s \<Longrightarrow> sends_ok s'"
  | (unanswered) e s' where "response_loop sd rid d (Suc n) s = (Inl e, s')" "ws_in s' = rest"
      "ws_waited s' = ws_waited s + t" "\<not> sends_ok s" "\<exists>payload s1. answer_ping payload s1 = (Inl e, s')"
proof -
  let ?s = "s\<lparr>ws_in := rest, ws_waited := ws_waited s + t\<rparr>"
  have t: "t \<le> d" using assms(2) by (simp add: passed_over_def)
  note takes = response_loop_takes [OF assms(1) t, of sd rid n]
  show ?thesis
  proof (cases "\<exists>payload. m = WsPing payload")
    case True
    then obtain payload where m: "m = WsPing payload" by blast
    obtain r s2 where ping: "answer_ping payload ?s = (r, s2)" by fastforce
    have ok: "sends_ok ?s = sends_ok s" by (simp add: sends_ok_def)
    show ?thesis
    proof (cases r)
      case (Inl e)
      then show ?thesis
        by (intro unanswered [of e s2])
           (use takes assms(2) m ping answer_ping_effect [OF ping] ok in \<open>auto simp: Let_def simp del: response_loop.simps\<close>)
    next
      case (Inr u)
      then show ?thesis
        by (intro next_round [of s2])
           (use takes assms(2) m ping answer_ping_effect [OF ping] ok in \<open>auto simp: Let_def simp del: response_loop.simps\<close>)
    qed
  next
    case False
    then have "pongs [(t, m)] = []" by (cases m) auto
    with takes assms(2) False show ?thesis
      by (intro next_round [of ?s]) (cases m; simp add: sends_ok_def)+
  qed
qed

lemma response_loop_answers:
  assumes "ws_in s = (t, m) # rest" "t \<le> d" "answers sd rid m response"
  shows "response_loop sd rid d (Suc n) s =
    (response_outcome response, s\<lparr>ws_in := rest, ws_waited := ws_waited s + t\<rparr>)"
  using assms by (auto simp: ws_next_ok answers_def)

text \<open>A round that neither passes over a message nor finds the answer fails.\<close>

lemma response_loop_fails:
  assumes "\<And>t m rest. ws_in s = (t, m) # rest \<Longrightarrow> t \<le> d \<Longrightarrow>
      \<not> passed_over sd rid d (t, m) \<and> (\<forall>response. \<not> answers sd rid m response)"
  shows "\<exists>e. fst (response_loop sd rid d (Suc n) s) = Inl e"
proof (cases "ws_next d s")
  case (Pair r s1)
  show ?thesis
  proof (cases r)
    case (Some m)
    with Pair obtain t rest where "ws_in s = (t, m) # rest" "t \<le> d"
      by (auto elim: ws_next_someD)
    with assms Pair Some show ?thesis
      by (cases m) (auto simp: passed_over_def answers_def split: sum.splits)
  qed (use Pair in simp)
qed

lemma response_loop_okD:
  assumes "response_loop sd rid d n s = (Inr v, s')"
  shows "\<exists>skipped t m rest response. ws_in s = skipped @ (t, m) # rest \<and> length skipped < n \<and>
    list_all (passed_over sd rid d) skipped \<and> t \<le> d \<and> answers sd rid m response \<and>
    response_outcome response = Inr v \<and> ws_in s' = rest \<and> ws_out s' = ws_out s @ pongs skipped"
  using assms
proof (induction n arbitrary: s)
  case (Suc n)
  have "\<exists>t m rest. ws_in s = (t, m) # rest \<and> t \<le> d \<and>
      (passed_over sd rid d (t, m) \<or> (\<exists>response. answers sd rid m response))"
    using response_loop_fails [of s d sd rid n] Suc.prems by fastforce
  then obtain t m rest where m: "ws_in s = (t, m) # rest" "t \<le> d"
    and or: "passed_over sd rid d (t, m) \<or> (\<exists>response. answers sd rid m response)" by blast
  show ?case
  proof (cases "passed_over sd rid d (t, m)")
    case True
    with m(1) show ?thesis
    proof (cases rule: response_loop_passes [where n = n])
      case (next_round s1)
      with Suc obtain skipped t' m' rest' response where "rest = skipped @ (t', m') # rest'" "length skipped < n"
        "list_all (passed_over sd rid d) skipped" "t' \<le> d" "answers sd rid m' response"
        "response_outcome response = Inr v" "ws_in s' = rest'" "ws_out s' = ws_out s1 @ pongs skipped"
        by metis
      with m True next_round(4) show ?thesis
        by (intro exI [of _ "(t, m) # skipped"] exI) (cases m; auto)
    qed (use Suc.prems in simp)
  next
    case False
    with or obtain response where "answers sd rid m response" by blast
    with response_loop_answers [OF m this, of n] Suc.prems m show ?thesis
      by (intro exI [of _ "[]"] exI) auto
  qed
qed simp

lemma response_loop_finds:
  assumes "ws_in s = skipped @ (t, m) # rest" "length skipped < n" "list_all (passed_over sd rid d) skipped"
    and "t \<le> d" "answers sd rid m response" "sends_ok s"
  shows "\<exists>s'. response_loop sd rid d n s = (response_outcome response, s') \<and> ws_in s' = rest"
  using assms
proof (induction skipped arbitrary: n s)
  case Nil
  then show ?case using response_loop_answers [of s t m rest d sd rid response] by (cases n) auto
next
  case (Cons x skipped)
  then obtain k where k: "n = Suc k" by (cases n) auto
  have "ws_in s = (fst x, snd x) # skipped @ (t, m) # rest" "passed_over sd rid d (fst x, snd x)"
    using Cons.prems by simp_all
  then show ?case
    by (cases rule: response_loop_passes [where n = k]) (use Cons k in auto)
qed

lemma response_loop_bounded:
  assumes "response_loop sd rid d n s = (r, s')"
  shows "ws_waited s' \<le> ws_waited s + n * d \<and> length (ws_in s) \<le> length (ws_in s') + n"
  using assms
proof (induction n arbitrary: s)
  case (Suc n)
  show ?case
  proof (cases "ws_next d s")
    case (Pair x s1)
    show ?thesis
    proof (cases x)
      case None
      with Pair Suc.prems show ?thesis by (auto simp: ws_next_def split: list.splits if_splits)
    next
      case (Some m)
      with Pair obtain t rest where t: "ws_in s = (t, m) # rest" "t \<le> d" by (auto elim: ws_next_someD)
      show ?thesis
      proof (cases "passed_over sd rid d (t, m)")
        case True
        with t(1) show ?thesis
          by (cases rule: response_loop_passes [where n = n]) (use Suc t in \<open>fastforce simp: algebra_simps\<close>)+
      next
        case False
        with response_loop_takes [OF t, of sd rid n] Suc.prems t show ?thesis by (auto simp: Let_def)
      qed
    qed
  qed
qed simp

section \<open>What the host relies on of serde_json\<close>

text \<open>The fields of the derived deserializers: a field of option type may be absent or null, unknown
  fields are ignored.\<close>

definition read_str :: "json \<Rightarrow> string option" where
  "read_str v = (case v of JStr t \<Rightarrow> Some t | _ \<Rightarrow> None)"

definition read_int_in :: "int \<Rightarrow> int \<Rightarrow> json \<Rightarrow> int option" where
  "read_int_in lo hi v = (case v of JInt i \<Rightarrow> if lo \<le> i \<and> i < hi then Some i else None | _ \<Rightarrow> None)"

definition read_u8 :: "json \<Rightarrow> u8 option" where
  "read_u8 v = map_option word_of_int (read_int_in 0 (2 ^ 8) v)"

definition read_u16 :: "json \<Rightarrow> u16 option" where
  "read_u16 v = map_option word_of_int (read_int_in 0 (2 ^ 16) v)"

definition read_u32 :: "json \<Rightarrow> u32 option" where
  "read_u32 v = map_option word_of_int (read_int_in 0 (2 ^ 32) v)"

lemma read_words [simp]:
  "read_u8 (JInt (uint b)) = Some b" "read_u16 (JInt (uint h)) = Some h" "read_u32 (JInt (uint w)) = Some w"
  using uint_lt2p [of b] uint_lt2p [of h] uint_lt2p [of w]
  by (simp_all add: read_u8_def read_u16_def read_u32_def read_int_in_def)

definition optional_field :: "(json \<Rightarrow> 'a option) \<Rightarrow> json option \<Rightarrow> 'a option option" where
  "optional_field rd x = (case x of None \<Rightarrow> Some None | Some JNull \<Rightarrow> Some None | Some v \<Rightarrow> map_option Some (rd v))"

fun all_somes :: "'a option list \<Rightarrow> 'a list option" where
  "all_somes [] = Some []"
| "all_somes (x # xs) = Option.bind x (\<lambda>a. map_option ((#) a) (all_somes xs))"

definition decode_error :: "json \<Rightarrow> ControllerJsonRpcError option" where
  "decode_error v =
     Option.bind (Option.bind (json_get v ''code'') (read_int_in (- (2 ^ 31)) (2 ^ 31))) (\<lambda>code.
     Option.bind (Option.bind (json_get v ''message'') read_str) (\<lambda>message.
       Some \<lparr>je_code = code, je_message = message\<rparr>))"

definition decode_response :: "json \<Rightarrow> ControllerJsonRpcResponse option" where
  "decode_response v =
     Option.bind (Option.bind (json_get v ''jsonrpc'') read_str) (\<lambda>jsonrpc.
     Option.bind (optional_field (read_int_in 0 (2 ^ 32)) (json_get v ''id'')) (\<lambda>rid.
     Option.bind (optional_field Some (json_get v ''result'')) (\<lambda>result.
     Option.bind (optional_field decode_error (json_get v ''error'')) (\<lambda>error.
       Some \<lparr>jr_jsonrpc = jsonrpc, jr_id = map_option word_of_int rid, jr_result = result, jr_error = error\<rparr>))))"

definition decode_position :: "json \<Rightarrow> host_position option" where
  "decode_position v =
     Option.bind (Option.bind (json_get v ''id'') (read_int_in 0 (2 ^ 8))) (\<lambda>sid.
     Option.bind (Option.bind (json_get v ''position'') (read_int_in (- (2 ^ 15)) (2 ^ 15))) (\<lambda>position.
       Some \<lparr>hp_id = word_of_int sid, hp_position = word_of_int position\<rparr>))"

definition decode_scan :: "json \<Rightarrow> u8 list option" where
  "decode_scan v = Option.bind (json_get v ''ids'') (\<lambda>ids. case ids of
     JArr vs \<Rightarrow> map_option (map word_of_int) (all_somes (map (read_int_in 0 (2 ^ 8)) vs)) | _ \<Rightarrow> None)"

definition faithful_serde :: "serde \<Rightarrow> bool" where
  "faithful_serde sd \<longleftrightarrow>
     (\<forall>v. plain v \<longrightarrow> sd_to_string sd v = Inr (render v)) \<and>
     (\<forall>v response. plain v \<longrightarrow> decode_response v = Some response \<longrightarrow> sd_response sd (render v) = Inr response) \<and>
     (\<forall>v position. decode_position v = Some position \<longrightarrow> sd_position sd v = Inr position) \<and>
     (\<forall>v ids. decode_scan v = Some ids \<longrightarrow> sd_scan sd v = Inr ids)"

definition or_error :: "'a option \<Rightarrow> string + 'a" where
  "or_error x = (case x of Some a \<Rightarrow> Inr a | None \<Rightarrow> Inl ''invalid value'')"

definition reference_serde :: serde where
  "reference_serde = \<lparr>sd_to_string = (\<lambda>v. Inr (render v)),
     sd_response = (\<lambda>msg. or_error (Option.bind (read_json msg) decode_response)),
     sd_position = (\<lambda>v. or_error (decode_position v)), sd_scan = (\<lambda>v. or_error (decode_scan v))\<rparr>"

lemma faithful_reference: "faithful_serde reference_serde"
  by (simp add: faithful_serde_def reference_serde_def or_error_def json_codec.decode_encode)

lemma reference_to_string: "sd_to_string reference_serde v = Inr (render v)"
  by (simp add: reference_serde_def)

section \<open>Properties\<close>

definition ws_of :: "BridgeConnection \<Rightarrow> ws_stream option" where
  "ws_of c = (case bc_transport c of Controller s \<Rightarrow> Some s | DebugRaw _ \<Rightarrow> None)"

definition waited_ms :: "BridgeConnection \<Rightarrow> nat" where
  "waited_ms c = (case ws_of c of Some s \<Rightarrow> ws_waited s | None \<Rightarrow> 0)"

lemma send_command_effect:
  assumes "send_command msg s = (r, s')"
  shows "ws_in s' = ws_in s" "ws_waited s' = ws_waited s" "ws_out s' = ws_out s @ [SentText msg]"
    and "sends_ok s \<Longrightarrow> r = Inr () \<and> sends_ok s'"
  using assms
  by (auto simp: send_command_def ws_sent_def sends_ok_def split: list.splits tcp_outcome.splits
      dest: list.set_sel(2))

lemma controller_request_cases:
  obtains (unsent) e where "controller_request_with_timeout sd method params d c =
      (Inl e, c\<lparr>bc_next_request_id := bc_next_request_id c + 1\<rparr>)"
  | (sent) s request r s' where "ws_of c = Some s"
      "sd_to_string sd (request_json (bc_next_request_id c) method params) = Inr request"
      "try_then (send_command request) (\<lambda>_. response_loop sd (bc_next_request_id c) d MAX_STALE_CONTROLLER_RESPONSES) s = (r, s')"
      "controller_request_with_timeout sd method params d c =
        (r, c\<lparr>bc_next_request_id := bc_next_request_id c + 1, bc_transport := Controller s'\<rparr>)"
proof (cases "sd_to_string sd (request_json (bc_next_request_id c) method params)")
  case (Inl e)
  then show ?thesis by (intro unsent) (simp add: controller_request_with_timeout_def)
next
  case (Inr request)
  show ?thesis
  proof (cases "bc_transport c")
    case (Controller s)
    then show ?thesis
      by (intro sent [of s request "fst (try_then (send_command request) (\<lambda>_. response_loop sd
            (bc_next_request_id c) d MAX_STALE_CONTROLLER_RESPONSES) s)" "snd (try_then (send_command request)
            (\<lambda>_. response_loop sd (bc_next_request_id c) d MAX_STALE_CONTROLLER_RESPONSES) s)"])
         (use Inr in \<open>simp_all add: ws_of_def controller_request_with_timeout_def Let_def case_prod_beta\<close>)
  next
    case (DebugRaw s)
    with Inr show ?thesis by (intro unsent) (simp add: controller_request_with_timeout_def)
  qed
qed

text \<open>The response to a request is found behind messages that are passed over.\<close>

lemma controller_request_finds:
  assumes "ws_of c = Some s" "sends_ok s"
    and "sd_to_string sd (request_json (bc_next_request_id c) method params) = Inr request"
    and "ws_in s = skipped @ (t, m) # rest" "length skipped < 32"
    and "list_all (passed_over sd (bc_next_request_id c) d) skipped" "t \<le> d"
    and "answers sd (bc_next_request_id c) m response"
  shows "fst (controller_request_with_timeout sd method params d c) = response_outcome response"
proof -
  obtain s1 where s1: "send_command request s = (Inr (), s1)" "ws_in s1 = ws_in s" "sends_ok s1"
    using send_command_effect [of request s] assms(2) by (metis prod.exhaust)
  have "\<exists>s'. response_loop sd (bc_next_request_id c) d MAX_STALE_CONTROLLER_RESPONSES s1 =
      (response_outcome response, s') \<and> ws_in s' = rest"
    by (rule response_loop_finds [OF _ _ assms(6-8) s1(3)])
       (use s1(2) assms(4,5) in \<open>simp_all add: MAX_STALE_CONTROLLER_RESPONSES_def\<close>)
  with s1(1) assms(1,3) show ?thesis
    by (cases rule: controller_request_cases [of sd "method" params d c])
       (auto simp: controller_request_with_timeout_def ws_of_def split: BridgeTransport.splits)
qed

text \<open>A connection on which a ping, the late response to request 6 and the response to request 7 arrive.\<close>

definition ready_response :: "u32 \<Rightarrow> string" where
  "ready_response rid = render (JObj [(''jsonrpc'', JStr ''2.0''), (''result'', JObj [(''ready'', JBool True)]),
     (''id'', JInt (uint rid))])"

definition sample_ws :: ws_stream where
  "sample_ws = \<lparr>ws_in = [(5, WsPing [1]), (10, WsText (ready_response 6)), (20, WsText (ready_response 7)), (1, WsClose)],
     ws_outcomes = [], ws_out = [], ws_waited = 0\<rparr>"

definition sample_connection :: BridgeConnection where
  "sample_connection = \<lparr>bc_peer = ''mcu:3333'', bc_transport = Controller sample_ws, bc_next_request_id = 7\<rparr>"

lemma ready_response_read:
  "sd_response reference_serde (ready_response rid) =
     Inr \<lparr>jr_jsonrpc = ''2.0'', jr_id = Some rid, jr_result = Some (JObj [(''ready'', JBool True)]), jr_error = None\<rparr>"
proof -
  have "uint rid < 2 ^ 32" using uint_lt2p [of rid] by simp
  then show ?thesis
    unfolding ready_response_def reference_serde_def
    by (simp add: json_codec.decode_encode plain_char_def or_error_def decode_response_def
        json_get_def read_str_def read_int_in_def optional_field_def del: render.simps)
qed

lemma sample_request:
  "fst (controller_request_with_timeout reference_serde ''system.ping'' (JObj []) 750 sample_connection) =
     Inr (JObj [(''ready'', JBool True)])"
  by code_simp

text \<open>C5. A result belongs to its request: when a request returns a value, exactly one text message was sent,
  the encoded request with the connection's next number, and the value is the result of a well-formed
  JSON-RPC 2.0 response with that number and no error. Everything read before it is a ping, a pong or
  a response with another number, fewer than 32 such messages; the pings were answered in order and
  what follows the response is left unread.\<close>
theorem response_correlated:
  assumes "controller_request_with_timeout sd method params d c = (Inr v, c')"
  shows "\<exists>s s' request skipped t m rest response.
    ws_of c = Some s \<and> ws_of c' = Some s' \<and>
    sd_to_string sd (request_json (bc_next_request_id c) method params) = Inr request \<and>
    ws_in s = skipped @ (t, m) # rest \<and> ws_in s' = rest \<and> length skipped < 32 \<and>
    list_all (passed_over sd (bc_next_request_id c) d) skipped \<and> t \<le> d \<and>
    answers sd (bc_next_request_id c) m response \<and> jr_result response = Some v \<and> jr_error response = None \<and>
    ws_out s' = ws_out s @ SentText request # pongs skipped"
proof (cases rule: controller_request_cases [of sd "method" params d c])
  case (sent s request r s')
  with assms have c': "ws_of c' = Some s'" "r = Inr v" by (auto simp: ws_of_def)
  with sent(3) obtain s1 where s1: "send_command request s = (Inr (), s1)"
    "response_loop sd (bc_next_request_id c) d MAX_STALE_CONTROLLER_RESPONSES s1 = (Inr v, s')"
    by (cases rule: try_then_cases [of "send_command request" s]) auto
  have outcome: "jr_result response = Some v \<and> jr_error response = None" if "response_outcome response = Inr v" for response
    using that by (auto simp: response_outcome_def split: option.splits)
  obtain skipped t m rest response where read: "ws_in s1 = skipped @ (t, m) # rest"
    "length skipped < MAX_STALE_CONTROLLER_RESPONSES" "list_all (passed_over sd (bc_next_request_id c) d) skipped" "t \<le> d"
    "answers sd (bc_next_request_id c) m response" "response_outcome response = Inr v" "ws_in s' = rest"
    "ws_out s' = ws_out s1 @ pongs skipped"
    using response_loop_okD [OF s1(2)] by blast
  show ?thesis
    by (intro exI [of _ s] exI [of _ s'] exI [of _ request] exI [of _ skipped] exI [of _ t] exI [of _ m]
        exI [of _ rest] exI [of _ response])
       (use sent(1,2) c' read outcome send_command_effect [OF s1(1)] in \<open>simp add: MAX_STALE_CONTROLLER_RESPONSES_def\<close>)
qed (use assms in simp)

theorem response_correlated_witness:
  "\<exists>skipped t m rest response. ws_in sample_ws = skipped @ (t, m) # rest \<and>
     list_all (passed_over reference_serde 7 750) skipped \<and> answers reference_serde 7 m response \<and>
     jr_result response = Some (JObj [(''ready'', JBool True)])"
proof -
  obtain c' where "controller_request_with_timeout reference_serde ''system.ping'' (JObj []) 750 sample_connection =
      (Inr (JObj [(''ready'', JBool True)]), c')"
    using sample_request by (metis prod.collapse)
  from response_correlated [OF this] show ?thesis
    by (auto simp: ws_of_def sample_connection_def)
qed

text \<open>A response that is there in time is found: if the connection's sends succeed and the response to the
  request arrives, each message within the timeout of the one before, after fewer than 32 pings, pongs and
  stale responses, then the request returns the outcome of that response.\<close>
theorem response_found:
  assumes "ws_of c = Some s" "sends_ok s"
    and "sd_to_string sd (request_json (bc_next_request_id c) method params) = Inr request"
    and "ws_in s = skipped @ (t, m) # rest" "length skipped < 32"
    and "list_all (passed_over sd (bc_next_request_id c) d) skipped" "t \<le> d"
    and "answers sd (bc_next_request_id c) m response"
  shows "fst (controller_request_with_timeout sd method params d c) = response_outcome response"
  using assms by (rule controller_request_finds)

theorem response_found_witness:
  "fst (controller_request_with_timeout reference_serde ''system.ping'' (JObj []) 750 sample_connection) =
     response_outcome \<lparr>jr_jsonrpc = ''2.0'', jr_id = Some 7, jr_result = Some (JObj [(''ready'', JBool True)]), jr_error = None\<rparr>"
  by (rule response_found [of sample_connection sample_ws reference_serde "''system.ping''" "JObj []" _
        "[(5, WsPing [1]), (10, WsText (ready_response 6))]" 20 "WsText (ready_response 7)" "[(1, WsClose)]"])
     (simp_all add: sample_connection_def sample_ws_def ws_of_def sends_ok_def passed_over_def answers_def
      ready_response_read reference_to_string)


end
