(* ===== verification/Command_Time.thy ===== *)
theory Command_Time
  imports Sts_Bus Host_Rpc
begin

text \<open>
  How long a servo command may keep the bus of the firmware, and how that fits the time the host waits
  for its response. A time function follows each operation of the bus: it charges a transaction the time
  of writing its packet (an argument, the driver's) and the whole deadline of
  \<open>send_sts_packet\<close> for the reply, and each round of \<open>resynchronize_uart\<close> its two
  milliseconds. Times are in milliseconds.
\<close>

section \<open>Time functions\<close>

definition STS_RESPONSE_TIMEOUT :: nat where "STS_RESPONSE_TIMEOUT = 50"

definition T_try_then :: "('s \<Rightarrow> nat) \<Rightarrow> ('s, 'e, 'a) action \<Rightarrow> ('a \<Rightarrow> 's \<Rightarrow> nat) \<Rightarrow> 's \<Rightarrow> nat" where
  "T_try_then Tm m Tk s = Tm s + (case m s of (Inl _, _) \<Rightarrow> 0 | (Inr a, s') \<Rightarrow> Tk a s')"

definition T_send_sts_packet :: "nat \<Rightarrow> u8 \<Rightarrow> u8 \<Rightarrow> u8 list \<Rightarrow> uart \<Rightarrow> nat" where
  "T_send_sts_packet w sid instruction parameters =
     (case the (encode_instruction_packet (replicate 16 0) sid instruction parameters) of
        (Inl _, _) \<Rightarrow> (\<lambda>_. 0)
      | (Inr packet_len, packet) \<Rightarrow>
          T_try_then (\<lambda>_. w) (uart_write_all (take packet_len packet)) (\<lambda>_ _. STS_RESPONSE_TIMEOUT))"

fun T_discard_reads :: "nat \<Rightarrow> rx_event list \<Rightarrow> nat" where
  "T_discard_reads 0 es = 0"
| "T_discard_reads (Suc n) [] = 2"
| "T_discard_reads (Suc n) (Deadline # es) = 2"
| "T_discard_reads (Suc n) (e # es) = 2 + T_discard_reads n es"

definition T_resynchronize_uart :: "uart \<Rightarrow> nat" where
  "T_resynchronize_uart u = T_discard_reads 4 (rx_events u)"

definition T_write_register :: "nat \<Rightarrow> u8 \<Rightarrow> u8 \<Rightarrow> u8 list \<Rightarrow> uart \<Rightarrow> nat" where
  "T_write_register w sid address data =
     (if length data > 7 then (\<lambda>_. 0) else T_send_sts_packet w sid STS_INSTRUCTION_WRITE (address # data))"

definition T_ping_servo :: "nat \<Rightarrow> u8 \<Rightarrow> uart \<Rightarrow> nat" where
  "T_ping_servo w sid = (case validate_servo_id sid of
     Inl _ \<Rightarrow> (\<lambda>_. 0) | Inr _ \<Rightarrow> T_send_sts_packet w sid STS_INSTRUCTION_PING [])"

definition T_read_position :: "nat \<Rightarrow> u8 \<Rightarrow> uart \<Rightarrow> nat" where
  "T_read_position w sid = (case validate_servo_id sid of
     Inl _ \<Rightarrow> (\<lambda>_. 0) | Inr _ \<Rightarrow> T_send_sts_packet w sid STS_INSTRUCTION_READ [STS_PRESENT_POSITION, 2])"

text \<open>A sequence of register writes, which is what the motor and position commands are.\<close>

fun T_write_plan :: "nat \<Rightarrow> u8 \<Rightarrow> (u8 \<times> u8 list) list \<Rightarrow> uart \<Rightarrow> nat" where
  "T_write_plan w sid [] = (\<lambda>_. 0)"
| "T_write_plan w sid ((address, data) # plan) =
     T_try_then (T_write_register w sid address data) (write_register sid address data) (\<lambda>_. T_write_plan w sid plan)"

fun T_read_positions_loop :: "nat \<Rightarrow> u8 list \<Rightarrow> PositionResult list \<Rightarrow> uart \<Rightarrow> nat" where
  "T_read_positions_loop w [] positions = (\<lambda>_. 0)"
| "T_read_positions_loop w (sid # ids) positions =
     T_try_then (T_read_position w sid) (read_position sid) (\<lambda>position.
       if length positions < MAX_POSITION_BATCH
       then T_read_positions_loop w ids (positions @ [\<lparr>pr_id = sid, pr_position = position\<rparr>])
       else (\<lambda>_. 0))"

fun T_scan_loop :: "nat \<Rightarrow> nat list \<Rightarrow> u8 list \<Rightarrow> uart \<Rightarrow> nat" where
  "T_scan_loop w [] ids = (\<lambda>_. 0)"
| "T_scan_loop w (raw_id # raw_ids) ids = (\<lambda>u.
     let sid = of_nat raw_id in
     if \<not> is_unicast_servo_id sid then T_scan_loop w raw_ids ids u
     else T_ping_servo w sid u + (case ping_servo sid u of
         (Inr _, u') \<Rightarrow> if length ids < MAX_SCAN_RESULTS then T_scan_loop w raw_ids (ids @ [sid]) u' else 0
       | (Inl Transport, u') \<Rightarrow> T_resynchronize_uart u'
       | (Inl _, u') \<Rightarrow> T_resynchronize_uart u' + T_scan_loop w raw_ids ids (resynchronize_uart u')))"

fun T_dispatch_command :: "nat \<Rightarrow> ControllerCommand \<Rightarrow> uart \<Rightarrow> nat" where
  "T_dispatch_command w (StartMotor sid ccw spd acc) =
     (if is_unicast_servo_id sid \<and> spd \<le> 4095 then T_write_plan w sid (start_plan ccw spd acc) else (\<lambda>_. 0))"
| "T_dispatch_command w (StopMotor sid) =
     (if is_unicast_servo_id sid then T_write_plan w sid stop_plan else (\<lambda>_. 0))"
| "T_dispatch_command w (SetPosition sid pos acc torque) =
     (if is_unicast_servo_id sid \<and> pos \<le> 4095 \<and> torque \<le> 1000
      then T_write_plan w sid (move_plan pos acc torque) else (\<lambda>_. 0))"
| "T_dispatch_command w (GetPosition sid) = T_read_position w sid"
| "T_dispatch_command w (GetPositions ids) = T_read_positions_loop w ids []"
| "T_dispatch_command w (ScanServos lo hi) =
     (if lo = 0 \<or> lo > hi \<or> hi > MAX_SERVO_ID then (\<lambda>_. 0) else T_scan_loop w [unat lo ..< unat hi + 1] [])"

definition T_execute_command :: "nat \<Rightarrow> ControllerCommand \<Rightarrow> uart \<Rightarrow> nat" where
  "T_execute_command w command u = T_dispatch_command w command u + (case dispatch_command command u of
       (Inl _, u') \<Rightarrow> T_resynchronize_uart u' | (Inr _, _) \<Rightarrow> 0)"

section \<open>Bounds\<close>

text \<open>The time of an operation is at least that of the packets it writes, and at most \<open>b\<close>.\<close>

definition timed :: "nat \<Rightarrow> nat \<Rightarrow> (uart \<Rightarrow> nat) \<Rightarrow> (uart, 'e, 'a) action \<Rightarrow> bool" where
  "timed w b T m \<longleftrightarrow> (\<forall>u. T u \<le> b \<and> length (tx_written u) \<le> length (tx_written (snd (m u))) \<and>
     w * length (tx_written (snd (m u))) \<le> w * length (tx_written u) + T u)"

lemma timedD:
  "timed w b T m \<Longrightarrow> m u = (r, u') \<Longrightarrow> T u \<le> b \<and> length (tx_written u) \<le> length (tx_written u') \<and>
     w * length (tx_written u') \<le> w * length (tx_written u) + T u"
  unfolding timed_def by (metis snd_conv)

lemma timed_return: "timed w b (\<lambda>_. 0) (return_ok a)" "timed w b (\<lambda>_. 0) (return_err e)"
  by (simp_all add: timed_def return_ok_def return_err_def)

lemma timed_then:
  assumes "timed w b T m" "\<And>a. timed w c (Tk a) (k a)"
  shows "timed w (b + c) (T_try_then T m Tk) (try_then m k)"
  unfolding timed_def
proof
  fix u
  obtain r u' where m: "m u = (r, u')" by fastforce
  note tm = timedD [OF assms(1) m]
  show "T_try_then T m Tk u \<le> b + c \<and> length (tx_written u) \<le> length (tx_written (snd (try_then m k u))) \<and>
      w * length (tx_written (snd (try_then m k u))) \<le> w * length (tx_written u) + T_try_then T m Tk u"
  proof (cases r)
    case (Inl e)
    with m tm show ?thesis by (simp add: T_try_then_def)
  next
    case (Inr a)
    obtain r2 u2 where k: "k a u' = (r2, u2)" by fastforce
    with timedD [OF assms(2) k] Inr m tm show ?thesis by (simp add: T_try_then_def)
  qed
qed

text \<open>A continuation that takes no time of its own.\<close>

lemma timed_last:
  assumes "timed w b T m" "\<And>a u. snd (k a u) = u"
  shows "timed w b T (try_then m k)"
proof -
  have "tx_written (snd (try_then m k u)) = tx_written (snd (m u))" for u
    using assms(2) by (simp add: try_then_def split: prod.splits sum.splits)
  with assms(1) show ?thesis by (simp add: timed_def)
qed

lemma timed_mono: "timed w b T m \<Longrightarrow> b \<le> c \<Longrightarrow> timed w c T m"
  unfolding timed_def by (meson order_trans)

lemma T_send_alt:
  "T_send_sts_packet w sid ins ps u = (if 10 < length ps then 0
     else w + (case uart_write_all (instruction_packet sid ins ps) u of (Inl _, _) \<Rightarrow> 0 | (Inr _, _) \<Rightarrow> 50))"
proof (cases "10 < length ps")
  case True
  then show ?thesis
    by (cases "length ps \<le> 253") (simp_all add: T_send_sts_packet_def encode_too_small encode_too_long)
next
  case False
  then show ?thesis
    by (simp add: T_send_sts_packet_def encode_ok T_try_then_def STS_RESPONSE_TIMEOUT_def split: prod.splits sum.splits)
qed

lemma timed_send: "timed w (w + 50) (T_send_sts_packet w sid ins ps) (send_sts_packet sid ins ps)"
  unfolding timed_def T_send_alt send_sts_packet_written by (auto split: prod.splits sum.splits)

lemma timed_write_register: "timed w (w + 50) (T_write_register w sid a d) (write_register sid a d)"
proof (cases "length d \<le> 7")
  case True
  then have "T_write_register w sid a d = T_send_sts_packet w sid STS_INSTRUCTION_WRITE (a # d)"
    by (simp add: T_write_register_def)
  then show ?thesis
    by (simp add: write_register_alt [OF True]) (rule timed_last [OF timed_send]; simp add: return_ok_def return_err_def)
next
  case False
  then show ?thesis by (simp add: T_write_register_def write_register_def timed_return)
qed

lemma timed_ping: "timed w (w + 50) (T_ping_servo w sid) (ping_servo sid)"
proof (cases "validate_servo_id sid")
  case (Inr x)
  then show ?thesis
    by (simp add: T_ping_servo_def ping_servo_def) (rule timed_last [OF timed_send]; simp add: return_ok_def)
qed (simp add: T_ping_servo_def ping_servo_def timed_return)

lemma timed_read_position: "timed w (w + 50) (T_read_position w sid) (read_position sid)"
proof (cases "validate_servo_id sid")
  case (Inr x)
  then show ?thesis
    by (simp add: T_read_position_def read_position_def)
       (rule timed_last [OF timed_send]; simp add: return_ok_def return_err_def)
qed (simp add: T_read_position_def read_position_def timed_return)

lemma timed_write_plan: "timed w (length plan * (w + 50)) (T_write_plan w sid plan) (write_plan write_register sid plan)"
proof (induction plan)
  case (Cons ad plan)
  obtain a d where ad: "ad = (a, d)" by (cases ad)
  show ?case
  proof (cases plan)
    case Nil
    have "T_write_plan w sid [(a, d)] = T_write_register w sid a d"
      by (simp add: fun_eq_iff T_try_then_def split: prod.splits sum.splits)
    with timed_write_register Nil show ?thesis by (simp add: ad)
  next
    case (Cons ad' plan')
    then have "write_plan write_register sid (ad # plan) =
        try_then (write_register sid a d) (\<lambda>_. write_plan write_register sid plan)" by (simp add: ad)
    with timed_then [OF timed_write_register Cons.IH] show ?thesis by (simp add: ad)
  qed
qed (simp add: timed_return)

lemma timed_read_positions:
  "timed w (length ids * (w + 50)) (T_read_positions_loop w ids ps) (read_positions_loop ids ps)"
proof (induction ids arbitrary: ps)
  case (Cons sid ids)
  have "timed w (length ids * (w + 50))
      (if length ps < MAX_POSITION_BATCH then T_read_positions_loop w ids (ps @ [\<lparr>pr_id = sid, pr_position = p\<rparr>]) else (\<lambda>_. 0))
      (if length ps < MAX_POSITION_BATCH then read_positions_loop ids (ps @ [\<lparr>pr_id = sid, pr_position = p\<rparr>])
       else return_err InvalidArgument)" for p
    using Cons.IH by (simp add: timed_return)
  from timed_then [OF timed_read_position this] show ?case by simp
qed (simp add: timed_return)

lemma T_discard_bound: "T_discard_reads n es \<le> 2 * n"
  by (induction n es rule: T_discard_reads.induct) simp_all

lemma T_resync_bound: "T_resynchronize_uart u \<le> 8"
  using T_discard_bound [of 4 "rx_events u"] by (simp add: T_resynchronize_uart_def)

lemma resync_written: "tx_written (resynchronize_uart u) = tx_written u"
  by (simp add: resynchronize_uart_def)

lemma timed_scan: "timed w (length raw * (w + 58)) (T_scan_loop w raw ids) (scan_loop raw ids)"
proof (induction raw arbitrary: ids)
  case (Cons raw_id raw)
  let ?sid = "of_nat raw_id :: u8"
  show ?case
    unfolding timed_def
  proof
    fix u
    obtain r u' where ping: "ping_servo ?sid u = (r, u')" by fastforce
    note t = timedD [OF timed_ping ping, of w]
    have ih: "T_scan_loop w raw ids v \<le> length raw * (w + 58) \<and>
        length (tx_written v) \<le> length (tx_written (snd (scan_loop raw ids v))) \<and>
        w * length (tx_written (snd (scan_loop raw ids v))) \<le> w * length (tx_written v) + T_scan_loop w raw ids v" for ids v
      using Cons.IH unfolding timed_def by blast
    note rs = T_resync_bound [of u']
    show "T_scan_loop w (raw_id # raw) ids u \<le> length (raw_id # raw) * (w + 58) \<and>
        length (tx_written u) \<le> length (tx_written (snd (scan_loop (raw_id # raw) ids u))) \<and>
        w * length (tx_written (snd (scan_loop (raw_id # raw) ids u))) \<le>
          w * length (tx_written u) + T_scan_loop w (raw_id # raw) ids u"
    proof (cases "is_unicast_servo_id ?sid")
      case False
      with ih [of ids u] show ?thesis by (simp add: Let_def)
    next
      case True
      show ?thesis
      proof (cases r)
        case (Inr x)
        with ih [of "ids @ [?sid]" u'] t ping True show ?thesis by (auto simp: Let_def)
      next
        case (Inl e)
        with ih [of ids "resynchronize_uart u'"] t rs ping True show ?thesis
          by (cases e) (auto simp: Let_def resync_written)
      qed
    qed
  qed
qed (simp add: timed_return)

lemma timed_guard:
  assumes "g \<Longrightarrow> timed w b T m" "\<not> g \<Longrightarrow> \<exists>e. m = return_err e"
  shows "timed w b (if g then T else (\<lambda>_. 0)) m"
  using assms timed_return by (cases g) auto

text \<open>How many transactions a command may need at most.\<close>

fun transactions :: "ControllerCommand \<Rightarrow> nat" where
  "transactions (StartMotor _ _ _ _) = 3"
| "transactions (StopMotor _) = 1"
| "transactions (SetPosition _ _ _ _) = 3"
| "transactions (GetPosition _) = 1"
| "transactions (GetPositions ids) = length ids"
| "transactions (ScanServos lo hi) = 253"

text \<open>Commands that are refused before anything is written.\<close>

lemma refused_commands:
  "\<not> (is_unicast_servo_id sid \<and> spd \<le> 4095) \<Longrightarrow> \<exists>e. start_motor sid ccw spd acc = return_err e"
  "\<not> is_unicast_servo_id sid \<Longrightarrow> \<exists>e. stop_motor sid = return_err e"
  "\<not> (is_unicast_servo_id sid \<and> pos \<le> 4095 \<and> torque \<le> 1000) \<Longrightarrow> \<exists>e. move_position sid pos acc torque = return_err e"
  by (auto simp: start_motor_def stop_motor_def move_position_def validate_servo_id_def)

lemma timed_plan: "length plan * (w + 50) \<le> b \<Longrightarrow> timed w b (T_write_plan w sid plan) (write_plan write_register sid plan)"
  using timed_mono [OF timed_write_plan] .

lemma timed_result: "timed w b T m \<Longrightarrow> timed w b T (try_then m (\<lambda>a. return_ok (f a)))"
  by (rule timed_last) (simp_all add: return_ok_def)

lemma timed_dispatch: "timed w (transactions command * (w + 58)) (T_dispatch_command w command) (dispatch_command command)"
proof (cases command)
  case (StartMotor sid ccw spd acc)
  have "timed w (3 * (w + 58)) (if is_unicast_servo_id sid \<and> spd \<le> 4095 then T_write_plan w sid (start_plan ccw spd acc)
      else (\<lambda>_. 0)) (start_motor sid ccw spd acc)"
    by (rule timed_guard) (auto simp: start_motor_plan refused_commands intro!: timed_plan)
  then show ?thesis by (simp add: StartMotor timed_result)
next
  case (StopMotor sid)
  have "timed w (1 * (w + 58)) (if is_unicast_servo_id sid then T_write_plan w sid stop_plan else (\<lambda>_. 0)) (stop_motor sid)"
    by (rule timed_guard) (auto simp: stop_motor_plan refused_commands intro!: timed_plan)
  then show ?thesis by (simp add: StopMotor timed_result)
next
  case (SetPosition sid pos acc torque)
  have "timed w (3 * (w + 58)) (if is_unicast_servo_id sid \<and> pos \<le> 4095 \<and> torque \<le> 1000
      then T_write_plan w sid (move_plan pos acc torque) else (\<lambda>_. 0)) (move_position sid pos acc torque)"
    by (rule timed_guard) (auto simp: move_position_plan refused_commands intro!: timed_plan)
  then show ?thesis by (simp add: SetPosition timed_result)
next
  case (GetPosition sid)
  have "timed w (1 * (w + 58)) (T_read_position w sid) (read_position sid)"
    by (rule timed_mono [OF timed_read_position]) simp
  then show ?thesis by (simp add: GetPosition timed_result)
next
  case (GetPositions ids)
  have "timed w (length ids * (w + 58)) (T_read_positions_loop w ids []) (read_positions ids)"
    unfolding read_positions_def by (rule timed_mono [OF timed_read_positions]) (simp add: mult_le_mono)
  then show ?thesis by (simp add: GetPositions timed_result)
next
  case (ScanServos lo hi)
  show ?thesis
  proof (cases "lo = 0 \<or> lo > hi \<or> hi > MAX_SERVO_ID")
    case True
    then have "scan_servos lo hi = return_err InvalidArgument" by (simp only: scan_servos_def if_True)
    then show ?thesis using True timed_return(2) by (auto simp: ScanServos)
  next
    case False
    then have "unat hi \<le> 253" "1 \<le> unat lo"
      by (auto simp: servo_id_consts word_le_nat_alt not_less Suc_le_eq unat_gt_0)
    then have "length [unat lo..<unat hi + 1] \<le> 253" unfolding length_upt by linarith
    then have "length [unat lo..<unat hi + 1] * (w + 58) \<le> 253 * (w + 58)" by (rule mult_le_mono1)
    with timed_mono [OF timed_scan] have "timed w (253 * (w + 58)) (T_scan_loop w [unat lo..<unat hi + 1] [])
        (scan_loop [unat lo..<unat hi + 1] [])" by blast
    moreover have "scan_servos lo hi = scan_loop [unat lo..<unat hi + 1] []"
      unfolding scan_servos_def by (simp only: False if_False)
    ultimately show ?thesis using timed_result [of w "253 * (w + 58)" _ "scan_servos lo hi" Servos]
      unfolding ScanServos dispatch_command.simps T_dispatch_command.simps transactions.simps by (simp only: False if_False)
  qed
qed

lemma execute_time:
  "T_execute_command w command u \<le> transactions command * (w + 58) + 8 \<and>
   w * length (tx_written (snd (execute_command command u))) \<le> w * length (tx_written u) + T_execute_command w command u"
proof -
  obtain r u' where run: "dispatch_command command u = (r, u')" by fastforce
  from timedD [OF timed_dispatch run, of w] T_resync_bound [of u'] run show ?thesis
    by (cases r) (auto simp: T_execute_command_def execute_command_def resync_written)
qed

section \<open>Properties\<close>

text \<open>C13. The firmware is done with a command before the host stops waiting for its response: when the driver
  takes at most 20 ms to write a packet, a motor command, a move and a position read hold the bus for at
  least 250 ms less than the 750 ms that the host waits, for as many servos as a request can name, and a scan
  of every address, none of which answers, for 250 ms less than the 20 s that the host waits then; so that
  much is left for the network. The time covers every packet that is written.\<close>
theorem commands_within_host_timeout:
  assumes "w \<le> 20" "\<And>ids. command = GetPositions ids \<Longrightarrow> length ids \<le> MAX_POSITION_BATCH"
  shows "T_execute_command w command u + 250 \<le>
      (case command of ScanServos _ _ \<Rightarrow> SERVO_SCAN_TIMEOUT | _ \<Rightarrow> HOST_SERVO_TIMEOUT) \<and>
    w * length (tx_written (snd (execute_command command u))) \<le> w * length (tx_written u) + T_execute_command w command u"
proof -
  have "transactions command * (w + 58) \<le> transactions command * 78" using assms(1) by (intro mult_le_mono) simp_all
  moreover have "transactions command * 78 + 258 \<le>
      (case command of ScanServos _ _ \<Rightarrow> SERVO_SCAN_TIMEOUT | _ \<Rightarrow> HOST_SERVO_TIMEOUT)"
    using assms(2) by (cases command) (auto simp: SERVO_SCAN_TIMEOUT_def HOST_SERVO_TIMEOUT_def MAX_POSITION_BATCH_def)
  ultimately show ?thesis using execute_time [of w command u] by linarith
qed

text \<open>Nothing answers on the bus.\<close>

definition silent_uart :: uart where
  "silent_uart = \<lparr>rx_events = [], tx_results = [], tx_written = []\<rparr>"

theorem commands_within_host_timeout_witness:
  "T_execute_command 1 (ScanServos 1 253) silent_uart + 250 \<le> SERVO_SCAN_TIMEOUT \<and>
   T_execute_command 1 (GetPositions [1, 2, 3, 4, 5, 6]) silent_uart + 250 \<le> HOST_SERVO_TIMEOUT"
  using commands_within_host_timeout [of 1 "ScanServos 1 253" silent_uart]
    commands_within_host_timeout [of 1 "GetPositions [1, 2, 3, 4, 5, 6]" silent_uart]
  by (simp add: MAX_POSITION_BATCH_def)

end
