(* ===== verification/Admission.thy ===== *)
theory Admission
  imports Fetchline_Prelude
begin

text \<open>
  Controller-session ownership: the epoch counter and the admission automaton of
  \<open>src/src/controller.rs\<close>, and the shared \<open>ControllerOwnership\<close> object of
  \<open>src/src/bin/main.rs\<close> built on it. A generation number is handed to every session that
  completes its WebSocket upgrade; only the newest generation is current. The two
  \<open>Watch\<close> channels belong to \<open>embassy-sync\<close>; what the firmware does to them, the
  values it sends, is recorded in the order of the calls. The lemmas show which generation is
  current after every operation, that a replacing takeover blocks further takeovers until a
  transport listens again, and that generations do not repeat before the counter wraps.
\<close>

section \<open>Definitions\<close>

datatype ControllerEpoch = ControllerEpoch u64

fun epoch_value :: "ControllerEpoch \<Rightarrow> u64" where
  "epoch_value (ControllerEpoch n) = n"

definition epoch_new :: ControllerEpoch where
  "epoch_new = ControllerEpoch 0"

definition epoch_claim :: "ControllerEpoch \<Rightarrow> u64 \<times> ControllerEpoch" where
  "epoch_claim e = (let n = epoch_value e + 1 in (n, ControllerEpoch n))"

definition epoch_is_current :: "ControllerEpoch \<Rightarrow> u64 \<Rightarrow> bool" where
  "epoch_is_current e g \<longleftrightarrow> epoch_value e = g"

record ControllerAdmission =
  epoch :: ControllerEpoch
  active :: bool
  listener_required :: bool

datatype ControllerAdmissionResult =
    Granted u64 bool \<comment> \<open>generation, replaces active\<close>
  | WaitForListener

definition admission_new :: ControllerAdmission where
  "admission_new = \<lparr>epoch = epoch_new, active = False, listener_required = False\<rparr>"

definition try_claim :: "ControllerAdmission \<Rightarrow> ControllerAdmissionResult \<times> ControllerAdmission" where
  "try_claim a =
     (if listener_required a then (WaitForListener, a)
      else
        let replaces = active a;
            (gen, e) = epoch_claim (epoch a)
        in (Granted gen replaces,
            a\<lparr>epoch := e, active := True, listener_required := replaces\<rparr>))"

definition admission_release :: "u64 \<Rightarrow> ControllerAdmission \<Rightarrow> ControllerAdmission" where
  "admission_release gen a =
     (if epoch_is_current (epoch a) gen then a\<lparr>active := False\<rparr> else a)"

definition admission_listener_ready :: "ControllerAdmission \<Rightarrow> bool \<times> ControllerAdmission" where
  "admission_listener_ready a = (listener_required a, a\<lparr>listener_required := False\<rparr>)"

definition admission_is_current :: "ControllerAdmission \<Rightarrow> u64 \<Rightarrow> bool" where
  "admission_is_current a gen = epoch_is_current (epoch a) gen"

text \<open>
  The shared object. \<open>changes_sent\<close> and \<open>listener_changes_sent\<close> are the values sent
  on the two watches, oldest first.
\<close>

record ControllerOwnership =
  current :: ControllerAdmission
  changes_sent :: "u64 list"
  listener_changes_sent :: "u64 list"
  listener_change :: u64

definition ownership_new :: ControllerOwnership where
  "ownership_new =
     \<lparr>current = admission_new, changes_sent = [], listener_changes_sent = [], listener_change = 0\<rparr>"

text \<open>
  One round of the loop in \<open>claim\<close>: \<open>Some\<close> generation when the loop returns it,
  \<open>None\<close> when the loop goes on to await the next listener change.
\<close>

definition claim_attempt :: "ControllerOwnership \<Rightarrow> u64 option \<times> ControllerOwnership" where
  "claim_attempt own =
     (case try_claim (current own) of
        (Granted gen _, a) \<Rightarrow>
          (Some gen, own\<lparr>current := a, changes_sent := changes_sent own @ [gen]\<rparr>)
      | (WaitForListener, a) \<Rightarrow> (None, own\<lparr>current := a\<rparr>))"

definition ownership_release :: "u64 \<Rightarrow> ControllerOwnership \<Rightarrow> ControllerOwnership" where
  "ownership_release gen own = own\<lparr>current := admission_release gen (current own)\<rparr>"

definition ownership_listener_ready :: "ControllerOwnership \<Rightarrow> ControllerOwnership" where
  "ownership_listener_ready own =
     (let (unblocked, a) = admission_listener_ready (current own);
          own' = own\<lparr>current := a\<rparr>
      in if unblocked
         then let next_change = listener_change own' + 1
              in own'\<lparr>listener_change := next_change,
                      listener_changes_sent := listener_changes_sent own' @ [next_change]\<rparr>
         else own')"

definition ownership_is_current :: "ControllerOwnership \<Rightarrow> u64 \<Rightarrow> bool" where
  "ownership_is_current own gen = admission_is_current (current own) gen"

text \<open>The operations as values, to speak about sequences of them.\<close>

datatype admission_op = TryClaim | Release u64 | ListenerReady

fun admission_step :: "ControllerAdmission \<Rightarrow> admission_op \<Rightarrow> ControllerAdmission" where
  "admission_step a TryClaim = snd (try_claim a)"
| "admission_step a (Release gen) = admission_release gen a"
| "admission_step a ListenerReady = snd (admission_listener_ready a)"

fun admission_grants :: "ControllerAdmission \<Rightarrow> admission_op list \<Rightarrow> u64 list" where
  "admission_grants a [] = []"
| "admission_grants a (TryClaim # ops) =
     (case try_claim a of
        (Granted gen _, a') \<Rightarrow> gen # admission_grants a' ops
      | (WaitForListener, a') \<Rightarrow> admission_grants a' ops)"
| "admission_grants a (Release gen # ops) = admission_grants (admission_release gen a) ops"
| "admission_grants a (ListenerReady # ops) = admission_grants (snd (admission_listener_ready a)) ops"

lemmas admission_defs =
  try_claim_def admission_release_def admission_listener_ready_def admission_is_current_def
  epoch_claim_def epoch_is_current_def Let_def

section \<open>Epochs are ordered by their counter\<close>

instantiation ControllerEpoch :: linorder
begin

definition less_eq_ControllerEpoch :: "ControllerEpoch \<Rightarrow> ControllerEpoch \<Rightarrow> bool" where
  "less_eq_ControllerEpoch a b \<longleftrightarrow> epoch_value a \<le> epoch_value b"

definition less_ControllerEpoch :: "ControllerEpoch \<Rightarrow> ControllerEpoch \<Rightarrow> bool" where
  "less_ControllerEpoch a b \<longleftrightarrow> epoch_value a < epoch_value b"

instance
proof
  fix a b c :: ControllerEpoch
  show "(a < b) = (a \<le> b \<and> \<not> b \<le> a)"
    by (auto simp: less_eq_ControllerEpoch_def less_ControllerEpoch_def)
  show "a \<le> a" by (simp add: less_eq_ControllerEpoch_def)
  show "a \<le> b \<Longrightarrow> b \<le> c \<Longrightarrow> a \<le> c" by (simp add: less_eq_ControllerEpoch_def)
  show "a \<le> b \<Longrightarrow> b \<le> a \<Longrightarrow> a = b"
    by (cases a; cases b) (simp add: less_eq_ControllerEpoch_def)
  show "a \<le> b \<or> b \<le> a" by (auto simp: less_eq_ControllerEpoch_def)
qed

end

section \<open>What a session relies on\<close>

text \<open>
  The contract between the ownership object and the sessions that use it: exactly one generation
  is current, a granted claim makes a fresh generation current, and nothing else moves the counter.
\<close>

locale session_ownership =
  fixes claim :: "'o \<Rightarrow> u64 option \<times> 'o"
    and release :: "u64 \<Rightarrow> 'o \<Rightarrow> 'o"
    and listener_ready :: "'o \<Rightarrow> 'o"
    and is_current :: "'o \<Rightarrow> u64 \<Rightarrow> bool"
    and counter :: "'o \<Rightarrow> u64"
  assumes is_current_iff: "is_current own g \<longleftrightarrow> g = counter own"
    and claim_granted: "claim own = (Some g, own') \<Longrightarrow> g = counter own + 1 \<and> counter own' = g"
    and claim_waits: "claim own = (None, own') \<Longrightarrow> own' = own"
    and release_counter: "counter (release g own) = counter own"
    and listener_ready_counter: "counter (listener_ready own) = counter own"
begin

lemma granted_is_current: "claim own = (Some g, own') \<Longrightarrow> is_current own' g"
  by (auto simp: is_current_iff dest: claim_granted)

lemma one_current: "is_current own g \<Longrightarrow> is_current own h \<Longrightarrow> g = h"
  by (simp add: is_current_iff)

lemma granted_supersedes: "claim own = (Some g, own') \<Longrightarrow> is_current own h \<Longrightarrow> \<not> is_current own' h"
  using claim_granted [of own g own'] by (auto simp: is_current_iff)

lemma claim_counter: "claim own = (r, own') \<Longrightarrow>
    counter own' = (case r of None \<Rightarrow> counter own | Some _ \<Rightarrow> counter own + 1)"
  by (cases r) (auto dest: claim_granted claim_waits)

end

definition ownership_counter :: "ControllerOwnership \<Rightarrow> u64" where
  "ownership_counter own = epoch_value (epoch (current own))"

lemma try_claim_cases:
  "listener_required a \<Longrightarrow> try_claim a = (WaitForListener, a)"
  "\<not> listener_required a \<Longrightarrow> try_claim a =
     (Granted (epoch_value (epoch a) + 1) (active a),
      a\<lparr>epoch := ControllerEpoch (epoch_value (epoch a) + 1), active := True,
        listener_required := active a\<rparr>)"
  by (simp_all add: admission_defs)

interpretation own: session_ownership claim_attempt ownership_release ownership_listener_ready
  ownership_is_current ownership_counter
proof unfold_locales
  fix own own' g
  show "ownership_is_current own g = (g = ownership_counter own)"
    by (auto simp: ownership_is_current_def ownership_counter_def admission_defs)
  show "claim_attempt own = (Some g, own') \<Longrightarrow> g = ownership_counter own + 1 \<and> ownership_counter own' = g"
    by (cases "listener_required (current own)")
       (auto simp: claim_attempt_def ownership_counter_def try_claim_cases)
  show "claim_attempt own = (None, own') \<Longrightarrow> own' = own"
    by (cases "listener_required (current own)") (auto simp: claim_attempt_def try_claim_cases)
  show "ownership_counter (ownership_release g own) = ownership_counter own"
    by (simp add: ownership_release_def ownership_counter_def admission_defs)
  show "ownership_counter (ownership_listener_ready own) = ownership_counter own"
    by (simp add: ownership_listener_ready_def ownership_counter_def admission_defs)
qed

section \<open>Sequences of operations\<close>

lemma admission_step_epoch:
  "opn \<noteq> TryClaim \<Longrightarrow> epoch (admission_step a opn) = epoch a"
  by (cases opn) (auto simp: admission_defs)

lemma nth_admission_grants:
  "i < length (admission_grants a ops) \<Longrightarrow>
   admission_grants a ops ! i = epoch_value (epoch a) + of_nat (Suc i)"
proof (induction a ops arbitrary: i rule: admission_grants.induct)
  case (1 a)
  then show ?case by simp
next
  case (2 a ops)
  show ?case
  proof (cases "listener_required a")
    case True
    with 2 show ?thesis by (simp add: try_claim_cases)
  next
    case False
    with 2 show ?thesis by (cases i) (simp_all add: try_claim_cases)
  qed
next
  case (3 a gen ops)
  then show ?case using admission_step_epoch [of "Release gen" a] by simp
next
  case (4 a ops)
  then show ?case using admission_step_epoch [of ListenerReady a] by simp
qed

lemma u64_of_nat_less: "i < j \<Longrightarrow> j < 2 ^ 64 \<Longrightarrow> (of_nat i :: u64) < of_nat j"
  by (simp add: word_less_nat_alt unat_of_nat take_bit_nat_eq_self)

lemma blocked_step:
  assumes "listener_required a" "opn \<noteq> ListenerReady"
  shows "listener_required (admission_step a opn)" "epoch (admission_step a opn) = epoch a"
  using assms by (cases opn; auto simp: admission_defs)+

lemma blocked_run:
  assumes "listener_required a" "ListenerReady \<notin> set ops"
  shows "admission_grants a ops = []" "epoch (foldl admission_step a ops) = epoch a"
  using assms
proof (induction ops arbitrary: a)
  case Nil
  {
    case 1 then show ?case by simp
  next
    case 2 then show ?case by simp
  }
next
  case (Cons opn ops)
  {
    case 1
    then have "opn \<noteq> ListenerReady" by auto
    from blocked_step(1) [OF 1(1) this] 1(2) have "admission_grants (admission_step a opn) ops = []"
      by (intro Cons.IH(1)) auto
    with 1(1) show ?case by (cases opn) (simp_all add: try_claim_cases)
  next
    case 2
    then have "opn \<noteq> ListenerReady" by auto
    from blocked_step [OF 2(1) this] 2(2) Cons.IH(2) [of "admission_step a opn"] show ?case by simp
  }
qed

section \<open>Properties\<close>

text \<open>Generations never repeat: in any sequence of claims, releases and listener transitions with
  fewer than 2^64 granted claims, the granted generations are strictly increasing.\<close>
theorem generations_strictly_increase:
  assumes "length (admission_grants admission_new ops) < 2 ^ 64"
  shows "sorted_wrt (<) (admission_grants admission_new ops)"
proof (rule sorted_wrt_iff_nth_less [THEN iffD2], intro allI impI)
  fix i j
  assume ij: "i < j" and j: "j < length (admission_grants admission_new ops)"
  with assms have "(of_nat (Suc i) :: u64) < of_nat (Suc j)"
    by (intro u64_of_nat_less) auto
  with ij j show "admission_grants admission_new ops ! i < admission_grants admission_new ops ! j"
    by (simp add: nth_admission_grants admission_new_def epoch_new_def)
qed

theorem generations_strictly_increase_witness:
  "sorted_wrt (<) (admission_grants admission_new [TryClaim, TryClaim, ListenerReady, TryClaim])
   \<and> length (admission_grants admission_new [TryClaim, TryClaim, ListenerReady, TryClaim]) = 3"
  using generations_strictly_increase [of "[TryClaim, TryClaim, ListenerReady, TryClaim]"]
  by (simp add: admission_new_def epoch_new_def admission_defs)

text \<open>Takeovers are serialized: once a claim has replaced an active session, no later claim is
  granted and its generation stays the current one, whatever sessions claim or disconnect, until a
  transport reports that it is listening again.\<close>
theorem takeover_blocks_until_listener:
  assumes "try_claim a = (Granted g True, a')" and "ListenerReady \<notin> set ops"
  shows "admission_grants a' ops = [] \<and> admission_is_current (foldl admission_step a' ops) g"
proof -
  from assms(1) have req: "listener_required a'" and g: "epoch a' = ControllerEpoch g"
    by (cases "listener_required a"; auto simp: try_claim_cases)+
  show ?thesis
    using blocked_run [OF req assms(2)] g by (simp add: admission_is_current_def epoch_is_current_def)
qed

theorem takeover_blocks_until_listener_witness:
  "let a = snd (try_claim admission_new); a' = snd (try_claim a); ops = [TryClaim, Release 1, TryClaim]
   in try_claim a = (Granted 2 True, a') \<and> admission_grants a' ops = []
      \<and> admission_is_current (foldl admission_step a' ops) 2"
  using takeover_blocks_until_listener
    [of "snd (try_claim admission_new)" 2 "snd (try_claim (snd (try_claim admission_new)))"
        "[TryClaim, Release 1, TryClaim]"]
  by (simp add: admission_new_def epoch_new_def admission_defs)

text \<open>The newest session owns the bus: a granted claim makes its own generation, and no other, the
  current one and announces it last on the change channel; a session of any other generation that
  ends later changes nothing; and after a normal end of an unreplaced session the next claim is
  granted at once, without replacing anyone and without waiting for a listener.\<close>
theorem newest_generation_owns:
  assumes "claim_attempt own = (Some g, own')"
  shows "(\<forall>h. ownership_is_current own' h \<longleftrightarrow> h = g) \<and>
    last (changes_sent own') = g \<and>
    (\<forall>h. h \<noteq> g \<longrightarrow> ownership_release h own' = own') \<and>
    (\<not> active (current own) \<longrightarrow>
       (\<exists>g' a. try_claim (current (ownership_release g own')) = (Granted g' False, a)
               \<and> \<not> listener_required a))"
proof -
  from assms have grant: "\<not> listener_required (current own)"
    by (auto simp: claim_attempt_def try_claim_cases)
  with assms show ?thesis
    by (auto simp: claim_attempt_def ownership_release_def ownership_is_current_def admission_defs)
qed

theorem newest_generation_owns_witness:
  "(\<forall>h. ownership_is_current (snd (claim_attempt ownership_new)) h \<longleftrightarrow> h = 1) \<and>
    last (changes_sent (snd (claim_attempt ownership_new))) = 1"
  using newest_generation_owns [of ownership_new 1 "snd (claim_attempt ownership_new)"]
  by (simp add: claim_attempt_def ownership_new_def admission_new_def epoch_new_def admission_defs)

end
