(* ===== verification/Controller_Service.thy ===== *)
theory Controller_Service
  imports Admission
begin

text \<open>
  The controller tasks of the firmware (\<open>src/src/bin/main.rs\<close>): \<open>controller_service\<close>
  runs once per transport socket, accepts a client, upgrades it, claims the servo bus and serves the
  session of \<open>controller_session\<close>. All tasks share the ownership object and the mutex of the
  UART's receive half, which every command and every resynchronization takes first. Each task is a
  state machine whose phases are the suspension points of the two functions; an event is what completes
  the wait there, with the outcome the environment chose; a step runs the code up to the next
  suspension point. The executor is cooperative, so a step is atomic, and the events may come in any
  order.
\<close>

section \<open>Definitions\<close>

definition CONTROLLER_TRANSPORT_SLOTS :: nat where "CONTROLLER_TRANSPORT_SLOTS = 3"

text \<open>
  A session carries its generation and how many ownership changes its receiver has seen. A flag of
  \<open>Executing\<close> and \<open>Resyncing\<close> says whether the task holds the UART. \<open>Claiming\<close>
  carries how many listener changes its receiver has seen; a new receiver has seen none.
\<close>

datatype task_phase =
    ConfigWait
  | Accepting
  | AcceptBackoff
  | Upgrading
  | Claiming nat
  | Reading u64 nat
  | Executing u64 nat bool
  | Resyncing u64 nat bool
  | Writing u64 nat
  | ReleasingSocket

record service =
  svc_own :: ControllerOwnership
  svc_bus :: "nat option"
  svc_tasks :: "task_phase list"

datatype task_event =
    ConfigReady
  | AcceptResult bool
  | BackoffDone
  | UpgradeResult bool
  | ListenerChange
  | TextResult bool
  | OwnershipChange
  | LockAcquired
  | Handled bool
  | Resynced
  | Written bool
  | SocketReleased

definition set_phase :: "nat \<Rightarrow> task_phase \<Rightarrow> service \<Rightarrow> service" where
  "set_phase i p s = s\<lparr>svc_tasks := (svc_tasks s)[i := p]\<rparr>"

text \<open>The session function returned: the generation is released and the socket reset.\<close>

definition end_session :: "nat \<Rightarrow> u64 \<Rightarrow> service \<Rightarrow> service" where
  "end_session i gen s = set_phase i ReleasingSocket (s\<lparr>svc_own := ownership_release gen (svc_own s)\<rparr>)"

text \<open>A new receiver takes the latest announcement; the session runs if it is its own generation.\<close>

definition start_session :: "nat \<Rightarrow> u64 \<Rightarrow> service \<Rightarrow> service" where
  "start_session i gen s =
     (let announced = last (changes_sent (svc_own s)) in
      if announced \<noteq> gen then end_session i gen s
      else set_phase i (Reading gen (length (changes_sent (svc_own s)))) s)"

text \<open>A round of \<open>claim\<close>, and the session that follows when it is granted.\<close>

definition claim_round :: "nat \<Rightarrow> nat \<Rightarrow> service \<Rightarrow> service" where
  "claim_round i seen s =
     (case claim_attempt (svc_own s) of
        (Some gen, own) \<Rightarrow> start_session i gen (s\<lparr>svc_own := own\<rparr>)
      | (None, own) \<Rightarrow> set_phase i (Claiming seen) (s\<lparr>svc_own := own\<rparr>))"

definition release_bus :: "bool \<Rightarrow> service \<Rightarrow> service" where
  "release_bus holding s = (if holding then s\<lparr>svc_bus := None\<rparr> else s)"

text \<open>The steps of a task outside a session.\<close>

definition service_step :: "nat \<Rightarrow> task_phase \<Rightarrow> task_event \<Rightarrow> service \<Rightarrow> service option" where
  "service_step i p e s =
     (case p of
        ConfigWait \<Rightarrow>
          if e = ConfigReady
          then Some (set_phase i Accepting (s\<lparr>svc_own := ownership_listener_ready (svc_own s)\<rparr>)) else None
      | Accepting \<Rightarrow>
          (case e of AcceptResult ok \<Rightarrow> Some (set_phase i (if ok then Upgrading else AcceptBackoff) s) | _ \<Rightarrow> None)
      | AcceptBackoff \<Rightarrow> if e = BackoffDone then Some (set_phase i ConfigWait s) else None
      | Upgrading \<Rightarrow>
          (case e of
             UpgradeResult ok \<Rightarrow> Some (if ok then claim_round i 0 s else set_phase i ReleasingSocket s)
           | _ \<Rightarrow> None)
      | Claiming seen \<Rightarrow>
          if e = ListenerChange \<and> seen < length (listener_changes_sent (svc_own s))
          then Some (claim_round i (length (listener_changes_sent (svc_own s))) s) else None
      | ReleasingSocket \<Rightarrow> if e = SocketReleased then Some (set_phase i ConfigWait s) else None
      | _ \<Rightarrow> None)"

definition superseded :: "nat \<Rightarrow> service \<Rightarrow> bool" where
  "superseded seen s \<longleftrightarrow> seen < length (changes_sent (svc_own s))"

text \<open>The steps of a session. \<open>Handled\<close> says whether there is a response; a command that
  is cancelled gives the UART back.\<close>

definition session_step :: "nat \<Rightarrow> task_phase \<Rightarrow> task_event \<Rightarrow> service \<Rightarrow> service option" where
  "session_step i p e s =
     (case p of
        Reading gen seen \<Rightarrow>
          (case e of
             TextResult ok \<Rightarrow>
               Some (if \<not> ok then end_session i gen s
                     else if \<not> ownership_is_current (svc_own s) gen then end_session i gen s
                     else set_phase i (Executing gen seen False) s)
           | OwnershipChange \<Rightarrow> if superseded seen s then Some (end_session i gen s) else None
           | _ \<Rightarrow> None)
      | Executing gen seen holding \<Rightarrow>
          (case e of
             LockAcquired \<Rightarrow>
               if \<not> holding \<and> svc_bus s = None
               then Some (set_phase i (Executing gen seen True) (s\<lparr>svc_bus := Some i\<rparr>)) else None
           | Handled responds \<Rightarrow>
               let s = release_bus holding s in
               Some (if \<not> responds then set_phase i (Reading gen seen) s
                     else if \<not> ownership_is_current (svc_own s) gen then end_session i gen s
                     else set_phase i (Writing gen seen) s)
           | OwnershipChange \<Rightarrow>
               if superseded seen s
               then Some (set_phase i (Resyncing gen seen False) (release_bus holding s)) else None
           | _ \<Rightarrow> None)
      | Resyncing gen seen holding \<Rightarrow>
          (case e of
             LockAcquired \<Rightarrow>
               if \<not> holding \<and> svc_bus s = None
               then Some (set_phase i (Resyncing gen seen True) (s\<lparr>svc_bus := Some i\<rparr>)) else None
           | Resynced \<Rightarrow> if holding then Some (end_session i gen (release_bus True s)) else None
           | _ \<Rightarrow> None)
      | Writing gen seen \<Rightarrow>
          (case e of
             Written ok \<Rightarrow> Some (if ok then set_phase i (Reading gen seen) s else end_session i gen s)
           | _ \<Rightarrow> None)
      | _ \<Rightarrow> None)"

definition is_session :: "task_phase \<Rightarrow> bool" where
  "is_session p = (case p of Reading _ _ \<Rightarrow> True | Executing _ _ _ \<Rightarrow> True
     | Resyncing _ _ _ \<Rightarrow> True | Writing _ _ \<Rightarrow> True | _ \<Rightarrow> False)"

definition svc_step :: "service \<Rightarrow> nat \<times> task_event \<Rightarrow> service option" where
  "svc_step s = (\<lambda>(i, e).
     if length (svc_tasks s) \<le> i then None
     else let p = svc_tasks s ! i in if is_session p then session_step i p e s else service_step i p e s)"

definition svc_initial :: service where
  "svc_initial = \<lparr>svc_own = ownership_new, svc_bus = None,
     svc_tasks = replicate CONTROLLER_TRANSPORT_SLOTS ConfigWait\<rparr>"

definition svc_start :: "service \<Rightarrow> bool" where
  "svc_start s \<longleftrightarrow> s = svc_initial"

text \<open>Generations are 64-bit counters: the executions considered grant fewer than \<open>2 ^ 64\<close> sessions.\<close>

definition svc_trans :: "service \<Rightarrow> nat \<times> task_event \<Rightarrow> service \<Rightarrow> bool" where
  "svc_trans s e t \<longleftrightarrow> svc_step s e = Some t \<and> length (changes_sent (svc_own t)) < 2 ^ 64"

section \<open>The invariant\<close>

text \<open>The position of a session among the grants: its receiver saw its own announcement last.\<close>

fun session_of :: "task_phase \<Rightarrow> (u64 \<times> nat) option" where
  "session_of (Reading gen seen) = Some (gen, seen)"
| "session_of (Executing gen seen _) = Some (gen, seen)"
| "session_of (Resyncing gen seen _) = Some (gen, seen)"
| "session_of (Writing gen seen) = Some (gen, seen)"
| "session_of _ = None"

fun holds_bus :: "task_phase \<Rightarrow> bool" where
  "holds_bus (Executing _ _ b) = b"
| "holds_bus (Resyncing _ _ b) = b"
| "holds_bus _ = False"

text \<open>A task that will announce a listener again before it can claim.\<close>

fun returning :: "nat \<Rightarrow> task_phase \<Rightarrow> bool" where
  "returning n ConfigWait = True"
| "returning n AcceptBackoff = True"
| "returning n ReleasingSocket = True"
| "returning n p = (case session_of p of Some (_, seen) \<Rightarrow> seen < n | None \<Rightarrow> False)"

definition grants :: "service \<Rightarrow> nat" where
  "grants s = length (changes_sent (svc_own s))"

definition grants_inv :: "service \<Rightarrow> bool" where
  "grants_inv s \<longleftrightarrow> grants s < 2 ^ 64 \<and> ownership_counter (svc_own s) = of_nat (grants s) \<and>
     (grants s \<noteq> 0 \<longrightarrow> last (changes_sent (svc_own s)) = of_nat (grants s)) \<and>
     (\<forall>i < length (svc_tasks s). \<forall>gen seen. session_of (svc_tasks s ! i) = Some (gen, seen) \<longrightarrow>
        gen = of_nat seen \<and> 0 < seen \<and> seen \<le> grants s) \<and>
     (\<forall>i < length (svc_tasks s). \<forall>j < length (svc_tasks s). \<forall>gen seen gen'.
        session_of (svc_tasks s ! i) = Some (gen, seen) \<longrightarrow> session_of (svc_tasks s ! j) = Some (gen', seen) \<longrightarrow> i = j)"

definition bus_inv :: "service \<Rightarrow> bool" where
  "bus_inv s \<longleftrightarrow> (\<forall>i. svc_bus s = Some i \<longleftrightarrow> i < length (svc_tasks s) \<and> holds_bus (svc_tasks s ! i))"

definition active_inv :: "service \<Rightarrow> bool" where
  "active_inv s \<longleftrightarrow> (active (current (svc_own s)) \<longleftrightarrow>
     (\<exists>i < length (svc_tasks s). \<exists>gen. session_of (svc_tasks s ! i) = Some (gen, grants s)))"

definition listener_inv :: "service \<Rightarrow> bool" where
  "listener_inv s \<longleftrightarrow> (listener_required (current (svc_own s)) \<longrightarrow>
     (\<exists>i < length (svc_tasks s). returning (grants s) (svc_tasks s ! i)))"

section \<open>What a step does\<close>

text \<open>To the ownership object and the phase of the task that moves.\<close>

inductive own_move :: "task_phase \<Rightarrow> ControllerOwnership \<Rightarrow> task_phase \<Rightarrow> ControllerOwnership \<Rightarrow> bool" where
  listen: "own_move ConfigWait own Accepting (ownership_listener_ready own)"
| move: "session_of q = session_of p \<Longrightarrow> (\<And>n. returning n p \<Longrightarrow> returning n q) \<Longrightarrow> own_move p own q own"
| grant: "claim_attempt own = (Some gen, own') \<Longrightarrow> session_of p = None \<Longrightarrow> (\<And>n. \<not> returning n p) \<Longrightarrow>
    own_move p own (Reading gen (length (changes_sent own'))) own'"
| finish: "session_of p = Some (gen, seen) \<Longrightarrow> own_move p own ReleasingSocket (ownership_release gen own)"

text \<open>To the UART mutex.\<close>

definition bus_move :: "nat \<Rightarrow> task_phase \<Rightarrow> nat option \<Rightarrow> task_phase \<Rightarrow> nat option \<Rightarrow> bool" where
  "bus_move i p b q b' \<longleftrightarrow>
     b' = b \<and> holds_bus q = holds_bus p \<or>
     b = None \<and> b' = Some i \<and> holds_bus q \<or>
     holds_bus p \<and> b' = None \<and> \<not> holds_bus q"

definition task_move :: "nat \<Rightarrow> service \<Rightarrow> service \<Rightarrow> bool" where
  "task_move i s t \<longleftrightarrow> (\<exists>q. i < length (svc_tasks s) \<and> svc_tasks t = (svc_tasks s)[i := q] \<and>
     own_move (svc_tasks s ! i) (svc_own s) q (svc_own t) \<and>
     bus_move i (svc_tasks s ! i) (svc_bus s) q (svc_bus t))"

lemmas svc_defs = set_phase_def end_session_def release_bus_def

lemma task_moveI:
  assumes "i < length (svc_tasks s)" "svc_tasks t = (svc_tasks s)[i := q]"
    "own_move (svc_tasks s ! i) (svc_own s) q (svc_own t)"
    "bus_move i (svc_tasks s ! i) (svc_bus s) q (svc_bus t)"
  shows "task_move i s t"
  using assms unfolding task_move_def by blast

lemma claim_round_moves:
  assumes "i < length (svc_tasks s)" "session_of (svc_tasks s ! i) = None" "\<not> holds_bus (svc_tasks s ! i)"
    "\<And>n. \<not> returning n (svc_tasks s ! i)"
  shows "task_move i s (claim_round i seen s)"
proof (cases "claim_attempt (svc_own s)")
  case (Pair r own')
  show ?thesis
  proof (cases r)
    case None
    with Pair have "own' = svc_own s" using own.claim_waits by blast
    with Pair None assms show ?thesis
      by (intro task_moveI [where q = "Claiming seen"])
         (auto simp: claim_round_def svc_defs bus_move_def intro!: own_move.intros)
  next
    case (Some gen)
    have "changes_sent own' = changes_sent (svc_own s) @ [gen]"
      using Pair Some by (auto simp: claim_attempt_def split: prod.splits ControllerAdmissionResult.splits)
    moreover have "own_move (svc_tasks s ! i) (svc_own s) (Reading gen (length (changes_sent own'))) own'"
      using Pair Some assms by (intro own_move.grant) auto
    ultimately show ?thesis
      using Pair Some assms
      by (intro task_moveI [where q = "Reading gen (length (changes_sent own'))"])
         (auto simp: claim_round_def start_session_def svc_defs bus_move_def)
  qed
qed

lemma end_session_moves:
  assumes "i < length (svc_tasks s)" "session_of (svc_tasks s ! i) = Some (gen, seen)"
  shows "task_move i s (end_session i gen (release_bus (holds_bus (svc_tasks s ! i)) s))"
  using assms
  by (intro task_moveI [where q = ReleasingSocket])
     (auto simp: svc_defs bus_move_def intro!: own_move.finish)

lemma set_phase_moves:
  assumes "i < length (svc_tasks s)" "svc_own s' = svc_own s" "svc_tasks s' = svc_tasks s"
    "session_of q = session_of (svc_tasks s ! i)" "\<And>n. returning n (svc_tasks s ! i) \<Longrightarrow> returning n q"
    "bus_move i (svc_tasks s ! i) (svc_bus s) q (svc_bus s')"
  shows "task_move i s (set_phase i q s')"
  using assms by (intro task_moveI [where q = q]) (auto simp: svc_defs intro!: own_move.move)

lemma service_step_moves:
  assumes "service_step i (svc_tasks s ! i) e s = Some t" "i < length (svc_tasks s)"
  shows "task_move i s t"
proof (cases "svc_tasks s ! i")
  case ConfigWait
  with assms show ?thesis
    by (intro task_moveI [where q = Accepting])
       (auto simp: service_step_def svc_defs bus_move_def intro!: own_move.listen split: if_splits)
next
  case Upgrading
  with assms show ?thesis
    by (auto simp: service_step_def bus_move_def intro!: claim_round_moves set_phase_moves
        split: task_event.splits if_splits)
next
  case (Claiming seen)
  with assms show ?thesis
    by (auto simp: service_step_def intro!: claim_round_moves split: if_splits)
qed (use assms in \<open>auto simp: service_step_def bus_move_def intro!: set_phase_moves
      split: task_event.splits if_splits\<close>)

lemma session_step_moves:
  assumes "session_step i (svc_tasks s ! i) e s = Some t" "i < length (svc_tasks s)"
  shows "task_move i s t"
proof (cases "svc_tasks s ! i")
  case (Reading gen seen)
  with assms end_session_moves [of i s gen seen] show ?thesis
    by (auto simp: session_step_def bus_move_def release_bus_def intro!: set_phase_moves
        split: task_event.splits if_splits)
next
  case (Executing gen seen holding)
  with assms end_session_moves [of i s gen seen] show ?thesis
    by (auto simp: session_step_def bus_move_def release_bus_def Let_def intro!: set_phase_moves
        split: task_event.splits if_splits)
next
  case (Resyncing gen seen holding)
  with assms end_session_moves [of i s gen seen] show ?thesis
    by (auto simp: session_step_def bus_move_def release_bus_def intro!: set_phase_moves
        split: task_event.splits if_splits)
next
  case (Writing gen seen)
  with assms end_session_moves [of i s gen seen] show ?thesis
    by (auto simp: session_step_def bus_move_def release_bus_def intro!: set_phase_moves
        split: task_event.splits if_splits)
qed (use assms in \<open>auto simp: session_step_def\<close>)

lemma svc_step_moves: "svc_step s (i, e) = Some t \<Longrightarrow> task_move i s t"
  by (auto simp: svc_step_def Let_def not_le intro: service_step_moves session_step_moves split: if_splits)

section \<open>The ownership object under the operations\<close>

lemma listener_ready_effect:
  "ownership_counter (ownership_listener_ready own) = ownership_counter own"
  "changes_sent (ownership_listener_ready own) = changes_sent own"
  "active (current (ownership_listener_ready own)) = active (current own)"
  "\<not> listener_required (current (ownership_listener_ready own))"
  by (simp_all add: ownership_listener_ready_def ownership_counter_def admission_defs)

lemma release_effect:
  "ownership_counter (ownership_release gen own) = ownership_counter own"
  "changes_sent (ownership_release gen own) = changes_sent own"
  "active (current (ownership_release gen own)) = (active (current own) \<and> gen \<noteq> ownership_counter own)"
  "listener_required (current (ownership_release gen own)) = listener_required (current own)"
  by (auto simp: ownership_release_def ownership_counter_def admission_defs)

lemma claim_effect:
  assumes "claim_attempt own = (Some gen, own')"
  shows "gen = ownership_counter own + 1" "ownership_counter own' = gen"
    "changes_sent own' = changes_sent own @ [gen]" "active (current own')"
    "listener_required (current own') = active (current own)" "\<not> listener_required (current own)"
  using own.claim_granted [OF assms] assms
  by (cases "listener_required (current own)"; auto simp: claim_attempt_def try_claim_cases)+

section \<open>Every step keeps the invariants\<close>

lemma of_nat_u64_inj: "m < 2 ^ 64 \<Longrightarrow> n < 2 ^ 64 \<Longrightarrow> (of_nat m :: u64) = of_nat n \<longleftrightarrow> m = n"
  by (auto simp: word_of_nat_eq_iff take_bit_nat_eq_self)

lemma bus_inv_step:
  assumes "bus_inv s" "task_move i s t"
  shows "bus_inv t"
proof -
  obtain q where q: "i < length (svc_tasks s)" "svc_tasks t = (svc_tasks s)[i := q]"
    "bus_move i (svc_tasks s ! i) (svc_bus s) q (svc_bus t)"
    using assms(2) unfolding task_move_def by blast
  have old: "svc_bus s = Some j \<longleftrightarrow> j < length (svc_tasks s) \<and> holds_bus (svc_tasks s ! j)" for j
    using assms(1) unfolding bus_inv_def by blast
  have "svc_bus t = Some j \<longleftrightarrow> j < length (svc_tasks t) \<and> holds_bus (svc_tasks t ! j)" for j
    using q old [of j] old [of i] by (cases "j = i") (auto simp: bus_move_def)
  then show ?thesis unfolding bus_inv_def by blast
qed

lemma grants_inv_step:
  assumes inv: "grants_inv s" and "task_move i s t" and lim: "grants t < 2 ^ 64"
  shows "grants_inv t"
proof -
  obtain q where q: "i < length (svc_tasks s)" "svc_tasks t = (svc_tasks s)[i := q]"
    and "own_move (svc_tasks s ! i) (svc_own s) q (svc_own t)"
    using assms(2) unfolding task_move_def by blast
  from this(3) show ?thesis
  proof cases
    case (grant gen)
    note e = claim_effect [OF grant(2)]
    have g: "grants t = Suc (grants s)" "gen = of_nat (grants t)"
      using e inv by (simp_all add: grants_def grants_inv_def)
    have sess: "session_of (svc_tasks t ! j) =
        (if j = i then Some (gen, grants t) else session_of (svc_tasks s ! j))" if "j < length (svc_tasks s)" for j
      using that q grant(1) by (auto simp: grants_def)
    show ?thesis
      using inv q lim e g sess unfolding grants_inv_def
      by (auto simp: grants_def [symmetric] split: if_splits)
  next
    case (finish gen seen)
    have "session_of (svc_tasks t ! j) = (if j = i then None else session_of (svc_tasks s ! j))"
      if "j < length (svc_tasks s)" for j
      using that q finish by auto
    then show ?thesis
      using inv q finish unfolding grants_inv_def
      by (auto simp: grants_def release_effect split: if_splits)
  next
    case listen
    then have "session_of (svc_tasks t ! j) = session_of (svc_tasks s ! j)" if "j < length (svc_tasks s)" for j
      using that q by (cases "j = i") auto
    then show ?thesis
      using inv q listen unfolding grants_inv_def by (auto simp: grants_def listener_ready_effect)
  next
    case move
    then have "session_of (svc_tasks t ! j) = session_of (svc_tasks s ! j)" if "j < length (svc_tasks s)" for j
      using that q by (cases "j = i") auto
    then show ?thesis
      using inv q move unfolding grants_inv_def by (auto simp: grants_def)
  qed
qed

lemma grants_inv_session:
  assumes "grants_inv s" "i < length (svc_tasks s)" "session_of (svc_tasks s ! i) = Some (gen, seen)"
  shows "gen = of_nat seen \<and> 0 < seen \<and> seen \<le> grants s"
  using assms unfolding grants_inv_def by simp

lemma grants_inv_unique:
  assumes "grants_inv s" "i < length (svc_tasks s)" "j < length (svc_tasks s)"
    "session_of (svc_tasks s ! i) = Some (g, seen)" "session_of (svc_tasks s ! j) = Some (h, seen)"
  shows "i = j"
  using assms unfolding grants_inv_def by simp

lemma grants_inv_counter:
  "grants_inv s \<Longrightarrow> grants s < 2 ^ 64 \<and> ownership_counter (svc_own s) = of_nat (grants s)"
  unfolding grants_inv_def by simp

text \<open>A session is current exactly when its receiver has seen the last announcement.\<close>

lemma current_iff_seen:
  assumes "grants_inv s" "i < length (svc_tasks s)" "session_of (svc_tasks s ! i) = Some (gen, seen)"
  shows "gen = ownership_counter (svc_own s) \<longleftrightarrow> seen = grants s"
  using grants_inv_session [OF assms] grants_inv_counter [OF assms(1)] by (simp add: of_nat_u64_inj)

lemma returning_session: "session_of p = Some (gen, seen) \<Longrightarrow> returning n p \<longleftrightarrow> seen < n"
  by (cases p) auto

lemma active_inv_step:
  assumes inv: "active_inv s" "grants_inv s" and "task_move i s t"
  shows "active_inv t"
proof -
  obtain q where q: "i < length (svc_tasks s)" "svc_tasks t = (svc_tasks s)[i := q]"
    and "own_move (svc_tasks s ! i) (svc_own s) q (svc_own t)"
    using assms(3) unfolding task_move_def by blast
  from this(3) show ?thesis
  proof cases
    case (grant gen)
    with q show ?thesis
      using claim_effect(4) [OF grant(2)] unfolding active_inv_def grants_def
      by (auto intro!: exI [of _ i])
  next
    case (finish gen seen)
    note cur = current_iff_seen [OF inv(2) q(1) finish(3)]
    have uniq: "j = i" if "j < length (svc_tasks s)" "session_of (svc_tasks s ! j) = Some (g, seen)" for j g
      using grants_inv_unique [OF inv(2) that(1) q(1) that(2) finish(3)] .
    have "(\<exists>j < length (svc_tasks t). \<exists>g. session_of (svc_tasks t ! j) = Some (g, grants s)) \<longleftrightarrow>
        (\<exists>j < length (svc_tasks s). \<exists>g. session_of (svc_tasks s ! j) = Some (g, grants s)) \<and> seen \<noteq> grants s"
      (is "?L \<longleftrightarrow> ?R \<and> _")
    proof
      assume ?L
      then obtain j g where j: "j < length (svc_tasks s)" "session_of (svc_tasks t ! j) = Some (g, grants s)"
        using q(2) by auto
      then have ne: "j \<noteq> i" using q(2) finish(1) j(1) by (metis nth_list_update_eq option.distinct(1) session_of.simps(10))
      then have "session_of (svc_tasks s ! j) = Some (g, grants s)" using j q(2) by simp
      with j(1) ne uniq show "?R \<and> seen \<noteq> grants s" by blast
    next
      assume "?R \<and> seen \<noteq> grants s"
      then obtain j g where j: "j < length (svc_tasks s)" "session_of (svc_tasks s ! j) = Some (g, grants s)"
        "seen \<noteq> grants s" by blast
      then have "j \<noteq> i" using finish(3) by auto
      with j q(2) show ?L by auto
    qed
    then show ?thesis
      using inv(1) finish cur by (simp add: active_inv_def grants_def release_effect)
  next
    case listen
    then have "session_of (svc_tasks t ! j) = session_of (svc_tasks s ! j)" if "j < length (svc_tasks s)" for j
      using that q by (cases "j = i") auto
    with inv(1) q listen show ?thesis
      by (auto simp: active_inv_def grants_def listener_ready_effect)
  next
    case move
    then have "session_of (svc_tasks t ! j) = session_of (svc_tasks s ! j)" if "j < length (svc_tasks s)" for j
      using that q by (cases "j = i") auto
    with inv(1) q move show ?thesis by (auto simp: active_inv_def grants_def)
  qed
qed

lemma listener_inv_step:
  assumes inv: "listener_inv s" "active_inv s" and "task_move i s t"
  shows "listener_inv t"
proof -
  obtain q where q: "i < length (svc_tasks s)" "svc_tasks t = (svc_tasks s)[i := q]"
    and "own_move (svc_tasks s ! i) (svc_own s) q (svc_own t)"
    using assms(3) unfolding task_move_def by blast
  from this(3) show ?thesis
  proof cases
    case (grant gen)
    note e = claim_effect [OF grant(2)]
    show ?thesis
    proof (cases "active (current (svc_own s))")
      case True
      then obtain j g where j: "j < length (svc_tasks s)" "session_of (svc_tasks s ! j) = Some (g, grants s)"
        using inv(2) unfolding active_inv_def by blast
      then have "j \<noteq> i" using grant(3) by auto
      then have "returning (grants t) (svc_tasks t ! j)"
        using q j e(3) returning_session [OF j(2)] by (simp add: grants_def)
      with j q show ?thesis unfolding listener_inv_def by auto
    next
      case False
      with e show ?thesis by (simp add: listener_inv_def)
    qed
  next
    case finish
    with q show ?thesis by (auto simp: listener_inv_def intro!: exI [of _ i])
  next
    case listen
    then show ?thesis by (simp add: listener_inv_def listener_ready_effect)
  next
    case move
    have "returning (grants s) (svc_tasks t ! j)" if "returning (grants s) (svc_tasks s ! j)" "j < length (svc_tasks s)" for j
      using that q move by (cases "j = i") auto
    with inv(1) q move show ?thesis by (auto simp: listener_inv_def grants_def)
  qed
qed

definition svc_inv :: "service \<Rightarrow> bool" where
  "svc_inv s \<longleftrightarrow> grants_inv s \<and> bus_inv s \<and> active_inv s \<and> listener_inv s \<and> length (svc_tasks s) = 3"

interpretation svc: invariant_system svc_start svc_trans svc_inv
proof unfold_locales
  fix s assume "svc_start s"
  then show "svc_inv s"
    by (auto simp: svc_start_def svc_initial_def svc_inv_def grants_inv_def bus_inv_def active_inv_def
        listener_inv_def grants_def ownership_new_def admission_new_def ownership_counter_def epoch_new_def
        CONTROLLER_TRANSPORT_SLOTS_def)
next
  fix s e t assume inv: "svc_inv s" and tr: "svc_trans s e t"
  obtain i ev where "e = (i, ev)" by (cases e)
  with tr have mv: "task_move i s t" and lim: "grants t < 2 ^ 64"
    by (auto simp: svc_trans_def grants_def intro: svc_step_moves)
  have "length (svc_tasks t) = length (svc_tasks s)"
    using mv unfolding task_move_def by auto
  with inv mv lim show "svc_inv t"
    unfolding svc_inv_def
    using bus_inv_step grants_inv_step active_inv_step listener_inv_step by metis
qed

section \<open>Concrete executions\<close>

lemma grants_step: "svc_step s (i, e) = Some t \<Longrightarrow> grants t \<le> Suc (grants s)"
proof -
  assume "svc_step s (i, e) = Some t"
  then obtain q where "own_move (svc_tasks s ! i) (svc_own s) q (svc_own t)"
    using svc_step_moves unfolding task_move_def by blast
  then show ?thesis
    by cases (auto simp: grants_def listener_ready_effect release_effect dest: claim_effect(3))
qed

lemma svc_run_from:
  assumes "reachable svc_start svc_trans s" "grants s + length es < 2 ^ 64" "run svc_step s es = Some t"
  shows "reachable svc_start svc_trans t"
  using assms
proof (induction es arbitrary: s)
  case Nil
  then show ?case by simp
next
  case (Cons e es)
  then obtain u where u: "svc_step s e = Some u" "run svc_step u es = Some t" by (auto split: option.splits)
  have g: "grants u \<le> Suc (grants s)" using u(1) grants_step by (cases e) simp
  then have "svc_trans s e u" using u(1) Cons.prems(2) by (simp add: svc_trans_def grants_def)
  with Cons.prems(1) have "reachable svc_start svc_trans u" by (rule reachable_step)
  then show ?case using Cons.IH u(2) g Cons.prems(2) by simp
qed

lemma svc_run_reachable:
  assumes "run svc_step svc_initial es = Some s" "length es < 100"
  shows "reachable svc_start svc_trans s"
  by (rule svc_run_from [OF reachable_start _ assms(1)])
     (use assms(2) in \<open>simp_all add: svc_start_def svc_initial_def grants_def ownership_new_def\<close>)

text \<open>All three sockets listen; a client connects on the first and sends a command.\<close>

definition first_session :: "(nat \<times> task_event) list" where
  "first_session = [(0, ConfigReady), (1, ConfigReady), (2, ConfigReady), (0, AcceptResult True),
     (0, UpgradeResult True), (0, TextResult True)]"

text \<open>While its response is being written, a second client takes over on the second socket.\<close>

definition handover :: "(nat \<times> task_event) list" where
  "handover = first_session @ [(0, Handled True), (1, AcceptResult True), (1, UpgradeResult True)]"

text \<open>The third socket rejects a handshake, listens again and accepts a third client.\<close>

definition rejected_then_accepted :: "(nat \<times> task_event) list" where
  "rejected_then_accepted = [(2, AcceptResult True), (2, UpgradeResult False), (2, SocketReleased),
     (2, ConfigReady), (2, AcceptResult True)]"

definition phases_after :: "(nat \<times> task_event) list \<Rightarrow> task_phase list option" where
  "phases_after es = map_option svc_tasks (run svc_step svc_initial es)"

lemma first_session_phases: "phases_after first_session = Some [Executing 1 1 False, Accepting, Accepting]"
  by code_simp

lemma handover_phases: "phases_after handover = Some [Writing 1 1, Reading 2 2, Accepting]"
  by code_simp

lemma rejected_phases:
  "phases_after (handover @ rejected_then_accepted) = Some [Writing 1 1, Reading 2 2, Upgrading]"
  by code_simp

lemma short_runs:
  "length (first_session @ [e]) < 100" "length (handover @ [e]) < 100" "length handover < 100"
  by (simp_all add: first_session_def handover_def)

section \<open>Properties\<close>



text \<open>C4. Only the newest session starts commands: whenever a task begins to handle a request, its generation
  is the current one and no other live session has the current generation.\<close>
theorem only_newest_session_commands:
  assumes "reachable svc_start svc_trans s" "svc_trans s (i, e) t" "svc_tasks t ! i = Executing gen seen False"
    and "\<nexists>b. svc_tasks s ! i = Executing gen seen b"
  shows "ownership_is_current (svc_own s) gen \<and>
    (\<forall>j < 3. \<forall>g n. j \<noteq> i \<longrightarrow> session_of (svc_tasks s ! j) = Some (g, n) \<longrightarrow> \<not> ownership_is_current (svc_own s) g)"
proof -
  have step: "svc_step s (i, e) = Some t" using assms(2) by (simp add: svc_trans_def)
  then have i: "i < length (svc_tasks s)" by (auto simp: svc_step_def split: if_splits)
  have rd: "svc_tasks s ! i = Reading gen seen \<and> ownership_is_current (svc_own s) gen"
  proof (cases "svc_tasks s ! i")
    case (Reading g n)
    with step assms(3) i show ?thesis
      by (auto simp: svc_step_def session_step_def is_session_def svc_defs split: task_event.splits if_splits)
  qed (use step assms(3,4) i in \<open>auto simp: svc_step_def session_step_def service_step_def is_session_def svc_defs
        claim_round_def start_session_def Let_def split: task_event.splits if_splits prod.splits option.splits\<close>)
  have inv: "grants_inv s" "length (svc_tasks s) = 3"
    using svc.inv_reachable [OF assms(1)] by (simp_all add: svc_inv_def)
  have "\<not> ownership_is_current (svc_own s) g" if "j < 3" "j \<noteq> i" "session_of (svc_tasks s ! j) = Some (g, n)" for j g n
    using current_iff_seen [OF inv(1), of j g n] current_iff_seen [OF inv(1) i, of gen seen]
      grants_inv_unique [OF inv(1), of j i g n gen] that rd i inv(2)
    by (auto simp: own.is_current_iff)
  with rd show ?thesis by blast
qed

theorem only_newest_session_commands_witness:
  "\<exists>s t. run svc_step svc_initial (handover @ [(1, TextResult True)]) = Some t \<and>
     run svc_step svc_initial handover = Some s \<and> svc_tasks t = [Writing 1 1, Executing 2 2 False, Accepting] \<and>
     ownership_is_current (svc_own s) 2 \<and> \<not> ownership_is_current (svc_own s) 1"
proof -
  have "map_option (\<lambda>s. (svc_tasks s, length (changes_sent (svc_own s))))
      (run svc_step svc_initial (handover @ [(1, TextResult True)])) =
      Some ([Writing 1 1, Executing 2 2 False, Accepting], 2)"
    by code_simp
  then obtain s t where st: "run svc_step svc_initial handover = Some s" "svc_step s (1, TextResult True) = Some t"
    "svc_tasks t = [Writing 1 1, Executing 2 2 False, Accepting]" "length (changes_sent (svc_own t)) = 2"
    by (auto simp: run_append split: option.splits)
  have s: "svc_tasks s = [Writing 1 1, Reading 2 2, Accepting]"
    using handover_phases st(1) by (simp add: phases_after_def)
  have "svc_trans s (1, TextResult True) t" using st(2,4) by (simp add: svc_trans_def)
  from only_newest_session_commands [OF svc_run_reachable [OF st(1) short_runs(3)] this, of 2 2] st s
  have "ownership_is_current (svc_own s) 2 \<and> \<not> ownership_is_current (svc_own s) 1"
    by (auto simp: less_Suc_eq numeral_3_eq_3)
  with st show ?thesis by (auto simp: run_append)
qed

text \<open>C23. A replaced session always learns of it: in every reachable state a session that waits for a request
  or runs a command and whose generation is no longer current has an ownership change pending, and
  taking it ends the session or cancels its command.\<close>
theorem superseded_session_is_told:
  assumes "reachable svc_start svc_trans s" "i < 3" "\<not> ownership_is_current (svc_own s) gen"
    and "svc_tasks s ! i = Reading gen seen \<or> (\<exists>b. svc_tasks s ! i = Executing gen seen b)"
  shows "\<exists>t. svc_step s (i, OwnershipChange) = Some t \<and>
    (svc_tasks t ! i = ReleasingSocket \<or> svc_tasks t ! i = Resyncing gen seen False)"
proof -
  have inv: "grants_inv s" and len: "length (svc_tasks s) = 3"
    using svc.inv_reachable [OF assms(1)] by (simp_all add: svc_inv_def)
  have sess: "session_of (svc_tasks s ! i) = Some (gen, seen)" using assms(4) by auto
  have "superseded seen s"
    using current_iff_seen [OF inv _ sess] grants_inv_session [OF inv _ sess] assms(2,3) len
    by (auto simp: superseded_def grants_def own.is_current_iff)
  with assms(2,4) len show ?thesis
    by (auto simp: svc_step_def is_session_def session_step_def svc_defs)
qed

theorem superseded_session_is_told_witness:
  "\<exists>s t. run svc_step svc_initial (handover @ [(0, Written True)]) = Some s \<and>
     svc_step s (0, OwnershipChange) = Some t \<and> svc_tasks t ! 0 = ReleasingSocket"
proof -
  let ?p = "[Reading 1 1, Reading 2 2, Accepting]"
  let ?f = "\<lambda>s. (svc_tasks s, ownership_is_current (svc_own s) 1)"
  have "map_option ?f (run svc_step svc_initial (handover @ [(0, Written True)])) = Some (?p, False)"
    by code_simp
  then obtain s where s: "run svc_step svc_initial (handover @ [(0, Written True)]) = Some s"
    "svc_tasks s = ?p" "\<not> ownership_is_current (svc_own s) 1" by auto
  then show ?thesis
    using superseded_session_is_told [OF svc_run_reachable [OF s(1) short_runs(2)], of 0 1 1]
    by (auto simp: svc_step_def is_session_def session_step_def svc_defs split: if_splits)
qed

text \<open>C25. A client that waits for admission never waits in vain: in every reachable state, if admission is held
  back for a listener, some task is on its way to announce one, as a replaced session, or releasing its
  socket, or about to listen. And the admission flag is exact: a session counts as active exactly when
  some task serves the current generation.\<close>
theorem admission_never_stuck:
  assumes "reachable svc_start svc_trans s"
  shows "(listener_required (current (svc_own s)) \<longrightarrow>
      (\<exists>i < 3. returning (grants s) (svc_tasks s ! i))) \<and>
    (active (current (svc_own s)) \<longleftrightarrow>
      (\<exists>i < 3. \<exists>gen seen. session_of (svc_tasks s ! i) = Some (gen, seen) \<and> ownership_is_current (svc_own s) gen))"
proof -
  have inv: "grants_inv s" "active_inv s" "listener_inv s" and len: "length (svc_tasks s) = 3"
    using svc.inv_reachable [OF assms] by (simp_all add: svc_inv_def)
  have "(\<exists>gen. session_of (svc_tasks s ! i) = Some (gen, grants s)) \<longleftrightarrow>
      (\<exists>gen seen. session_of (svc_tasks s ! i) = Some (gen, seen) \<and> ownership_is_current (svc_own s) gen)"
    if "i < 3" for i
    using current_iff_seen [OF inv(1)] that len unfolding own.is_current_iff by metis
  then have "(\<exists>i < 3. \<exists>gen. session_of (svc_tasks s ! i) = Some (gen, grants s)) \<longleftrightarrow>
      (\<exists>i < 3. \<exists>gen seen. session_of (svc_tasks s ! i) = Some (gen, seen) \<and> ownership_is_current (svc_own s) gen)"
    by blast
  with inv(2,3) show ?thesis unfolding active_inv_def listener_inv_def len by blast
qed

theorem admission_never_stuck_witness:
  "\<exists>s. run svc_step svc_initial handover = Some s \<and> listener_required (current (svc_own s)) \<and>
     (\<exists>i < 3. returning (grants s) (svc_tasks s ! i))"
proof -
  have "map_option (\<lambda>s. listener_required (current (svc_own s))) (run svc_step svc_initial handover) = Some True"
    by code_simp
  then obtain s where s: "run svc_step svc_initial handover = Some s" "listener_required (current (svc_own s))"
    by auto
  with admission_never_stuck [OF svc_run_reachable [OF s(1) short_runs(3)]] show ?thesis by auto
qed

text \<open>The admission gate is opened by any transport, not only by the retiring one: after a handover, while
  the replaced session still writes its response, a third socket that rejected a handshake and listens
  again clears the hold, and the next client takes over at once. Then all three sockets are busy and
  none listens, although the transport of the first session never returned.\<close>
theorem gate_opened_by_other_transport:
  "\<exists>s t. run svc_step svc_initial (handover @ rejected_then_accepted) = Some s \<and>
     svc_tasks s = [Writing 1 1, Reading 2 2, Upgrading] \<and>
     svc_step s (2, UpgradeResult True) = Some t \<and> svc_tasks t = [Writing 1 1, Reading 2 2, Reading 3 3]"
proof -
  have "phases_after (handover @ rejected_then_accepted @ [(2, UpgradeResult True)]) =
      Some [Writing 1 1, Reading 2 2, Reading 3 3]"
    by code_simp
  moreover obtain s where s: "run svc_step svc_initial (handover @ rejected_then_accepted) = Some s"
    "svc_tasks s = [Writing 1 1, Reading 2 2, Upgrading]"
    using rejected_phases by (auto simp: phases_after_def)
  ultimately show ?thesis
    unfolding phases_after_def append_assoc [symmetric] run_append
    by (auto split: option.splits)
qed

end
