(* ===== verification/Utf8.thy ===== *)
theory Utf8
  imports Fetchline_Prelude
begin

text \<open>
  Text in Rust is a byte sequence that is valid UTF-8. This theory models what the sources use of
  it: the validation of \<open>core::str::from_utf8\<close>, and \<open>str::trim\<close> and the
  ASCII case-insensitive comparison that the WebSocket handshake applies to header lines. A
  \<open>str\<close> is its list of bytes.
\<close>

section \<open>Definitions\<close>

definition continuation :: "u8 \<Rightarrow> bool" where
  "continuation b \<longleftrightarrow> 0x80 \<le> b \<and> b \<le> 0xbf"

text \<open>The well-formed byte sequences of the Unicode standard, as \<open>from_utf8\<close> checks them:
  no overlong forms, no surrogates, nothing above U+10FFFF.\<close>

definition utf8_width :: "u8 \<Rightarrow> nat" where
  "utf8_width a =
     (if a \<le> 0x7f then 1
      else if 0xc2 \<le> a \<and> a \<le> 0xdf then 2
      else if 0xe0 \<le> a \<and> a \<le> 0xef then 3
      else if 0xf0 \<le> a \<and> a \<le> 0xf4 then 4
      else 0)"

definition utf8_second :: "u8 \<Rightarrow> u8 \<Rightarrow> bool" where
  "utf8_second a b \<longleftrightarrow>
     (if a = 0xe0 then 0xa0 \<le> b else if a = 0xed then b \<le> 0x9f
      else if a = 0xf0 then 0x90 \<le> b else if a = 0xf4 then b \<le> 0x8f else True)"

definition utf8_head :: "u8 list \<Rightarrow> nat option" where
  "utf8_head bs =
     (case bs of
        [] \<Rightarrow> None
      | a # r \<Rightarrow>
          let w = utf8_width a in
          if 0 < w \<and> w \<le> length bs \<and> list_all continuation (take (w - 1) r) \<and>
             (if 1 < w then utf8_second a (r ! 0) else True)
          then Some w else None)"

lemma utf8_head_bounds: "utf8_head bs = Some n \<Longrightarrow> 0 < n \<and> n \<le> length bs"
  by (auto simp: utf8_head_def Let_def split: list.splits if_splits)

function valid_utf8 :: "u8 list \<Rightarrow> bool" where
  "valid_utf8 bs =
     (if bs = [] then True
      else case utf8_head bs of Some n \<Rightarrow> valid_utf8 (drop n bs) | None \<Rightarrow> False)"
  by auto
termination
  by (relation "measure length") (auto dest: utf8_head_bounds)

declare valid_utf8.simps [simp del]

definition ascii :: "string \<Rightarrow> u8 list" where
  "ascii s = map (\<lambda>c. of_nat (of_char c)) s"

definition to_ascii_lowercase :: "u8 \<Rightarrow> u8" where
  "to_ascii_lowercase b = (if 0x41 \<le> b \<and> b \<le> 0x5a then b + 0x20 else b)"

definition eq_ignore_ascii_case :: "u8 list \<Rightarrow> u8 list \<Rightarrow> bool" where
  "eq_ignore_ascii_case xs ys \<longleftrightarrow> map to_ascii_lowercase xs = map to_ascii_lowercase ys"

text \<open>The encodings of the characters with the Unicode property \<open>White_Space\<close>.\<close>

definition white_space :: "u8 list list" where
  "white_space =
     [[0x09], [0x0a], [0x0b], [0x0c], [0x0d], [0x20], [0xc2, 0x85], [0xc2, 0xa0], [0xe1, 0x9a, 0x80]] @
     map (\<lambda>b. [0xe2, 0x80, b])
       [0x80, 0x81, 0x82, 0x83, 0x84, 0x85, 0x86, 0x87, 0x88, 0x89, 0x8a, 0xa8, 0xa9, 0xaf] @
     [[0xe2, 0x81, 0x9f], [0xe3, 0x80, 0x80]]"

definition drop_prefix :: "u8 list list \<Rightarrow> u8 list \<Rightarrow> u8 list option" where
  "drop_prefix ps bs = map_option (\<lambda>p. drop (length p) bs)
     (find (\<lambda>p. p \<noteq> [] \<and> take (length p) bs = p) ps)"

lemma drop_prefix_shorter: "drop_prefix ps bs = Some r \<Longrightarrow> length r < length bs"
  by (cases "bs = []") (auto simp: drop_prefix_def find_Some_iff)

function strip_prefixes :: "u8 list list \<Rightarrow> u8 list \<Rightarrow> u8 list" where
  "strip_prefixes ps bs =
     (case drop_prefix ps bs of Some r \<Rightarrow> strip_prefixes ps r | None \<Rightarrow> bs)"
  by auto
termination
  by (relation "measure (\<lambda>(ps, bs). length bs)") (auto dest: drop_prefix_shorter)

declare strip_prefixes.simps [simp del]

text \<open>On a valid string the characters at the end are found by their bytes read backwards, because
  no encoding is a proper suffix of another.\<close>

definition trim :: "u8 list \<Rightarrow> u8 list" where
  "trim s = rev (strip_prefixes (map rev white_space) (rev (strip_prefixes white_space s)))"

section \<open>Lemmas\<close>

lemma valid_utf8_Nil [simp]: "valid_utf8 []"
  by (simp add: valid_utf8.simps)

lemma utf8_head_append: "utf8_head xs = Some n \<Longrightarrow> utf8_head (xs @ ys) = Some n"
  by (auto simp: utf8_head_def Let_def nth_append split: list.splits if_splits)

lemma valid_utf8_append: "valid_utf8 xs \<Longrightarrow> valid_utf8 ys \<Longrightarrow> valid_utf8 (xs @ ys)"
proof (induction xs rule: valid_utf8.induct)
  case (1 xs)
  show ?case
  proof (cases "xs = []")
    case False
    with "1.prems" obtain n where n: "utf8_head xs = Some n" "valid_utf8 (drop n xs)"
      by (subst (asm) valid_utf8.simps) (auto split: option.splits)
    then have "valid_utf8 (drop n xs @ ys)" using 1 False by simp
    then show ?thesis
      using n utf8_head_append [OF n(1), of ys] utf8_head_bounds [OF n(1)]
      by (subst valid_utf8.simps) simp
  qed (use "1.prems" in simp)
qed

lemma valid_utf8_ascii_Cons: "b \<le> 0x7f \<Longrightarrow> valid_utf8 (b # bs) = valid_utf8 bs"
  by (subst valid_utf8.simps) (simp add: utf8_head_def utf8_width_def)

lemma valid_utf8_ascii_bytes: "list_all (\<lambda>b. b \<le> 0x7f) bs \<Longrightarrow> valid_utf8 bs"
  by (induction bs) (auto simp: valid_utf8_ascii_Cons)

lemma ascii_simps [simp]: "ascii [] = []" "ascii (c # s) = of_nat (of_char c) # ascii s"
  "length (ascii s) = length s" "ascii (s @ t) = ascii s @ ascii t"
  by (simp_all add: ascii_def)

lemma strip_prefixes_fixed: "drop_prefix ps bs = None \<Longrightarrow> strip_prefixes ps bs = bs"
  by (simp add: strip_prefixes.simps)

end
