(* ===== verification/Wifi_Config.thy ===== *)
theory Wifi_Config
  imports Utf8
begin

text \<open>
  The Wi-Fi credential record: \<open>src/host/src/bin/provision-wifi.rs\<close> builds the image that
  is written to flash, and \<open>load_wifi_credentials\<close> of \<open>src/src/bin/main.rs\<close>
  reads it at start-up. The flash reader of the ESP ROM is a parameter: it gives the bytes at an
  offset, or fails.
\<close>

section \<open>The provisioning tool\<close>

definition CONFIG_SIZE :: nat where "CONFIG_SIZE = 4096"
definition SSID_MAX_LEN :: nat where "SSID_MAX_LEN = 32"
definition PASSWORD_MAX_LEN :: nat where "PASSWORD_MAX_LEN = 63"

definition fnv_step :: "u8 \<Rightarrow> u32 \<Rightarrow> u32" where
  "fnv_step byte hash = (hash XOR ucast byte) * 0x01000193"

definition provision_checksum :: "u8 list \<Rightarrow> u8 list \<Rightarrow> u32" where
  "provision_checksum header payload = fold fnv_step (header @ payload) 0x811c9dc5"

text \<open>The error is the message of the tool.\<close>

datatype provision_error = BadLengths

definition config_image :: "u8 list \<Rightarrow> u8 list \<Rightarrow> (provision_error + u8 list) option" where
  "config_image ssid password =
     (if ssid = [] \<or> length ssid > SSID_MAX_LEN \<or> length password > PASSWORD_MAX_LEN
      then Some (Inl BadLengths)
      else do {
        let image = replicate CONFIG_SIZE 0xff;
        image \<leftarrow> copy_from_slice image 0 4 (ascii ''FLWC'');
        image \<leftarrow> set_index image 4 1;
        image \<leftarrow> set_index image 5 (of_nat (length ssid));
        image \<leftarrow> set_index image 6 (of_nat (length password));
        image \<leftarrow> copy_from_slice image 12 (12 + length ssid) ssid;
        image \<leftarrow> copy_from_slice image (12 + length ssid) (12 + length ssid + length password) password;
        header \<leftarrow> subslice image 0 8;
        payload \<leftarrow> subslice image 12 (12 + length ssid + length password);
        image \<leftarrow> copy_from_slice image 8 12 (to_le_bytes32 (provision_checksum header payload));
        Some (Inr image)
      })"

text \<open>The line that \<open>prompt\<close> read, without its line terminator.\<close>

definition prompt_value :: "u8 list \<Rightarrow> u8 list" where
  "prompt_value value = rev (dropWhile (\<lambda>b. b = 0x0d \<or> b = 0x0a) (rev value))"

section \<open>The firmware\<close>

definition WIFI_CONFIG_FLASH_OFFSET :: nat where "WIFI_CONFIG_FLASH_OFFSET = 0x003f0000"
definition WIFI_CONFIG_MAGIC :: "u8 list" where "WIFI_CONFIG_MAGIC = ascii ''FLWC''"
definition WIFI_CONFIG_VERSION :: u8 where "WIFI_CONFIG_VERSION = 1"
definition WIFI_SSID_MAX_LEN :: nat where "WIFI_SSID_MAX_LEN = 32"
definition WIFI_PASSWORD_MAX_LEN :: nat where "WIFI_PASSWORD_MAX_LEN = 63"
definition WIFI_CONFIG_READ_SIZE :: nat where "WIFI_CONFIG_READ_SIZE = 108"

record WifiCredentials =
  wc_ssid :: "u8 list"
  wc_ssid_len :: nat
  wc_password :: "u8 list"
  wc_password_len :: nat

definition wifi_config_checksum :: "u8 list \<Rightarrow> u8 list \<Rightarrow> u32" where
  "wifi_config_checksum header payload =
     fold (\<lambda>byte hash. (hash XOR ucast byte) * 0x01000193) (header @ payload) 0x811c9dc5"

text \<open>The outer option is the panic, the inner one the function's own result. The reader fills a
  buffer of the requested size.\<close>

definition load_wifi_credentials ::
  "(nat \<Rightarrow> nat \<Rightarrow> u8 list option) \<Rightarrow> WifiCredentials option option" where
  "load_wifi_credentials rom_read =
     (case rom_read WIFI_CONFIG_FLASH_OFFSET WIFI_CONFIG_READ_SIZE of
        None \<Rightarrow> Some None
      | Some bytes \<Rightarrow> do {
          magic \<leftarrow> subslice bytes 0 4;
          version \<leftarrow> index bytes 4;
          if magic \<noteq> WIFI_CONFIG_MAGIC \<or> version \<noteq> WIFI_CONFIG_VERSION then Some None
          else do {
            ssid_len \<leftarrow> map_option unat (index bytes 5);
            password_len \<leftarrow> map_option unat (index bytes 6);
            if ssid_len = 0 \<or> ssid_len > WIFI_SSID_MAX_LEN \<or> password_len > WIFI_PASSWORD_MAX_LEN
            then Some None
            else do {
              let payload_len = ssid_len + password_len;
              stored \<leftarrow> subslice bytes 8 12;
              let expected_checksum = from_le_bytes32 (stored ! 0) (stored ! 1) (stored ! 2) (stored ! 3);
              header \<leftarrow> subslice bytes 0 8;
              payload \<leftarrow> subslice bytes 12 (12 + payload_len);
              if wifi_config_checksum header payload \<noteq> expected_checksum then Some None
              else do {
                ssid_bytes \<leftarrow> subslice bytes 12 (12 + ssid_len);
                ssid \<leftarrow> copy_from_slice (replicate WIFI_SSID_MAX_LEN 0) 0 ssid_len ssid_bytes;
                password_bytes \<leftarrow> subslice bytes (12 + ssid_len) (12 + payload_len);
                password \<leftarrow> copy_from_slice (replicate WIFI_PASSWORD_MAX_LEN 0) 0 password_len password_bytes;
                let credentials = \<lparr>wc_ssid = ssid, wc_ssid_len = ssid_len,
                                   wc_password = password, wc_password_len = password_len\<rparr>;
                s \<leftarrow> subslice ssid 0 ssid_len;
                p \<leftarrow> subslice password 0 password_len;
                if \<not> valid_utf8 s then Some None
                else if \<not> valid_utf8 p then Some None
                else Some (Some credentials)
              }
            }
          }
        })"

section \<open>The layout of the record\<close>

definition wifi_header :: "u8 list \<Rightarrow> u8 list \<Rightarrow> u8 list" where
  "wifi_header ssid pw = ascii ''FLWC'' @ [1, of_nat (length ssid), of_nat (length pw), 0xff]"

definition wifi_record :: "u8 list \<Rightarrow> u8 list \<Rightarrow> u8 list" where
  "wifi_record ssid pw =
     wifi_header ssid pw @ to_le_bytes32 (wifi_config_checksum (wifi_header ssid pw) (ssid @ pw)) @ ssid @ pw"

lemma provision_checksum_eq: "provision_checksum = wifi_config_checksum"
  by (simp add: fun_eq_iff provision_checksum_def wifi_config_checksum_def fnv_step_def [abs_def])

lemma replicate_12: "replicate 12 x = [x, x, x, x, x, x, x, x, x, x, x, x]"
  by (simp add: numeral_eq_Suc)

lemma config_image_layout:
  assumes "ssid \<noteq> []" "length ssid \<le> 32" "length pw \<le> 63"
  shows "config_image ssid pw =
    Some (Inr (wifi_record ssid pw @ replicate (4084 - length ssid - length pw) 0xff))"
proof -
  let ?n = "length ssid" and ?m = "length pw" and ?f = "0xff :: u8"
  define R where "R = replicate (4084 - ?n - ?m) ?f"
  let ?tail = "replicate ?n ?f @ replicate ?m ?f @ R"
  have size: "CONFIG_SIZE = 12 + (?n + (?m + (4084 - ?n - ?m)))" using assms by (simp add: CONFIG_SIZE_def)
  have img: "replicate CONFIG_SIZE ?f = [?f, ?f, ?f, ?f, ?f, ?f, ?f, ?f, ?f, ?f, ?f, ?f] @ ?tail"
    unfolding size R_def replicate_add replicate_12 by (rule refl)
  let ?head = "ascii ''FLWC'' @ [1, of_nat ?n, of_nat ?m, ?f, ?f, ?f, ?f, ?f]"
  have one: "copy_from_slice (replicate CONFIG_SIZE ?f) 0 4 (ascii ''FLWC'') =
      Some (ascii ''FLWC'' @ [?f, ?f, ?f, ?f, ?f, ?f, ?f, ?f] @ ?tail)"
    unfolding img using copy_middle [of "[]" 0 "[?f, ?f, ?f, ?f]" 4 "ascii ''FLWC''"] by simp
  have two: "copy_from_slice (?head @ ?tail) 12 (12 + ?n) ssid = Some (?head @ ssid @ replicate ?m ?f @ R)"
    using copy_middle [of ?head 12 "replicate ?n ?f" "12 + ?n" ssid "replicate ?m ?f @ R"] by simp
  have three: "copy_from_slice (?head @ ssid @ replicate ?m ?f @ R) (12 + ?n) (12 + ?n + ?m) pw =
      Some (?head @ ssid @ pw @ R)"
    using copy_middle [of "?head @ ssid" "12 + ?n" "replicate ?m ?f" "12 + ?n + ?m" pw R] by simp
  have four: "subslice (?head @ ssid @ pw @ R) 12 (12 + ?n + ?m) = Some (ssid @ pw)"
    using subslice_middle [of ?head 12 "ssid @ pw" "12 + ?n + ?m" R] by simp
  have five: "subslice (?head @ ssid @ pw @ R) 0 8 = Some (wifi_header ssid pw)"
    using subslice_middle [of "[]" 0 "wifi_header ssid pw" 8] by (simp add: wifi_header_def)
  have six: "copy_from_slice (?head @ ssid @ pw @ R) 8 12 (to_le_bytes32 c) =
      Some (wifi_header ssid pw @ to_le_bytes32 c @ ssid @ pw @ R)" for c
    using copy_middle [of "wifi_header ssid pw" 8 "[?f, ?f, ?f, ?f]" 12 "to_le_bytes32 c"]
    by (simp add: wifi_header_def)
  show ?thesis
    using assms one two three four five six
    by (simp add: config_image_def SSID_MAX_LEN_def PASSWORD_MAX_LEN_def Let_def
        set_index_in_range wifi_record_def provision_checksum_eq R_def)
qed

section \<open>The checksum\<close>

lemma wifi_config_checksum_fnv: "wifi_config_checksum h p = fold fnv_step (h @ p) 0x811c9dc5"
  by (simp add: wifi_config_checksum_def fnv_step_def [abs_def])

lemma fnv_prime_cancel: "(x :: u32) * 0x01000193 = y * 0x01000193 \<Longrightarrow> x = y"
proof -
  have inv: "(0x01000193 :: u32) * 0x359c449b = 1" by simp
  assume "x * 0x01000193 = y * 0x01000193"
  then have "x * 0x01000193 * 0x359c449b = y * 0x01000193 * 0x359c449b" by (rule arg_cong)
  then have "x * (0x01000193 * 0x359c449b) = y * (0x01000193 * 0x359c449b)" by (simp only: mult.assoc)
  then show "x = y" unfolding inv by simp
qed

lemma xor_cancel_u32: "(a :: u32) XOR b = a XOR c \<Longrightarrow> b = c"
  by (metis bit.xor_left_self)

lemma ucast_u8_u32_inj: "(ucast (a :: u8) :: u32) = ucast b \<Longrightarrow> a = b"
proof -
  have narrow: "ucast (ucast c :: u32) = c" for c :: u8
    by (rule bit_word_eqI) (simp add: bit_simps)
  assume "(ucast a :: u32) = ucast b"
  then show "a = b" by (metis narrow)
qed

lemma fnv_step_inj:
  "fnv_step a h = fnv_step a h' \<Longrightarrow> h = h'"
  "fnv_step a h = fnv_step b h \<Longrightarrow> a = b"
  unfolding fnv_step_def
  by (metis fnv_prime_cancel xor_cancel_u32 xor.commute)
     (metis fnv_prime_cancel xor_cancel_u32 ucast_u8_u32_inj)

lemma fnv_fold_inj: "fold fnv_step xs h = fold fnv_step xs h' \<Longrightarrow> h = h'"
  by (induction xs arbitrary: h h') (auto dest: fnv_step_inj)

lemma fnv_detects:
  assumes "i < length xs" "b \<noteq> xs ! i"
  shows "fold fnv_step (xs[i := b]) h \<noteq> fold fnv_step xs h"
proof
  assume eq: "fold fnv_step (xs[i := b]) h = fold fnv_step xs h"
  let ?h = "fold fnv_step (take i xs) h"
  have "fold fnv_step (drop (Suc i) xs) (fnv_step b ?h) = fold fnv_step (drop (Suc i) xs) (fnv_step (xs ! i) ?h)"
    using eq id_take_nth_drop [OF assms(1)] upd_conv_take_nth_drop [OF assms(1), of b]
    by (metis fold_append comp_apply fold_simps(2))
  then have "b = xs ! i" by (metis fnv_fold_inj fnv_step_inj(2))
  with assms show False by simp
qed

lemma le_bytes32_inj: "to_le_bytes32 v = to_le_bytes32 w \<Longrightarrow> v = w"
  unfolding to_le_bytes32_def by (metis le_bytes32_roundtrip list.inject)


section \<open>Reading the record\<close>

definition record_ssid :: "u8 list \<Rightarrow> u8 list" where
  "record_ssid bytes = take (unat (bytes ! 5)) (drop 12 bytes)"

definition record_password :: "u8 list \<Rightarrow> u8 list" where
  "record_password bytes = take (unat (bytes ! 6)) (drop (12 + unat (bytes ! 5)) bytes)"

definition record_ok :: "u8 list \<Rightarrow> bool" where
  "record_ok bytes \<longleftrightarrow>
     take 4 bytes = ascii ''FLWC'' \<and> bytes ! 4 = 1 \<and>
     1 \<le> unat (bytes ! 5) \<and> unat (bytes ! 5) \<le> 32 \<and> unat (bytes ! 6) \<le> 63 \<and>
     to_le_bytes32 (wifi_config_checksum (take 8 bytes) (record_ssid bytes @ record_password bytes)) =
       take 4 (drop 8 bytes) \<and>
     valid_utf8 (record_ssid bytes) \<and> valid_utf8 (record_password bytes)"

definition record_credentials :: "u8 list \<Rightarrow> WifiCredentials" where
  "record_credentials bytes =
     \<lparr>wc_ssid = record_ssid bytes @ replicate (32 - unat (bytes ! 5)) 0, wc_ssid_len = unat (bytes ! 5),
      wc_password = record_password bytes @ replicate (63 - unat (bytes ! 6)) 0,
      wc_password_len = unat (bytes ! 6)\<rparr>"

lemma take_4: "length xs \<ge> 4 \<Longrightarrow> take 4 xs = [xs ! 0, xs ! 1, xs ! 2, xs ! 3]"
  by (rule nth_equalityI) (auto simp: nth_Cons' less_Suc_eq numeral_eq_Suc)

lemma le_bytes32_eq_iff: "w = from_le_bytes32 a b c d \<longleftrightarrow> to_le_bytes32 w = [a, b, c, d]"
proof -
  have high: "\<not> bit x (8 + n)" "\<not> bit x (16 + n)" "\<not> bit x (24 + n)" for x :: u8 and n
    by (auto dest!: bit_imp_le_length)
  have "to_le_bytes32 (from_le_bytes32 a b c d) = [a, b, c, d]"
    unfolding to_le_bytes32_def from_le_bytes32_def
    by (auto intro!: bit_word_eqI simp: bit_simps high)
  then show ?thesis by (metis le_bytes32_inj)
qed

lemma record_payload:
  "take (unat (bytes ! 5) + unat (bytes ! 6)) (drop 12 bytes) = record_ssid bytes @ record_password bytes"
  unfolding record_ssid_def record_password_def take_add by (simp add: add.commute)

lemma load_wifi_credentials_alt:
  assumes "rom_read WIFI_CONFIG_FLASH_OFFSET WIFI_CONFIG_READ_SIZE = Some bytes" "length bytes = 108"
  shows "load_wifi_credentials rom_read =
    Some (if record_ok bytes then Some (record_credentials bytes) else None)"
proof (cases "unat (bytes ! 5) \<le> 32 \<and> unat (bytes ! 6) \<le> 63")
  case False
  with assms show ?thesis
    by (auto simp: load_wifi_credentials_def record_ok_def subslice_def index_def Let_def
        WIFI_SSID_MAX_LEN_def WIFI_PASSWORD_MAX_LEN_def)
next
  case True
  let ?n = "unat (bytes ! 5)" and ?m = "unat (bytes ! 6)"
  note payload = record_payload [of bytes]
  have stored: "take 4 (drop 8 bytes) = [bytes ! 8, bytes ! 9, bytes ! 10, bytes ! 11]"
    using assms(2) take_4 [of "drop 8 bytes"] by simp
  have parts: "take ?n (drop 12 bytes) = record_ssid bytes"
    "take ?m (drop (12 + ?n) bytes) = record_password bytes"
    by (simp_all add: record_ssid_def record_password_def)
  have len: "length (record_ssid bytes) = ?n" "length (record_password bytes) = ?m"
    using True assms(2) by (auto simp: record_ssid_def record_password_def)
  show ?thesis
    using assms True
    by (simp add: load_wifi_credentials_def record_ok_def record_credentials_def subslice_def index_def Let_def
        WIFI_SSID_MAX_LEN_def WIFI_PASSWORD_MAX_LEN_def WIFI_CONFIG_MAGIC_def WIFI_CONFIG_VERSION_def
        payload stored parts len le_bytes32_eq_iff copy_from_slice_def)
qed

lemma record_ok_wifi_record:
  assumes "ssid \<noteq> []" "length ssid \<le> 32" "length pw \<le> 63" "valid_utf8 ssid" "valid_utf8 pw"
  shows "record_ok (wifi_record ssid pw @ rest)" and
    "record_ssid (wifi_record ssid pw @ rest) = ssid" "record_password (wifi_record ssid pw @ rest) = pw"
    "(wifi_record ssid pw @ rest) ! 5 = of_nat (length ssid)" "(wifi_record ssid pw @ rest) ! 6 = of_nat (length pw)"
proof -
  let ?r = "wifi_record ssid pw @ rest"
  have nth: "?r ! 4 = 1" "?r ! 5 = of_nat (length ssid)" "?r ! 6 = of_nat (length pw)"
    by (simp_all add: wifi_record_def wifi_header_def)
  then show "?r ! 5 = of_nat (length ssid)" "?r ! 6 = of_nat (length pw)" by simp_all
  have d1: "drop 12 ?r = ssid @ pw @ rest" by (simp add: wifi_record_def wifi_header_def)
  then have d2: "drop (12 + length ssid) ?r = pw @ rest"
    by (metis drop_drop add.commute append_eq_conv_conj)
  have d3: "take 8 ?r = wifi_header ssid pw" "take 4 ?r = ascii ''FLWC''"
    "take 4 (drop 8 ?r) = to_le_bytes32 (wifi_config_checksum (wifi_header ssid pw) (ssid @ pw))"
    by (simp_all add: wifi_record_def wifi_header_def)
  show parts: "record_ssid ?r = ssid" "record_password ?r = pw"
    using assms nth d1 d2 by (simp_all add: record_ssid_def record_password_def)
  show "record_ok ?r"
    using assms nth d3 parts unfolding record_ok_def by (simp add: Suc_le_eq)
qed


lemma list_update_fixed: "xs[i := b] = xs \<Longrightarrow> i < length xs \<Longrightarrow> xs ! i = b"
  by (metis nth_list_update_eq)

lemma record_sums:
  assumes "record_ok x" "record_ok y" "take 4 (drop 8 x) = take 4 (drop 8 y)"
  shows "fold fnv_step (take 8 x @ record_ssid x @ record_password x) 0x811c9dc5 =
    fold fnv_step (take 8 y @ record_ssid y @ record_password y) 0x811c9dc5"
  using assms unfolding record_ok_def by (metis le_bytes32_inj wifi_config_checksum_fnv)

lemma altered_payload:
  assumes "i \<noteq> 5" "i \<noteq> 6"
  shows "record_ssid (r[i := b]) @ record_password (r[i := b]) =
    (if i < 12 then record_ssid r @ record_password r
     else (record_ssid r @ record_password r)[i - 12 := b])"
  using record_payload [of "r[i := b]"] assms
  by (simp add: record_payload [symmetric] drop_update_swap take_update_swap)

text \<open>A change of the magic, the version or the stored checksum.\<close>

lemma altered_fields:
  assumes ok: "record_ok r" "record_ok (r[i := b])" and i: "i < 5 \<or> 8 \<le> i \<and> i < 12"
    and len: "12 \<le> length r"
  shows "r ! i = b"
proof -
  let ?p = "\<lambda>x. record_ssid x @ record_password x"
  consider "i < 4" | "i = 4" | "8 \<le> i" "i < 12" using i by linarith
  then show ?thesis
  proof cases
    case 1
    have "(take 4 r)[i := b] = take 4 r"
      using ok unfolding record_ok_def take_update_swap by simp
    from list_update_fixed [OF this] 1 len show ?thesis by simp
  next
    case 2
    with ok len show ?thesis by (simp add: record_ok_def)
  next
    case 3
    then have "take 8 (r[i := b]) = take 8 r" "?p (r[i := b]) = ?p r"
      by (simp_all add: altered_payload)
    then have "take 4 (drop 8 (r[i := b])) = take 4 (drop 8 r)"
      using ok unfolding record_ok_def by metis
    then have "(take 4 (drop 8 r))[i - 8 := b] = take 4 (drop 8 r)"
      using 3 by (simp add: drop_update_swap take_update_swap)
    from list_update_fixed [OF this] 3 len show ?thesis by simp
  qed
qed

lemma update_after_prefix: "length xs = n \<Longrightarrow> (xs @ ys)[n + k := b] = xs @ ys[k := b]"
  by (simp add: list_update_append)

lemma record_ok_altered:
  assumes ok: "record_ok r" and i: "i < 12 + unat (r ! 5) + unat (r ! 6)" "i \<noteq> 5" "i \<noteq> 6"
    and len: "12 + unat (r ! 5) + unat (r ! 6) \<le> length r" and b: "b \<noteq> r ! i"
  shows "\<not> record_ok (r[i := b])"
proof
  let ?p = "record_ssid r @ record_password r"
  assume ok': "record_ok (r[i := b])"
  have plen: "length ?p = unat (r ! 5) + unat (r ! 6)"
    using len by (simp add: record_payload [symmetric])
  consider "i < 5 \<or> 8 \<le> i \<and> i < 12" | "i = 7" | "12 \<le> i" using i by linarith
  then show False
  proof cases
    case 1
    with altered_fields [OF ok ok' 1] len b show False by simp
  next
    case 2
    then have "take 8 (r[i := b]) @ record_ssid (r[i := b]) @ record_password (r[i := b]) = (take 8 r @ ?p)[7 := b]"
      using len altered_payload [of i r b] i by (simp add: take_update_swap list_update_append)
    moreover have "take 4 (drop 8 (r[i := b])) = take 4 (drop 8 r)" using 2 by simp
    moreover have "(take 8 r @ ?p) ! 7 = r ! i" "7 < length (take 8 r @ ?p)"
      using 2 len by (simp_all add: nth_append)
    ultimately show False
      using record_sums [OF ok' ok] fnv_detects [of 7 "take 8 r @ ?p" b] b by metis
  next
    case 3
    have nth: "?p ! (i - 12) = r ! i" using 3 i len by (simp add: record_payload [symmetric])
    have "take 8 (r[i := b]) @ record_ssid (r[i := b]) @ record_password (r[i := b]) =
        (take 8 r @ ?p)[8 + (i - 12) := b]"
      using 3 len altered_payload [of i r b] i update_after_prefix [of "take 8 r" 8 ?p "i - 12" b] by simp
    moreover have "take 4 (drop 8 (r[i := b])) = take 4 (drop 8 r)"
      using 3 by (simp add: drop_update_swap)
    moreover have "(take 8 r @ ?p) ! (8 + (i - 12)) = r ! i" "8 + (i - 12) < length (take 8 r @ ?p)"
      using nth plen i 3 len nth_append_length_plus [of "take 8 r" ?p "i - 12"] by simp_all
    ultimately show False
      using record_sums [OF ok' ok] fnv_detects [of "8 + (i - 12)" "take 8 r @ ?p" b] b by metis
  qed
qed


section \<open>The record as a codec\<close>

definition image_of :: "u8 list \<times> u8 list \<Rightarrow> u8 list" where
  "image_of = (\<lambda>(ssid, pw). case config_image ssid pw of Some (Inr img) \<Rightarrow> img | _ \<Rightarrow> [])"

definition flash_of :: "u8 list \<Rightarrow> nat \<Rightarrow> nat \<Rightarrow> u8 list option" where
  "flash_of img offset len =
     (if offset = WIFI_CONFIG_FLASH_OFFSET \<and> len \<le> length img then Some (take len img) else None)"

definition credentials_of :: "u8 list \<Rightarrow> (u8 list \<times> u8 list) option" where
  "credentials_of img = (case load_wifi_credentials (flash_of img) of
       Some (Some cr) \<Rightarrow> Some (take (wc_ssid_len cr) (wc_ssid cr), take (wc_password_len cr) (wc_password cr))
     | _ \<Rightarrow> None)"

definition valid_credentials :: "u8 list \<times> u8 list \<Rightarrow> bool" where
  "valid_credentials = (\<lambda>(ssid, pw). ssid \<noteq> [] \<and> length ssid \<le> 32 \<and> length pw \<le> 63 \<and>
     valid_utf8 ssid \<and> valid_utf8 pw)"

text \<open>What the first 108 bytes of a provisioned area are.\<close>

lemma provisioned_bytes:
  assumes "ssid \<noteq> []" "length ssid \<le> 32" "length pw \<le> 63" "config_image ssid pw = Some (Inr img)"
  obtains rest where "take 108 img = wifi_record ssid pw @ rest" "length (take 108 img) = 108"
proof -
  have img: "img = wifi_record ssid pw @ replicate (4084 - length ssid - length pw) 0xff"
    using config_image_layout [OF assms(1-3)] assms(4) by simp
  have len: "length (wifi_record ssid pw) = 12 + length ssid + length pw"
    by (simp add: wifi_record_def wifi_header_def)
  have "take 108 img = wifi_record ssid pw @ take (108 - length (wifi_record ssid pw))
      (replicate (4084 - length ssid - length pw) 0xff)"
    using assms len by (simp add: img del: take_replicate)
  moreover have "length (take 108 img) = 108" using assms len by (simp add: img)
  ultimately show thesis using that by blast
qed

lemma load_provisioned:
  assumes "valid_credentials (ssid, pw)" "config_image ssid pw = Some (Inr img)"
    "rom_read WIFI_CONFIG_FLASH_OFFSET WIFI_CONFIG_READ_SIZE = Some (take 108 img)"
  shows "load_wifi_credentials rom_read = Some (Some
    \<lparr>wc_ssid = ssid @ replicate (32 - length ssid) 0, wc_ssid_len = length ssid,
     wc_password = pw @ replicate (63 - length pw) 0, wc_password_len = length pw\<rparr>)"
proof -
  have v: "ssid \<noteq> []" "length ssid \<le> 32" "length pw \<le> 63" "valid_utf8 ssid" "valid_utf8 pw"
    using assms(1) by (simp_all add: valid_credentials_def)
  obtain rest where b: "take 108 img = wifi_record ssid pw @ rest" "length (take 108 img) = 108"
    using provisioned_bytes [OF v(1-3) assms(2)] .
  show ?thesis
    unfolding load_wifi_credentials_alt [of rom_read, OF assms(3) b(2)] unfolding b(1) record_credentials_def
    using v by (simp add: record_ok_wifi_record)
qed

interpretation wifi_codec: codec image_of credentials_of valid_credentials
proof unfold_locales
  fix x :: "u8 list \<times> u8 list" assume v: "valid_credentials x"
  obtain ssid pw where x: "x = (ssid, pw)" by (cases x)
  with v have c: "ssid \<noteq> []" "length ssid \<le> 32" "length pw \<le> 63"
    by (simp_all add: valid_credentials_def)
  obtain img where img: "config_image ssid pw = Some (Inr img)"
    using config_image_layout [OF c] by blast
  have "length (take 108 img) = 108" using provisioned_bytes [OF c img] by metis
  then have "flash_of img WIFI_CONFIG_FLASH_OFFSET WIFI_CONFIG_READ_SIZE = Some (take 108 img)"
    by (simp add: flash_of_def WIFI_CONFIG_READ_SIZE_def)
  from load_provisioned [of ssid pw img "flash_of img", OF v [unfolded x] img this] img
  show "credentials_of (image_of x) = Some x" by (simp add: credentials_of_def image_of_def x)
qed

section \<open>Properties\<close>

text \<open>What the provisioning tool writes, the firmware reads back: for an SSID of 1 to 32 bytes and a
  password of at most 63 bytes of text, the image is built, and a firmware whose flash reader returns
  the first 108 bytes of it at the configuration offset obtains exactly these credentials, padded with
  zeros, with their lengths.\<close>
theorem wifi_provisioning_roundtrip:
  assumes "ssid \<noteq> []" "length ssid \<le> 32" "length pw \<le> 63" "valid_utf8 ssid" "valid_utf8 pw"
  shows "\<exists>img. config_image ssid pw = Some (Inr img) \<and> length img = 4096 \<and>
    (\<forall>rom_read. rom_read 0x3f0000 108 = Some (take 108 img) \<longrightarrow>
      load_wifi_credentials rom_read = Some (Some
        \<lparr>wc_ssid = ssid @ replicate (32 - length ssid) 0, wc_ssid_len = length ssid,
         wc_password = pw @ replicate (63 - length pw) 0, wc_password_len = length pw\<rparr>))"
proof -
  let ?img = "wifi_record ssid pw @ replicate (4084 - length ssid - length pw) 0xff"
  note img = config_image_layout [OF assms(1-3)]
  have "length ?img = 4096" using assms by (simp add: wifi_record_def wifi_header_def)
  with img load_provisioned [OF _ img] assms show ?thesis
    by (auto simp: valid_credentials_def WIFI_CONFIG_FLASH_OFFSET_def WIFI_CONFIG_READ_SIZE_def)
qed

theorem wifi_provisioning_roundtrip_witness:
  "\<exists>img. config_image (ascii ''net'') (ascii ''secret'') = Some (Inr img) \<and>
     load_wifi_credentials (flash_of img) = Some (Some
       \<lparr>wc_ssid = ascii ''net'' @ replicate 29 0, wc_ssid_len = 3,
        wc_password = ascii ''secret'' @ replicate 57 0, wc_password_len = 6\<rparr>)"
proof -
  have v: "valid_utf8 (ascii ''net'')" "valid_utf8 (ascii ''secret'')"
    by (rule valid_utf8_ascii_bytes, simp)+
  obtain img where "config_image (ascii ''net'') (ascii ''secret'') = Some (Inr img)" "length img = 4096"
    and "\<And>rom_read. rom_read 0x3f0000 108 = Some (take 108 img) \<Longrightarrow>
      load_wifi_credentials rom_read = Some (Some
        \<lparr>wc_ssid = ascii ''net'' @ replicate 29 0, wc_ssid_len = 3,
         wc_password = ascii ''secret'' @ replicate 57 0, wc_password_len = 6\<rparr>)"
    using wifi_provisioning_roundtrip [of "ascii ''net''" "ascii ''secret''"] v by auto
  then show ?thesis by (intro exI [of _ img]) (simp add: flash_of_def WIFI_CONFIG_FLASH_OFFSET_def)
qed

text \<open>C36. A damaged record is not used: when any one byte of a provisioned record (magic, version, reserved
  byte, checksum, SSID or password; not one of the two length bytes, which move the fields) reads as
  something else, the firmware reports that there are no credentials.\<close>
theorem wifi_corruption_rejected:
  assumes "ssid \<noteq> []" "length ssid \<le> 32" "length pw \<le> 63" "valid_utf8 ssid" "valid_utf8 pw"
    and "config_image ssid pw = Some (Inr img)" "i < 12 + length ssid + length pw" "i \<noteq> 5" "i \<noteq> 6"
    and "b \<noteq> img ! i" "rom_read 0x3f0000 108 = Some ((take 108 img)[i := b])"
  shows "load_wifi_credentials rom_read = Some None"
proof -
  obtain rest where r: "take 108 img = wifi_record ssid pw @ rest" "length (take 108 img) = 108"
    using provisioned_bytes [OF assms(1-3,6)] .
  note ok = record_ok_wifi_record [OF assms(1-5), of rest, folded r(1)]
  have "take 108 img ! i = img ! i" using assms(2,3,7) by simp
  then have "\<not> record_ok ((take 108 img)[i := b])"
    using assms r(2) ok by (intro record_ok_altered) simp_all
  then show ?thesis
    using load_wifi_credentials_alt [of rom_read "(take 108 img)[i := b]"] r(2) assms(11)
    by (simp add: WIFI_CONFIG_FLASH_OFFSET_def WIFI_CONFIG_READ_SIZE_def)
qed

theorem wifi_corruption_rejected_witness:
  "\<exists>img. config_image (ascii ''net'') [] = Some (Inr img) \<and>
     load_wifi_credentials (\<lambda>_ _. Some ((take 108 img)[12 := 0])) = Some None"
proof -
  let ?img = "wifi_record (ascii ''net'') [] @ replicate 4081 0xff"
  have img: "config_image (ascii ''net'') [] = Some (Inr ?img)"
    using config_image_layout [of "ascii ''net''" "[]"] by simp
  have "valid_utf8 (ascii ''net'')" by (rule valid_utf8_ascii_bytes) simp
  moreover have "?img ! 12 = of_char (CHR ''n'')"
    by (simp add: wifi_record_def wifi_header_def to_le_bytes32_def)
  ultimately have "load_wifi_credentials (\<lambda>_ _. Some ((take 108 ?img)[12 := 0])) = Some None"
    using wifi_corruption_rejected [of "ascii ''net''" "[]" ?img 12 0] img by simp
  with img show ?thesis by blast
qed

text \<open>Whatever the flash holds, reading it never panics, and credentials are reported only for a record
  whose checksum is right, with a non-empty SSID of at most 32 bytes and a password of at most 63
  bytes, both valid UTF-8, padded with zeros to the size of their arrays; a flash read that fails
  gives none.\<close>
theorem wifi_load_validates:
  assumes "\<forall>bytes. rom_read 0x3f0000 108 = Some bytes \<longrightarrow> length bytes = 108"
  shows "\<exists>res. load_wifi_credentials rom_read = Some res \<and>
    (rom_read 0x3f0000 108 = None \<longrightarrow> res = None) \<and>
    (\<forall>cr. res = Some cr \<longrightarrow>
       1 \<le> wc_ssid_len cr \<and> wc_ssid_len cr \<le> 32 \<and> length (wc_ssid cr) = 32 \<and>
       wc_password_len cr \<le> 63 \<and> length (wc_password cr) = 63 \<and>
       valid_utf8 (take (wc_ssid_len cr) (wc_ssid cr)) \<and>
       valid_utf8 (take (wc_password_len cr) (wc_password cr)))"
proof (cases "rom_read 0x3f0000 108")
  case None
  then show ?thesis
    by (simp add: load_wifi_credentials_def WIFI_CONFIG_FLASH_OFFSET_def WIFI_CONFIG_READ_SIZE_def)
next
  case (Some bytes)
  with assms have len: "length bytes = 108" by simp
  have parts: "length (record_ssid bytes) = unat (bytes ! 5)" "length (record_password bytes) = unat (bytes ! 6)"
    if "record_ok bytes"
    using that len by (auto simp: record_ok_def record_ssid_def record_password_def)
  show ?thesis
    using load_wifi_credentials_alt [of rom_read bytes] Some len parts
    by (auto simp: WIFI_CONFIG_FLASH_OFFSET_def WIFI_CONFIG_READ_SIZE_def record_ok_def record_credentials_def)
qed

theorem wifi_load_validates_witness:
  "\<exists>cr. load_wifi_credentials (\<lambda>_ _. Some (take 108 (image_of (ascii ''net'', [])))) = Some (Some cr) \<and>
     1 \<le> wc_ssid_len cr \<and> wc_ssid_len cr \<le> 32 \<and> valid_utf8 (take (wc_ssid_len cr) (wc_ssid cr))"
proof -
  let ?img = "image_of (ascii ''net'', [])" and ?read = "\<lambda>_ _. Some (take 108 (image_of (ascii ''net'', [])))"
  have v: "valid_credentials (ascii ''net'', [])"
    using valid_utf8_ascii_bytes [of "ascii ''net''"] by (simp add: valid_credentials_def)
  have img: "config_image (ascii ''net'') [] = Some (Inr ?img)"
    using config_image_layout [of "ascii ''net''" "[]"] by (simp add: image_of_def)
  have len: "length (take 108 ?img) = 108"
    by (rule provisioned_bytes [OF _ _ _ img]) simp_all
  obtain cr where "load_wifi_credentials ?read = Some (Some cr)"
    using load_provisioned [of "ascii ''net''" "[]" ?img ?read, OF v img] by blast
  with wifi_load_validates [of ?read] len show ?thesis by auto
qed

end
