(* ===== verification/Std_Paths.thy ===== *)
theory Std_Paths
  imports Main
begin

text \<open>
  The operations of \<open>std::path\<close> that the host and the provisioning tool use, on Unix paths
  as strings: joining a relative name, the parent, the file stem, and replacing the extension.
\<close>

definition path_join :: "string \<Rightarrow> string \<Rightarrow> string" where
  "path_join base rel = (if base = [] \<or> last base = CHR ''/'' then base @ rel else base @ CHR ''/'' # rel)"

definition path_dir :: "string \<Rightarrow> string" where
  "path_dir p = rev (dropWhile (\<lambda>c. c \<noteq> CHR ''/'') (rev p))"

definition path_name :: "string \<Rightarrow> string" where
  "path_name p = rev (takeWhile (\<lambda>c. c \<noteq> CHR ''/'') (rev p))"

definition path_parent :: "string \<Rightarrow> string option" where
  "path_parent p = (if p = [] \<or> p = ''/'' then None
     else Some (if path_dir p = ''/'' then ''/'' else butlast (path_dir p)))"

definition file_stem :: "string \<Rightarrow> string" where
  "file_stem name = (case dropWhile (\<lambda>c. c \<noteq> CHR ''.'') (rev name) of
     _ # before \<Rightarrow> if before = [] then name else rev before | [] \<Rightarrow> name)"

definition with_extension :: "string \<Rightarrow> string \<Rightarrow> string" where
  "with_extension p ext = (if path_name p = [] \<or> path_name p = ''..'' then p
     else path_dir p @ file_stem (path_name p) @ CHR ''.'' # ext)"

lemma path_name_append: "CHR ''/'' \<notin> set name \<Longrightarrow> path_name (p @ CHR ''/'' # name) = name"
  unfolding path_name_def by simp (subst takeWhile_append2; auto)

lemma path_dir_append: "CHR ''/'' \<notin> set name \<Longrightarrow> path_dir (p @ CHR ''/'' # name) = p @ ''/''"
  unfolding path_dir_def by simp (subst dropWhile_append2; auto)

end
