(* ===== verification/Wifi_Provision.thy ===== *)
theory Wifi_Provision
  imports Wifi_Config Std_Paths
begin

text \<open>
  The provisioning tool \<open>src/host/src/bin/provision-wifi.rs\<close> as a program: two prompts, the
  image, the temporary file, the run of \<open>espflash\<close> and the removal of the file, on a machine
  whose operations may fail. \<open>espflash\<close> is not part of the sources: it is a parameter. The lemmas
  relate a successful run to what the firmware finds in its flash at the next start, and say what an
  unsuccessful run leaves behind.
\<close>

section \<open>The machine\<close>

text \<open>A file is written, cannot be opened, or is written in part.\<close>

datatype write_outcome = WriteDone | WriteRefused | WriteTorn nat

text \<open>The input still to come and whether it ends with an error instead of an end of file; how the
  coming flushes of the output end; the prompts shown, oldest first; the files; the flash of the
  board.\<close>

record machine =
  ma_args :: "string list"
  ma_stdin :: "u8 list"
  ma_stdin_fails :: bool
  ma_flushes :: "bool list"
  ma_shown :: "string list"
  ma_temp_dir :: string
  ma_files :: "string \<rightharpoonup> u8 list"
  ma_write :: write_outcome
  ma_remove_ok :: bool
  ma_flash :: "nat \<Rightarrow> u8"

datatype provision_failure = IoFailure | ConfigRejected | ProvisioningFailed

text \<open>Reading a line: up to and with the first line feed, or all that is left.\<close>

fun split_line :: "u8 list \<Rightarrow> u8 list \<times> u8 list" where
  "split_line [] = ([], [])"
| "split_line (b # bs) =
     (if b = 0x0a then ([b], bs) else (b # fst (split_line bs), snd (split_line bs)))"

definition stdin_read_line :: "(machine, provision_failure, u8 list) action" where
  "stdin_read_line ma =
     (let (line, rest) = split_line (ma_stdin ma); ma = ma\<lparr>ma_stdin := rest\<rparr> in
      if ma_stdin_fails ma \<and> (line = [] \<or> last line \<noteq> 0x0a) then (Inl IoFailure, ma)
      else if \<not> valid_utf8 line then (Inl IoFailure, ma)
      else (Inr line, ma))"

definition stdout_flush :: "(machine, provision_failure, unit) action" where
  "stdout_flush ma =
     (case ma_flushes ma of
        [] \<Rightarrow> (Inr (), ma)
      | okay # rest \<Rightarrow> (if okay then Inr () else Inl IoFailure, ma\<lparr>ma_flushes := rest\<rparr>))"

definition tool_write :: "string \<Rightarrow> u8 list \<Rightarrow> (machine, provision_failure, unit) action" where
  "tool_write path bytes ma =
     (case ma_write ma of
        WriteDone \<Rightarrow> (Inr (), ma\<lparr>ma_files := (ma_files ma)(path \<mapsto> bytes)\<rparr>)
      | WriteRefused \<Rightarrow> (Inl IoFailure, ma)
      | WriteTorn n \<Rightarrow> (Inl IoFailure, ma\<lparr>ma_files := (ma_files ma)(path \<mapsto> take n bytes)\<rparr>))"

definition tool_remove :: "string \<Rightarrow> (machine, provision_failure, unit) action" where
  "tool_remove path ma =
     (if ma_remove_ok ma \<and> ma_files ma path \<noteq> None
      then (Inr (), ma\<lparr>ma_files := (ma_files ma)(path := None)\<rparr>) else (Inl IoFailure, ma))"

section \<open>The tool\<close>

definition CONFIG_OFFSET :: string where "CONFIG_OFFSET = ''0x3f0000''"

definition prompt :: "string \<Rightarrow> (machine, provision_failure, u8 list) action" where
  "prompt label =
     (\<lambda>ma. try_then stdout_flush (\<lambda>_. try_then stdin_read_line (\<lambda>value. return_ok (prompt_value value)))
       (ma\<lparr>ma_shown := ma_shown ma @ [label]\<rparr>))"

text \<open>The argument vector of the child process.\<close>

definition espflash_command :: "string \<Rightarrow> string \<Rightarrow> string list" where
  "espflash_command port path =
     [''write-bin'', ''--port'', port, ''--chip'', ''esp32c3'', ''--before'', ''usb-reset'',
      ''--after'', ''hard-reset'', ''--non-interactive'', CONFIG_OFFSET, path]"

text \<open>What \<open>espflash\<close> does to the flash, from its arguments and the files; no exit status means
  that it could not be started or waited for.\<close>

type_synonym espflash = "string list \<Rightarrow> (string \<rightharpoonup> u8 list) \<Rightarrow> (nat \<Rightarrow> u8) \<Rightarrow> bool option \<times> (nat \<Rightarrow> u8)"

definition command_status :: "espflash \<Rightarrow> string list \<Rightarrow> (machine, provision_failure, bool) action" where
  "command_status espflash args ma =
     (case espflash args (ma_files ma) (ma_flash ma) of
        (None, flash) \<Rightarrow> (Inl IoFailure, ma\<lparr>ma_flash := flash\<rparr>)
      | (Some success, flash) \<Rightarrow> (Inr success, ma\<lparr>ma_flash := flash\<rparr>))"

definition port_argument :: "string list \<Rightarrow> string" where
  "port_argument args = (if 1 < length args then args ! 1 else ''/dev/ttyACM0'')"

definition temp_path :: "machine \<Rightarrow> string" where
  "temp_path ma = path_join (ma_temp_dir ma) ''fetchline-wifi-config.bin''"

text \<open>From the image on. \<open>config_image\<close> never panics (its layout lemma shows it).\<close>

definition write_and_flash :: "espflash \<Rightarrow> string \<Rightarrow> u8 list \<Rightarrow> (machine, provision_failure, unit) action" where
  "write_and_flash espflash port img ma =
     (let path = temp_path ma in
      try_then (tool_write path img) (\<lambda>_.
      try_then (command_status espflash (espflash_command port path)) (\<lambda>success.
      try_then (tool_remove path) (\<lambda>_.
        if success then return_ok () else return_err ProvisioningFailed))) ma)"

definition provision_main :: "espflash \<Rightarrow> (machine, provision_failure, unit) action" where
  "provision_main espflash ma =
     (let port = port_argument (ma_args ma) in
      try_then (prompt ''Wi-Fi SSID: '') (\<lambda>ssid.
      try_then (prompt ''Wi-Fi password (input is visible): '') (\<lambda>password.
        case the (config_image ssid password) of
          Inl _ \<Rightarrow> return_err ConfigRejected
        | Inr img \<Rightarrow> write_and_flash espflash port img)) ma)"

section \<open>What the user types\<close>

lemma utf8_head_before_ascii:
  assumes "utf8_head (xs @ [b]) = Some n" "xs \<noteq> []" "b \<le> 0x7f"
  shows "utf8_head xs = Some n"
proof (cases xs)
  case (Cons a r)
  let ?w = "utf8_width a"
  have h: "n = ?w" "0 < ?w" "?w \<le> Suc (Suc (length r))" "list_all continuation (take (?w - 1) (r @ [b]))"
    "1 < ?w \<Longrightarrow> utf8_second a ((r @ [b]) ! 0)"
    using assms(1) Cons by (auto simp: utf8_head_def Let_def split: if_splits)
  have "?w \<noteq> Suc (Suc (length r))"
  proof
    assume "?w = Suc (Suc (length r))"
    with h(4) have "continuation b" by simp
    then have "(0x80 :: u8) \<le> 0x7f" using assms(3) order_trans unfolding continuation_def by blast
    then show False by simp
  qed
  with h(3) have w: "?w \<le> Suc (length r)" by linarith
  then have "r \<noteq> []" if "1 < ?w" using that by auto
  with h w show ?thesis by (auto simp: Cons utf8_head_def Let_def nth_append)
qed (use assms in simp)

lemma valid_utf8_before_ascii: "valid_utf8 (xs @ [b]) \<Longrightarrow> b \<le> 0x7f \<Longrightarrow> valid_utf8 xs"
proof (induction xs rule: valid_utf8.induct)
  case (1 xs)
  show ?case
  proof (cases "xs = []")
    case False
    from "1.prems"(1) obtain n where n: "utf8_head (xs @ [b]) = Some n" "valid_utf8 (drop n (xs @ [b]))"
      by (subst (asm) valid_utf8.simps) (auto split: option.splits)
    have x: "utf8_head xs = Some n" by (rule utf8_head_before_ascii [OF n(1) False "1.prems"(2)])
    with n(2) utf8_head_bounds [OF x] "1.IH" [OF False x] "1.prems"(2) show ?thesis
      by (subst valid_utf8.simps) simp
  qed simp
qed

lemma valid_prompt_value: "valid_utf8 value \<Longrightarrow> valid_utf8 (prompt_value value)"
proof (induction "value" rule: rev_induct)
  case (snoc b bs)
  then show ?case
    using valid_utf8_before_ascii [of bs b] by (auto simp: prompt_value_def)
qed (simp add: prompt_value_def)

lemma split_line_terminated: "0x0a \<notin> set bs \<Longrightarrow> split_line (bs @ 0x0a # rest) = (bs @ [0x0a], rest)"
  by (induction bs) auto

text \<open>What the two prompts return when reading does not fail.\<close>

definition typed_ssid :: "machine \<Rightarrow> u8 list" where
  "typed_ssid ma = prompt_value (fst (split_line (ma_stdin ma)))"

definition typed_password :: "machine \<Rightarrow> u8 list" where
  "typed_password ma = prompt_value (fst (split_line (snd (split_line (ma_stdin ma)))))"

text \<open>A prompt changes the input, the flushes and what is shown, nothing else.\<close>

definition same_board :: "machine \<Rightarrow> machine \<Rightarrow> bool" where
  "same_board ma mb \<longleftrightarrow> ma_files mb = ma_files ma \<and> ma_flash mb = ma_flash ma \<and>
     ma_temp_dir mb = ma_temp_dir ma \<and> ma_write mb = ma_write ma \<and> ma_remove_ok mb = ma_remove_ok ma"

lemma prompt_same_board: "prompt label ma = (r, mb) \<Longrightarrow> same_board ma mb"
  by (auto simp: prompt_def try_then_def stdout_flush_def stdin_read_line_def same_board_def return_ok_def Let_def
      split: list.splits prod.splits sum.splits if_splits)

lemma prompt_ok: "prompt label ma = (Inr v, mb) \<Longrightarrow>
    v = prompt_value (fst (split_line (ma_stdin ma))) \<and> valid_utf8 v \<and> ma_stdin mb = snd (split_line (ma_stdin ma))"
  by (auto simp: prompt_def try_then_def stdout_flush_def stdin_read_line_def return_ok_def Let_def valid_prompt_value
      split: list.splits prod.splits sum.splits if_splits)

text \<open>How a run of the tool goes: a prompt fails, the image is refused, or the board is flashed.\<close>

lemma provision_main_cases:
  obtains (prompt) mb where "provision_main espflash ma = (Inl IoFailure, mb)" "same_board ma mb"
  | (refused) mb where "provision_main espflash ma = (Inl ConfigRejected, mb)" "same_board ma mb"
      "config_image (typed_ssid ma) (typed_password ma) = Some (Inl BadLengths)"
  | (flashed) mb img where "same_board ma mb" "valid_credentials (typed_ssid ma, typed_password ma)"
      "config_image (typed_ssid ma) (typed_password ma) = Some (Inr img)"
      "provision_main espflash ma = write_and_flash espflash (port_argument (ma_args ma)) img mb"
proof -
  have fails: "e = IoFailure" if "prompt l x = (Inl e, y)" for l x e y
    using that by (auto simp: prompt_def try_then_def stdout_flush_def stdin_read_line_def return_ok_def Let_def
      split: list.splits prod.splits sum.splits if_splits)
  let ?l1 = "''Wi-Fi SSID: ''" and ?l2 = "''Wi-Fi password (input is visible): ''"
  obtain r1 m1 where p1: "prompt ?l1 ma = (r1, m1)" by fastforce
  show thesis
  proof (cases r1)
    case (Inl e)
    with p1 fails [of ?l1 ma e m1] prompt_same_board [OF p1] show thesis
      by (intro prompt [of m1]) (simp_all add: provision_main_def Let_def)
  next
    case ssid: (Inr ssid)
    obtain r2 m2 where p2: "prompt ?l2 m1 = (r2, m2)" by fastforce
    have same: "same_board ma m2"
      using prompt_same_board [OF p1] prompt_same_board [OF p2] by (simp add: same_board_def)
    show thesis
    proof (cases r2)
      case (Inl e)
      with p1 p2 ssid fails [of ?l2 m1 e m2] same show thesis
        by (intro prompt [of m2]) (simp_all add: provision_main_def Let_def)
    next
      case (Inr pw)
      have typed: "ssid = typed_ssid ma" "pw = typed_password ma" "valid_utf8 ssid" "valid_utf8 pw"
        using prompt_ok [of ?l1 ma ssid m1] prompt_ok [of ?l2 m1 pw m2] p1 p2 ssid Inr
        by (auto simp: typed_ssid_def typed_password_def)
      have run: "provision_main espflash ma = (case the (config_image ssid pw) of
          Inl _ \<Rightarrow> return_err ConfigRejected | Inr img \<Rightarrow> write_and_flash espflash (port_argument (ma_args ma)) img) m2"
        using p1 p2 ssid Inr by (simp add: provision_main_def Let_def)
      show thesis
      proof (cases "valid_credentials (ssid, pw)")
        case True
        then obtain img where "config_image ssid pw = Some (Inr img)"
          using config_image_layout [of ssid pw] by (auto simp: valid_credentials_def)
        with True run typed same show thesis by (intro flashed [of m2 img]) simp_all
      next
        case False
        then have "config_image ssid pw = Some (Inl BadLengths)"
          using typed by (auto simp: valid_credentials_def config_image_def SSID_MAX_LEN_def PASSWORD_MAX_LEN_def)
        with run typed same show thesis by (intro refused [of m2]) (simp_all add: return_err_def)
      qed
    qed
  qed
qed

text \<open>Both lines are there and hold credentials: the image is written and flashed.\<close>

lemma prompt_line:
  assumes "ma_stdin ma = bs @ 0x0a # rest" "0x0a \<notin> set bs" "prompt_value bs = bs" "valid_utf8 bs" "ma_flushes ma = []"
  shows "prompt label ma = (Inr bs, ma\<lparr>ma_stdin := rest, ma_shown := ma_shown ma @ [label]\<rparr>)"
proof -
  have "valid_utf8 (bs @ [0x0a])" using assms(4) by (intro valid_utf8_append) (simp_all add: valid_utf8_ascii_Cons)
  moreover have "prompt_value (bs @ [0x0a]) = bs" using assms(3) by (simp add: prompt_value_def)
  ultimately show ?thesis
    using assms by (simp add: prompt_def try_then_def stdout_flush_def stdin_read_line_def split_line_terminated return_ok_def)
qed

definition typed_lines :: "machine \<Rightarrow> u8 list \<Rightarrow> u8 list \<Rightarrow> u8 list \<Rightarrow> bool" where
  "typed_lines ma ssid pw rest \<longleftrightarrow> ma_stdin ma = ssid @ 0x0a # pw @ 0x0a # rest \<and> 0x0a \<notin> set ssid \<and> 0x0a \<notin> set pw \<and>
     prompt_value ssid = ssid \<and> prompt_value pw = pw \<and> valid_credentials (ssid, pw) \<and> ma_flushes ma = []"

lemma provision_main_typed:
  assumes "typed_lines ma ssid pw rest"
  obtains mb where "same_board ma mb"
    "provision_main espflash ma = write_and_flash espflash (port_argument (ma_args ma))
       (wifi_record ssid pw @ replicate (4084 - length ssid - length pw) 0xff) mb"
proof -
  have v: "valid_utf8 ssid" "valid_utf8 pw" "ssid \<noteq> []" "length ssid \<le> 32" "length pw \<le> 63"
    using assms by (simp_all add: typed_lines_def valid_credentials_def)
  have t: "ma_stdin ma = ssid @ 0x0a # pw @ 0x0a # rest" "0x0a \<notin> set ssid" "0x0a \<notin> set pw"
    "prompt_value ssid = ssid" "prompt_value pw = pw" "ma_flushes ma = []"
    using assms by (simp_all add: typed_lines_def)
  let ?m1 = "ma\<lparr>ma_stdin := pw @ 0x0a # rest, ma_shown := ma_shown ma @ [''Wi-Fi SSID: '']\<rparr>"
  note p1 = prompt_line [of ma ssid "pw @ 0x0a # rest" "''Wi-Fi SSID: ''", OF t(1,2,4) v(1) t(6)]
  have p2: "prompt l ?m1 = (Inr pw, ?m1\<lparr>ma_stdin := rest, ma_shown := ma_shown ?m1 @ [l]\<rparr>)" for l
    by (rule prompt_line) (use t v in simp_all)
  show thesis
    by (rule that [of "?m1\<lparr>ma_stdin := rest, ma_shown := ma_shown ?m1 @ [''Wi-Fi password (input is visible): '']\<rparr>"])
       (simp_all add: same_board_def provision_main_def p1 p2 config_image_layout [OF v(3-5)])
qed

section \<open>Flashing the image\<close>

text \<open>The four ways in which \<open>write_and_flash\<close> ends, for a file that can be written.\<close>

lemma write_and_flash_ok:
  assumes "write_and_flash espflash port img ma = (Inr (), mb)"
  obtains flash where
    "espflash (espflash_command port (temp_path ma)) ((ma_files ma)(temp_path ma \<mapsto> img)) (ma_flash ma) = (Some True, flash)"
    "ma_flash mb = flash" "ma_files mb = (ma_files ma)(temp_path ma := None)"
proof (rule that)
  show "espflash (espflash_command port (temp_path ma)) ((ma_files ma)(temp_path ma \<mapsto> img)) (ma_flash ma) =
      (Some True, ma_flash mb)" "ma_files mb = (ma_files ma)(temp_path ma := None)"
    using assms by (auto simp: write_and_flash_def Let_def try_then_def tool_write_def command_status_def tool_remove_def
        return_ok_def return_err_def split: write_outcome.splits prod.splits option.splits sum.splits if_splits)
qed simp

lemma write_and_flash_not_started:
  assumes "ma_write ma = WriteDone"
    "espflash (espflash_command port (temp_path ma)) ((ma_files ma)(temp_path ma \<mapsto> img)) (ma_flash ma) = (None, flash)"
  shows "write_and_flash espflash port img ma =
    (Inl IoFailure, ma\<lparr>ma_files := (ma_files ma)(temp_path ma \<mapsto> img), ma_flash := flash\<rparr>)"
  using assms by (simp add: write_and_flash_def Let_def try_then_def tool_write_def command_status_def)

text \<open>Credentials that the record cannot hold never reach the disk or the board.\<close>

lemma invalid_credentials_not_flashed:
  assumes "\<not> valid_credentials (typed_ssid ma, typed_password ma)" "provision_main espflash ma = (r, mb)"
  shows "r \<noteq> Inr () \<and> ma_files mb = ma_files ma \<and> ma_flash mb = ma_flash ma"
  using assms by (cases rule: provision_main_cases [of espflash ma]) (auto simp: same_board_def)

text \<open>The documented effect of \<open>espflash write-bin ADDRESS FILE\<close>: when it reports success, the
  flash holds the bytes of the file from the address on.\<close>

definition hex_value :: "string \<Rightarrow> nat" where
  "hex_value s = foldl (\<lambda>n c. 16 * n + (if 97 \<le> (of_char c :: nat) then of_char c - 87 else of_char c - 48)) 0 s"

definition writes_file :: "espflash \<Rightarrow> bool" where
  "writes_file espflash \<longleftrightarrow> (\<forall>options address path files flash flash' bytes.
     espflash (''write-bin'' # options @ [''0x'' @ address, path]) files flash = (Some True, flash') \<longrightarrow>
     files path = Some bytes \<longrightarrow>
     (\<forall>i < length bytes. flash' (hex_value address + i) = bytes ! i))"

text \<open>The ROM's reader gives the bytes of the flash.\<close>

definition rom_read :: "(nat \<Rightarrow> u8) \<Rightarrow> nat \<Rightarrow> nat \<Rightarrow> u8 list option" where
  "rom_read flash offset n = Some (map (\<lambda>i. flash (offset + i)) [0..<n])"

lemma offsets_agree: "CONFIG_OFFSET = ''0x'' @ ''3f0000''" "hex_value ''3f0000'' = WIFI_CONFIG_FLASH_OFFSET"
  by (simp_all add: CONFIG_OFFSET_def WIFI_CONFIG_FLASH_OFFSET_def hex_value_def)

lemma espflash_writes:
  assumes "writes_file espflash" "espflash (espflash_command port path) files flash = (Some True, flash')"
    "files path = Some img" "WIFI_CONFIG_READ_SIZE \<le> length img"
  shows "rom_read flash' WIFI_CONFIG_FLASH_OFFSET WIFI_CONFIG_READ_SIZE = Some (take 108 img)"
proof -
  let ?options = "[''--port'', port, ''--chip'', ''esp32c3'', ''--before'', ''usb-reset'',
      ''--after'', ''hard-reset'', ''--non-interactive'']"
  have "espflash_command port path = ''write-bin'' # ?options @ [''0x'' @ ''3f0000'', path]"
    by (simp add: espflash_command_def offsets_agree(1))
  with assms(1-3) have "\<forall>i < length img. flash' (hex_value ''3f0000'' + i) = img ! i"
    unfolding writes_file_def by metis
  with assms(4) show ?thesis
    unfolding offsets_agree(2) by (auto simp: rom_read_def WIFI_CONFIG_READ_SIZE_def intro!: nth_equalityI)
qed

text \<open>What a successful run leaves in the flash and on the disk.\<close>

lemma provisioned_flash:
  assumes "writes_file espflash" "provision_main espflash ma = (Inr (), mb)"
  shows "load_wifi_credentials (rom_read (ma_flash mb)) = Some (Some
      \<lparr>wc_ssid = typed_ssid ma @ replicate (32 - length (typed_ssid ma)) 0, wc_ssid_len = length (typed_ssid ma),
       wc_password = typed_password ma @ replicate (63 - length (typed_password ma)) 0,
       wc_password_len = length (typed_password ma)\<rparr>) \<and>
    ma_files mb = (ma_files ma)(temp_path ma := None)"
  using provision_main_cases [of espflash ma]
proof cases
  case (flashed m1 img)
  have same: "ma_files m1 = ma_files ma" "temp_path m1 = temp_path ma"
    using flashed(1) by (simp_all add: same_board_def temp_path_def)
  obtain flash where e: "espflash (espflash_command (port_argument (ma_args ma)) (temp_path ma))
      ((ma_files ma)(temp_path ma \<mapsto> img)) (ma_flash m1) = (Some True, flash)"
    "ma_flash mb = flash" "ma_files mb = (ma_files ma)(temp_path ma := None)"
    using write_and_flash_ok [of espflash "port_argument (ma_args ma)" img m1 mb] flashed(4) assms(2) same by metis
  have "typed_ssid ma \<noteq> []" "length (typed_ssid ma) \<le> 32" "length (typed_password ma) \<le> 63"
    using flashed(2) by (simp_all add: valid_credentials_def)
  then have "length (take 108 img) = 108" using provisioned_bytes flashed(3) by metis
  then have "108 \<le> length img" by simp
  then have "rom_read flash WIFI_CONFIG_FLASH_OFFSET WIFI_CONFIG_READ_SIZE = Some (take 108 img)"
    using espflash_writes [OF assms(1) e(1)] by (simp add: WIFI_CONFIG_READ_SIZE_def)
  with load_provisioned [OF flashed(2,3)] e show ?thesis by simp
qed (use assms(2) in simp_all)

text \<open>An \<open>espflash\<close> that writes the file, and a machine where everything works.\<close>

definition working_espflash :: espflash where
  "working_espflash args files flash =
     (case rev args of
        path # address # _ \<Rightarrow>
          (case files path of
             Some bytes \<Rightarrow> let a = hex_value (drop 2 address) in
               (Some True, \<lambda>i. if a \<le> i \<and> i < a + length bytes then bytes ! (i - a) else flash i)
           | None \<Rightarrow> (Some False, flash))
      | _ \<Rightarrow> (Some False, flash))"

lemma working_espflash_writes: "writes_file working_espflash"
  by (auto simp: writes_file_def working_espflash_def Let_def split: option.splits)

definition sample_machine :: machine where
  "sample_machine = \<lparr>ma_args = [''provision-wifi''], ma_stdin = ascii ''net'' @ 0x0a # ascii ''secret'' @ [0x0a],
     ma_stdin_fails = False, ma_flushes = [], ma_shown = [], ma_temp_dir = ''/tmp'', ma_files = Map.empty,
     ma_write = WriteDone, ma_remove_ok = True, ma_flash = (\<lambda>_. 0)\<rparr>"

lemma sample_input: "typed_lines sample_machine (ascii ''net'') (ascii ''secret'') []"
proof -
  have "valid_utf8 (ascii ''net'')" "valid_utf8 (ascii ''secret'')" by (rule valid_utf8_ascii_bytes, simp)+
  then show ?thesis
    by (simp add: typed_lines_def sample_machine_def valid_credentials_def prompt_value_def)
qed

lemma sample_typed: "typed_ssid sample_machine = ascii ''net''" "typed_password sample_machine = ascii ''secret''"
  by (simp_all add: typed_ssid_def typed_password_def sample_machine_def prompt_value_def)

lemma sample_provisioned: "\<exists>mb. provision_main working_espflash sample_machine = (Inr (), mb)"
proof -
  let ?img = "wifi_record (ascii ''net'') (ascii ''secret'') @
    replicate (4084 - length (ascii ''net'') - length (ascii ''secret'')) 0xff"
  obtain m1 where m1: "same_board sample_machine m1" "provision_main working_espflash sample_machine =
      write_and_flash working_espflash (port_argument (ma_args sample_machine)) ?img m1"
    using provision_main_typed [OF sample_input] .
  have "fst (provision_main working_espflash sample_machine) = Inr ()"
    unfolding m1(2) using m1(1)
    by (simp add: write_and_flash_def tool_write_def command_status_def tool_remove_def try_then_def return_ok_def Let_def
        working_espflash_def espflash_command_def same_board_def sample_machine_def)
  then show ?thesis by (metis prod.collapse)
qed

section \<open>Properties\<close>

text \<open>C20. A run of the provisioning tool that exits successfully has provisioned the board: the firmware
  finds in its flash exactly the SSID and the password that were typed, and the temporary file with the
  password is gone, every other file being as it was. (Provided that \<open>espflash write-bin\<close> writes the
  file at the address when it reports success.)\<close>
theorem provisioning_reaches_firmware:
  assumes "writes_file espflash" "provision_main espflash ma = (Inr (), mb)"
  shows "load_wifi_credentials (rom_read (ma_flash mb)) = Some (Some
      \<lparr>wc_ssid = typed_ssid ma @ replicate (32 - length (typed_ssid ma)) 0, wc_ssid_len = length (typed_ssid ma),
       wc_password = typed_password ma @ replicate (63 - length (typed_password ma)) 0,
       wc_password_len = length (typed_password ma)\<rparr>) \<and>
    ma_files mb = (ma_files ma)(temp_path ma := None)"
  by (rule provisioned_flash [OF assms])

theorem provisioning_reaches_firmware_witness:
  "\<exists>mb. provision_main working_espflash sample_machine = (Inr (), mb) \<and>
     load_wifi_credentials (rom_read (ma_flash mb)) = Some (Some
       \<lparr>wc_ssid = ascii ''net'' @ replicate 29 0, wc_ssid_len = 3,
        wc_password = ascii ''secret'' @ replicate 57 0, wc_password_len = 6\<rparr>) \<and>
     ma_files mb = Map.empty"
proof -
  obtain mb where mb: "provision_main working_espflash sample_machine = (Inr (), mb)"
    using sample_provisioned by blast
  from provisioning_reaches_firmware [OF working_espflash_writes mb]
  have "load_wifi_credentials (rom_read (ma_flash mb)) = Some (Some
       \<lparr>wc_ssid = ascii ''net'' @ replicate 29 0, wc_ssid_len = 3,
        wc_password = ascii ''secret'' @ replicate 57 0, wc_password_len = 6\<rparr>)" "ma_files mb = Map.empty"
    unfolding sample_typed by (simp_all add: sample_machine_def)
  with mb show ?thesis by blast
qed

text \<open>C40. When \<open>espflash\<close> cannot be started, the tool fails without removing its temporary file: the
  password that was typed stays on the disk in plain text, and the board is as it was.\<close>
theorem password_left_on_disk:
  assumes "typed_lines ma ssid pw rest" "ma_write ma = WriteDone"
    and "\<And>args files flash. espflash args files flash = (None, flash)"
  shows "\<exists>mb img. provision_main espflash ma = (Inl IoFailure, mb) \<and> ma_flash mb = ma_flash ma \<and>
    ma_files mb (temp_path ma) = Some img \<and> take (length pw) (drop (12 + length ssid) img) = pw"
proof -
  let ?img = "wifi_record ssid pw @ replicate (4084 - length ssid - length pw) 0xff"
  obtain m1 where m1: "same_board ma m1"
    "provision_main espflash ma = write_and_flash espflash (port_argument (ma_args ma)) ?img m1"
    using provision_main_typed [OF assms(1)] .
  have "temp_path m1 = temp_path ma" "ma_write m1 = WriteDone" "ma_flash m1 = ma_flash ma"
    using m1(1) assms(2) by (simp_all add: same_board_def temp_path_def)
  moreover obtain h where "wifi_record ssid pw = h @ ssid @ pw" "length h = 12"
    using that [of "take 12 (wifi_record ssid pw)"] by (simp add: wifi_record_def wifi_header_def to_le_bytes32_def)
  then have "take (length pw) (drop (12 + length ssid) ?img) = pw" by simp
  ultimately show ?thesis
    using m1(2) write_and_flash_not_started [of m1 espflash _ ?img] assms(3) by simp
qed

theorem password_left_on_disk_witness:
  "\<exists>mb img. provision_main (\<lambda>_ _ flash. (None, flash)) sample_machine = (Inl IoFailure, mb) \<and>
     ma_files mb (temp_path sample_machine) = Some img \<and> take 6 (drop 15 img) = ascii ''secret''"
proof -
  have w: "ma_write sample_machine = WriteDone" by (simp add: sample_machine_def)
  have l: "length (ascii ''secret'') = 6" "12 + length (ascii ''net'') = 15" by simp_all
  from password_left_on_disk [OF sample_input w, where espflash = "\<lambda>_ _ flash. (None, flash)", OF refl]
  show ?thesis unfolding l by blast
qed

end
