(* ===== verification/Firmware_Boot.thy ===== *)
theory Firmware_Boot
  imports Controller_Service Wifi_Provision Json_Reader "HOL-Library.Sublist"
begin

text \<open>
  Start-up of the firmware: \<open>main\<close> of \<open>src/src/bin/main.rs\<close> from the display to
  the last task it spawns, with the board constants of \<open>src/src/lib.rs\<close>, the status screens, and
  the task that keeps the board on its Wi-Fi network. The drivers, the radio and the network stack are
  not part of the sources: the model takes the outcome of each of their calls as input and records, in
  order, what the firmware asked of them. The lemmas say which starts end in a panic, that a board
  without credentials never switches its radio on, and that a provisioned one ends up with exactly the
  tasks and sockets that the controller service and the raw tunnel are built for.
\<close>

section \<open>The board\<close>

definition OLED_SDA_GPIO :: u8 where "OLED_SDA_GPIO = 5"
definition OLED_SCL_GPIO :: u8 where "OLED_SCL_GPIO = 6"
definition OLED_I2C_ADDRESS :: u8 where "OLED_I2C_ADDRESS = 0x3c"
definition OLED_WIDTH :: nat where "OLED_WIDTH = 72"
definition OLED_HEIGHT :: nat where "OLED_HEIGHT = 40"
definition SERVO_UART_RX_GPIO :: u8 where "SERVO_UART_RX_GPIO = 20"
definition SERVO_UART_TX_GPIO :: u8 where "SERVO_UART_TX_GPIO = 21"
definition SERVO_UART_BAUD :: u32 where "SERVO_UART_BAUD = 1000000"

section \<open>The status screen\<close>

text \<open>What is drawn: the clear, the frame of one pixel, and text centred at a column below a row. A
  drawing error is ignored, so drawing has no outcome.\<close>

datatype draw_op = Cleared | Frame nat nat | TextLine string nat nat

definition show_status :: "string list \<Rightarrow> draw_op list" where
  "show_status lines = Cleared # Frame OLED_WIDTH OLED_HEIGHT #
     map (\<lambda>(line, y). TextLine line (OLED_WIDTH div 2) y) (zip lines [4, 16, 28])"

type_synonym ipv4 = "u8 \<times> u8 \<times> u8 \<times> u8"

definition show_ip_address :: "ipv4 \<Rightarrow> draw_op list" where
  "show_ip_address = (\<lambda>(first, second, third, fourth).
     let first_line = decimal (unat first) @ ''.'' @ decimal (unat second) @ ''.'';
         second_line = decimal (unat third) @ ''.'' @ decimal (unat fourth)
     in show_status [''IP ADDRESS'', first_line, second_line])"

section \<open>Start-up\<close>

text \<open>A task function has a pool of this many instances; taking one more fails.\<close>

datatype task = WifiConnectionTask | NetworkTask | ControllerTask | RawTunnelTask

fun pool_size :: "task \<Rightarrow> nat" where
  "pool_size ControllerTask = CONTROLLER_TRANSPORT_SLOTS"
| "pool_size _ = 1"

text \<open>The display is opened with its data and clock pins and its address, the UART with its
  receive and transmit pins and its rate; the radio gets the SSID and the password as bytes of
  text; the stack its number of sockets and its random seed.\<close>

datatype boot_action =
    OpenDisplay u8 u8 u8
  | Draw "draw_op list"
  | FlushDisplay
  | OpenUart u8 u8 u32
  | StartRadio "u8 list" "u8 list"
  | CreateStack nat u64
  | Spawn task

datatype boot_stop = Panic string | NotProvisioned | AwaitingNetwork

text \<open>\<open>bo_drivers\<close> are the outcomes of the coming driver calls that \<open>main\<close> expects to
  succeed (an exhausted list means they do).\<close>

record boot =
  bo_drivers :: "bool list"
  bo_random :: "u32 \<times> u32"
  bo_trace :: "boot_action list"

definition act :: "boot_action \<Rightarrow> (boot, boot_stop, unit) action" where
  "act a b = (Inr (), b\<lparr>bo_trace := bo_trace b @ [a]\<rparr>)"

definition expect_driver :: "string \<Rightarrow> (boot, boot_stop, unit) action" where
  "expect_driver msg b =
     (case bo_drivers b of
        [] \<Rightarrow> (Inr (), b)
      | okay # rest \<Rightarrow> (if okay then Inr () else Inl (Panic msg), b\<lparr>bo_drivers := rest\<rparr>))"

definition flush_display :: "(boot, boot_stop, unit) action" where
  "flush_display = try_then (expect_driver ''failed to update OLED'') (\<lambda>_. act FlushDisplay)"

definition spawned :: "task \<Rightarrow> boot_action list \<Rightarrow> nat" where
  "spawned t trace = length (filter (\<lambda>a. a = Spawn t) trace)"

definition spawn_task :: "task \<Rightarrow> string \<Rightarrow> (boot, boot_stop, unit) action" where
  "spawn_task t msg b = (if spawned t (bo_trace b) < pool_size t then act (Spawn t) b else (Inl (Panic msg), b))"

definition boot_hardware :: "(boot, boot_stop, unit) action" where
  "boot_hardware =
     try_then (expect_driver ''failed to configure I2C0'') (\<lambda>_.
     try_then (act (OpenDisplay 5 6 OLED_I2C_ADDRESS)) (\<lambda>_.
     try_then (expect_driver ''failed to initialize OLED'') (\<lambda>_.
     try_then (act (Draw (show_status [''FETCHLINE'', ''WIFI STS'', ''STARTING'']))) (\<lambda>_.
     try_then flush_display (\<lambda>_.
     try_then (expect_driver ''failed to configure UART1'') (\<lambda>_.
       act (OpenUart 20 21 SERVO_UART_BAUD)))))))"

text \<open>Without credentials \<open>main\<close> stays in an idle loop after it has shown the hint.\<close>

definition boot_credentials :: "(nat \<Rightarrow> nat \<Rightarrow> u8 list option) \<Rightarrow> (boot, boot_stop, WifiCredentials) action" where
  "boot_credentials rom =
     (case load_wifi_credentials rom of
        None \<Rightarrow> return_err (Panic ''index out of range'')
      | Some (Some credentials) \<Rightarrow> return_ok credentials
      | Some None \<Rightarrow>
          try_then (act (Draw (show_status [''WIFI CONFIG'', ''USB PROVISION'', ''REQUIRED'']))) (\<lambda>_.
          try_then flush_display (\<lambda>_. return_err NotProvisioned)))"

definition expect_utf8 :: "u8 list \<Rightarrow> nat \<Rightarrow> string \<Rightarrow> (boot, boot_stop, u8 list) action" where
  "expect_utf8 bytes len msg =
     (case subslice bytes 0 len of
        None \<Rightarrow> return_err (Panic ''index out of range'')
      | Some s \<Rightarrow> if valid_utf8 s then return_ok s else return_err (Panic msg))"

definition boot_radio :: "WifiCredentials \<Rightarrow> (boot, boot_stop, unit) action" where
  "boot_radio credentials =
     try_then (expect_utf8 (wc_ssid credentials) (wc_ssid_len credentials)
       ''provisioned Wi-Fi SSID must be UTF-8'') (\<lambda>wifi_ssid.
     try_then (expect_utf8 (wc_password credentials) (wc_password_len credentials)
       ''provisioned Wi-Fi password must be UTF-8'') (\<lambda>wifi_password.
     try_then (expect_driver ''failed to initialize Wi-Fi'') (\<lambda>_.
       act (StartRadio wifi_ssid wifi_password))))"

definition boot_stack :: "(boot, boot_stop, unit) action" where
  "boot_stack = (\<lambda>b.
     let seed = push_bit 32 (ucast (fst (bo_random b))) OR ucast (snd (bo_random b)) in
     try_then (act (CreateStack 5 seed)) (\<lambda>_.
     try_then (spawn_task WifiConnectionTask ''failed to allocate Wi-Fi connection task'') (\<lambda>_.
       spawn_task NetworkTask ''failed to allocate network task'')) b)"

text \<open>The wait for the network: it may never come up, and its configuration may be gone again when
  \<open>main\<close> asks for it.\<close>

definition boot_network :: "ipv4 option option \<Rightarrow> (boot, boot_stop, unit) action" where
  "boot_network network =
     (case network of
        None \<Rightarrow> return_err AwaitingNetwork
      | Some None \<Rightarrow> return_ok ()
      | Some (Some address) \<Rightarrow>
          try_then (act (Draw (show_ip_address address))) (\<lambda>_. flush_display))"

definition boot_services :: "(boot, boot_stop, unit) action" where
  "boot_services =
     try_then (spawn_task ControllerTask ''failed to allocate first JSON-RPC controller task'') (\<lambda>_.
     try_then (spawn_task ControllerTask ''failed to allocate replacement JSON-RPC controller task'') (\<lambda>_.
     try_then (spawn_task ControllerTask ''failed to allocate standby JSON-RPC controller task'') (\<lambda>_.
       spawn_task RawTunnelTask ''failed to allocate raw tunnel task'')))"

definition boot_main ::
  "(nat \<Rightarrow> nat \<Rightarrow> u8 list option) \<Rightarrow> ipv4 option option \<Rightarrow> (boot, boot_stop, unit) action" where
  "boot_main rom network =
     try_then boot_hardware (\<lambda>_.
     try_then (boot_credentials rom) (\<lambda>wifi_credentials.
     try_then (boot_radio wifi_credentials) (\<lambda>_.
     try_then boot_stack (\<lambda>_.
     try_then (boot_network network) (\<lambda>_. boot_services)))))"

section \<open>The course of a start\<close>

definition driver_messages :: "string list" where
  "driver_messages = [''failed to configure I2C0'', ''failed to initialize OLED'', ''failed to update OLED'',
     ''failed to configure UART1'', ''failed to initialize Wi-Fi'']"

text \<open>From the trace \<open>t\<close> the stage has the result \<open>e\<close> and the effects \<open>acts\<close>,
  unless a driver fails on the way: then the start panics there, having done a part of them.\<close>

definition stage :: "u32 \<times> u32 \<Rightarrow> (boot, boot_stop, 'a) action \<Rightarrow> boot_action list \<Rightarrow> boot_stop + 'a \<Rightarrow> boot_action list \<Rightarrow> bool" where
  "stage rnd m t e acts \<longleftrightarrow> (\<forall>b r b'. bo_trace b = t \<longrightarrow> bo_random b = rnd \<longrightarrow> m b = (r, b') \<longrightarrow>
     bo_random b' = rnd \<and> set (bo_drivers b') \<subseteq> set (bo_drivers b) \<and>
     (r = e \<and> bo_trace b' = t @ acts \<or>
      False \<in> set (bo_drivers b) \<and> (\<exists>msg \<in> set driver_messages. r = Inl (Panic msg)) \<and>
        prefix (bo_trace b') (t @ acts)))"

lemma stageD:
  assumes "stage rnd m t e acts" "bo_trace b = t" "bo_random b = rnd" "m b = (r, b')"
  shows "bo_random b' = rnd" "set (bo_drivers b') \<subseteq> set (bo_drivers b)"
    "r = e \<and> bo_trace b' = t @ acts \<or>
     False \<in> set (bo_drivers b) \<and> (\<exists>msg \<in> set driver_messages. r = Inl (Panic msg)) \<and> prefix (bo_trace b') (t @ acts)"
  using assms unfolding stage_def by blast+

named_theorems stages \<open>the stages of the start-up\<close>

lemma stage_act [stages]: "stage rnd (act a) t (Inr ()) [a]"
  by (simp add: stage_def act_def)

lemma stage_ok [stages]: "stage rnd (return_ok a) t (Inr a) []"
  by (simp add: stage_def return_ok_def)

lemma stage_err [stages]: "stage rnd (return_err e) t (Inl e) []"
  by (simp add: stage_def return_err_def)

lemma stage_driver: "msg \<in> set driver_messages \<Longrightarrow> stage rnd (expect_driver msg) t (Inr ()) []"
  by (auto simp: stage_def expect_driver_def split: list.splits)

lemma stage_then:
  assumes m: "stage rnd m t (Inr a) xs" and k: "stage rnd (k a) (t @ xs) e ys"
  shows "stage rnd (try_then m k) t e (xs @ ys)"
  unfolding stage_def
proof (intro allI impI)
  fix b r b' assume b: "bo_trace b = t" "bo_random b = rnd" and run: "try_then m k b = (r, b')"
  obtain r1 b1 where mb: "m b = (r1, b1)" by fastforce
  note first = stageD [OF m b mb]
  from first(3) show "bo_random b' = rnd \<and> set (bo_drivers b') \<subseteq> set (bo_drivers b) \<and>
      (r = e \<and> bo_trace b' = t @ xs @ ys \<or>
       False \<in> set (bo_drivers b) \<and> (\<exists>msg \<in> set driver_messages. r = Inl (Panic msg)) \<and> prefix (bo_trace b') (t @ xs @ ys))"
  proof
    assume r1: "r1 = Inr a \<and> bo_trace b1 = t @ xs"
    then have "k a b1 = (r, b')" using mb run by simp
    from stageD [OF k _ first(1) this] r1 first(2) show ?thesis by auto
  next
    assume r1: "False \<in> set (bo_drivers b) \<and> (\<exists>msg \<in> set driver_messages. r1 = Inl (Panic msg)) \<and> prefix (bo_trace b1) (t @ xs)"
    then obtain msg where msg: "msg \<in> set driver_messages" "r1 = Inl (Panic msg)" by blast
    with mb run have "r = Inl (Panic msg)" "b' = b1" by (simp_all add: try_then_def)
    with r1 first(1,2) msg show ?thesis using prefix_prefix [of "bo_trace b1" "t @ xs" ys] by auto
  qed
qed

lemma stage_stop:
  assumes m: "stage rnd m t (Inl e) xs"
  shows "stage rnd (try_then m k) t (Inl e) xs"
  unfolding stage_def
proof (intro allI impI)
  fix b r b' assume b: "bo_trace b = t" "bo_random b = rnd" and run: "try_then m k b = (r, b')"
  obtain r1 b1 where mb: "m b = (r1, b1)" by fastforce
  note first = stageD [OF m b mb]
  from first(3) obtain e1 where "r1 = Inl e1" by auto
  with mb run have "r = Inl e1" "b' = b1" by (auto simp: try_then_def)
  with first \<open>r1 = Inl e1\<close> show "bo_random b' = rnd \<and> set (bo_drivers b') \<subseteq> set (bo_drivers b) \<and>
      (r = Inl e \<and> bo_trace b' = t @ xs \<or>
       False \<in> set (bo_drivers b) \<and> (\<exists>msg \<in> set driver_messages. r = Inl (Panic msg)) \<and> prefix (bo_trace b') (t @ xs))"
    by auto
qed

lemma stage_spawn: "spawned k t < pool_size k \<Longrightarrow> stage rnd (spawn_task k msg) t (Inr ()) [Spawn k]"
  by (simp add: stage_def spawn_task_def act_def)

lemma stage_utf8:
  "n \<le> length bytes \<Longrightarrow> valid_utf8 (take n bytes) \<Longrightarrow> stage rnd (expect_utf8 bytes n msg) t (Inr (take n bytes)) []"
  by (simp add: expect_utf8_def subslice_def stages)

text \<open>Two stages in a row, with what they do together given beforehand.\<close>

lemma stage_seq: "stage rnd m t (Inr a) xs \<Longrightarrow> stage rnd (k a) (t @ xs) e ys \<Longrightarrow> zs = xs @ ys \<Longrightarrow>
    stage rnd (try_then m k) t e zs"
  by (simp add: stage_then)

lemma driver_names: "set driver_messages = {''failed to configure I2C0'', ''failed to initialize OLED'',
    ''failed to update OLED'', ''failed to configure UART1'', ''failed to initialize Wi-Fi''}"
  by (simp add: driver_messages_def)

lemma stage_flush [stages]: "stage rnd flush_display t (Inr ()) [FlushDisplay]"
  unfolding flush_display_def
  by (rule stage_seq stage_driver stages stage_spawn stage_utf8 | simp add: driver_names)+

definition hardware_acts :: "boot_action list" where
  "hardware_acts = [OpenDisplay 5 6 OLED_I2C_ADDRESS, Draw (show_status [''FETCHLINE'', ''WIFI STS'', ''STARTING'']),
     FlushDisplay, OpenUart 20 21 SERVO_UART_BAUD]"

text \<open>The pins and the baud rate in use are those that the board description names.\<close>

lemma pins_as_described:
  "OpenDisplay OLED_SDA_GPIO OLED_SCL_GPIO 0x3c \<in> set hardware_acts"
  "OpenUart SERVO_UART_RX_GPIO SERVO_UART_TX_GPIO 1000000 \<in> set hardware_acts"
  by (simp_all add: hardware_acts_def OLED_SDA_GPIO_def OLED_SCL_GPIO_def OLED_I2C_ADDRESS_def
      SERVO_UART_RX_GPIO_def SERVO_UART_TX_GPIO_def SERVO_UART_BAUD_def)

lemma stage_hardware [stages]: "stage rnd boot_hardware t (Inr ()) hardware_acts"
  unfolding boot_hardware_def
  by (rule stage_seq stage_driver stages stage_spawn stage_utf8 | simp add: driver_names hardware_acts_def)+

lemma stage_unprovisioned:
  "load_wifi_credentials rom = Some None \<Longrightarrow>
   stage rnd (boot_credentials rom) t (Inl NotProvisioned)
     [Draw (show_status [''WIFI CONFIG'', ''USB PROVISION'', ''REQUIRED'']), FlushDisplay]"
  unfolding boot_credentials_def by simp ((rule stage_seq stages | simp)+)

lemma stage_provisioned:
  "load_wifi_credentials rom = Some (Some cr) \<Longrightarrow> stage rnd (boot_credentials rom) t (Inr cr) []"
  unfolding boot_credentials_def by (simp add: stages)

text \<open>Credentials of the form that \<open>load_wifi_credentials\<close> reports.\<close>

definition sound_credentials :: "WifiCredentials \<Rightarrow> bool" where
  "sound_credentials cr \<longleftrightarrow> wc_ssid_len cr \<le> length (wc_ssid cr) \<and> wc_password_len cr \<le> length (wc_password cr) \<and>
     valid_utf8 (take (wc_ssid_len cr) (wc_ssid cr)) \<and> valid_utf8 (take (wc_password_len cr) (wc_password cr))"

lemma stage_radio: "sound_credentials cr \<Longrightarrow> stage rnd (boot_radio cr) t (Inr ())
    [StartRadio (take (wc_ssid_len cr) (wc_ssid cr)) (take (wc_password_len cr) (wc_password cr))]"
  unfolding boot_radio_def
  by (rule stage_seq stage_driver stages stage_spawn stage_utf8 | simp add: driver_names sound_credentials_def)+

definition stack_seed :: "u32 \<times> u32 \<Rightarrow> u64" where
  "stack_seed rnd = push_bit 32 (ucast (fst rnd)) OR ucast (snd rnd)"

lemma spawned_simps [simp]:
  "spawned k [] = 0" "spawned k (xs @ ys) = spawned k xs + spawned k ys"
  "spawned k (a # xs) = (if a = Spawn k then Suc (spawned k xs) else spawned k xs)"
  by (simp_all add: spawned_def)

lemma stage_random: "(\<And>b. bo_random b = rnd \<Longrightarrow> m b = m' b) \<Longrightarrow> stage rnd m' t e xs \<Longrightarrow> stage rnd m t e xs"
  by (simp add: stage_def)

lemma stage_stack: "spawned WifiConnectionTask t = 0 \<Longrightarrow> spawned NetworkTask t = 0 \<Longrightarrow>
    stage rnd boot_stack t (Inr ()) [CreateStack 5 (stack_seed rnd), Spawn WifiConnectionTask, Spawn NetworkTask]"
  by (rule stage_random [where m' = "try_then (act (CreateStack 5 (stack_seed rnd))) (\<lambda>_.
     try_then (spawn_task WifiConnectionTask ''failed to allocate Wi-Fi connection task'') (\<lambda>_.
       spawn_task NetworkTask ''failed to allocate network task''))"])
     (simp add: boot_stack_def stack_seed_def, (rule stage_seq stages stage_spawn | simp)+)

fun network_acts :: "ipv4 option \<Rightarrow> boot_action list" where
  "network_acts None = []"
| "network_acts (Some address) = [Draw (show_ip_address address), FlushDisplay]"

lemma stage_network: "stage rnd (boot_network (Some config)) t (Inr ()) (network_acts config)"
  unfolding boot_network_def by (cases config; simp add: stages; (rule stage_seq stages | simp)+)

lemma stage_no_network: "stage rnd (boot_network None) t (Inl AwaitingNetwork) []"
  by (simp add: boot_network_def stages)

lemma stage_services: "spawned ControllerTask t = 0 \<Longrightarrow> spawned RawTunnelTask t = 0 \<Longrightarrow>
    stage rnd boot_services t (Inr ()) [Spawn ControllerTask, Spawn ControllerTask, Spawn ControllerTask, Spawn RawTunnelTask]"
  unfolding boot_services_def
  by (rule stage_seq stages stage_spawn | simp add: CONTROLLER_TRANSPORT_SLOTS_def)+

section \<open>Whole starts\<close>

lemma stage_boot_unprovisioned:
  "load_wifi_credentials rom = Some None \<Longrightarrow> stage rnd (boot_main rom network) t (Inl NotProvisioned)
     (hardware_acts @ [Draw (show_status [''WIFI CONFIG'', ''USB PROVISION'', ''REQUIRED'']), FlushDisplay])"
  unfolding boot_main_def by (rule stage_seq stages stage_stop stage_unprovisioned | assumption | simp)+

definition radio_acts :: "u32 \<times> u32 \<Rightarrow> WifiCredentials \<Rightarrow> boot_action list" where
  "radio_acts rnd cr = hardware_acts @
     [StartRadio (take (wc_ssid_len cr) (wc_ssid cr)) (take (wc_password_len cr) (wc_password cr)),
      CreateStack 5 (stack_seed rnd), Spawn WifiConnectionTask, Spawn NetworkTask]"

definition service_acts :: "boot_action list" where
  "service_acts = [Spawn ControllerTask, Spawn ControllerTask, Spawn ControllerTask, Spawn RawTunnelTask]"

lemma spawned_before: "spawned k hardware_acts = 0" "spawned k (network_acts config) = 0"
  by (cases config; simp add: hardware_acts_def)+

lemma stage_boot_offline:
  assumes "load_wifi_credentials rom = Some (Some cr)" "sound_credentials cr"
  shows "stage rnd (boot_main rom None) [] (Inl AwaitingNetwork) (radio_acts rnd cr)"
  unfolding boot_main_def
  by (rule stage_seq [OF stage_hardware] stage_seq [OF stage_provisioned] stage_seq [OF stage_radio]
      stage_seq [OF stage_stack] stage_stop stage_no_network | simp add: assms spawned_before radio_acts_def)+

lemma stage_boot_online:
  assumes "load_wifi_credentials rom = Some (Some cr)" "sound_credentials cr"
  shows "stage rnd (boot_main rom (Some config)) [] (Inr ()) (radio_acts rnd cr @ network_acts config @ service_acts)"
  unfolding boot_main_def
  by (rule stage_seq [OF stage_hardware] stage_seq [OF stage_provisioned] stage_seq [OF stage_radio]
      stage_seq [OF stage_stack] stage_seq [OF stage_network] stage_services
    | simp add: assms spawned_before radio_acts_def service_acts_def)+

text \<open>The reader fills the buffer it is given, or fails.\<close>

definition rom_fills :: "(nat \<Rightarrow> nat \<Rightarrow> u8 list option) \<Rightarrow> bool" where
  "rom_fills rom \<longleftrightarrow> (\<forall>bytes. rom 0x3f0000 108 = Some bytes \<longrightarrow> length bytes = 108)"

lemma load_cases:
  assumes "rom_fills rom"
  obtains (missing) "load_wifi_credentials rom = Some None"
  | (found) cr where "load_wifi_credentials rom = Some (Some cr)" "sound_credentials cr"
proof -
  from wifi_load_validates [of rom] assms obtain res where res: "load_wifi_credentials rom = Some res"
    "\<And>cr. res = Some cr \<Longrightarrow> wc_ssid_len cr \<le> 32 \<and> length (wc_ssid cr) = 32 \<and>
       wc_password_len cr \<le> 63 \<and> length (wc_password cr) = 63 \<and>
       valid_utf8 (take (wc_ssid_len cr) (wc_ssid cr)) \<and> valid_utf8 (take (wc_password_len cr) (wc_password cr))"
    by (auto simp: rom_fills_def)
  then show thesis by (cases res) (auto intro: missing found simp: sound_credentials_def)
qed

lemma rom_read_fills: "rom_fills (rom_read flash)"
  by (simp add: rom_fills_def rom_read_def)

text \<open>Every start is one of the three.\<close>

lemma boot_cases:
  assumes "rom_fills rom"
  obtains (unprovisioned) "load_wifi_credentials rom = Some None"
      "stage rnd (boot_main rom network) [] (Inl NotProvisioned)
        (hardware_acts @ [Draw (show_status [''WIFI CONFIG'', ''USB PROVISION'', ''REQUIRED'']), FlushDisplay])"
  | (offline) cr where "load_wifi_credentials rom = Some (Some cr)" "network = None"
      "stage rnd (boot_main rom network) [] (Inl AwaitingNetwork) (radio_acts rnd cr)"
  | (online) cr config where "load_wifi_credentials rom = Some (Some cr)" "network = Some config"
      "stage rnd (boot_main rom network) [] (Inr ()) (radio_acts rnd cr @ network_acts config @ service_acts)"
  using assms
proof (cases rule: load_cases)
  case missing
  from unprovisioned [OF this stage_boot_unprovisioned [OF this]] show thesis .
next
  case (found cr)
  show thesis
  proof (cases network)
    case None
    from offline [OF found(1) this] stage_boot_offline [OF found] None show thesis by simp
  next
    case (Some config)
    from online [OF found(1) this] stage_boot_online [OF found] Some show thesis by simp
  qed
qed

section \<open>The Wi-Fi connection task\<close>

text \<open>The phases are the suspension points; the event says how the wait ended and how many milliseconds
  it took. The timer of five seconds never fires early.\<close>

datatype wifi_phase = WifiConnecting | WifiAssociated | WifiPausing
datatype wifi_event = ConnectEnded bool nat | LinkLost nat | PauseOver nat

record wifi_task =
  wt_phase :: wifi_phase
  wt_attempts :: nat
  wt_clock :: nat

definition wifi_connection :: wifi_task where
  "wifi_connection = \<lparr>wt_phase = WifiConnecting, wt_attempts = 1, wt_clock = 0\<rparr>"

fun wifi_next :: "wifi_phase \<Rightarrow> wifi_event \<Rightarrow> (wifi_phase \<times> nat) option" where
  "wifi_next WifiConnecting (ConnectEnded ok ms) = Some (if ok then WifiAssociated else WifiPausing, ms)"
| "wifi_next WifiAssociated (LinkLost ms) = Some (WifiPausing, ms)"
| "wifi_next WifiPausing (PauseOver ms) = (if 5000 \<le> ms then Some (WifiConnecting, ms) else None)"
| "wifi_next _ _ = None"

definition wifi_step :: "wifi_task \<Rightarrow> wifi_event \<Rightarrow> wifi_task option" where
  "wifi_step w e = map_option (\<lambda>(p, ms). w\<lparr>wt_phase := p, wt_clock := wt_clock w + ms,
      wt_attempts := wt_attempts w + (if p = WifiConnecting then 1 else 0)\<rparr>) (wifi_next (wt_phase w) e)"

definition wifi_inv :: "wifi_task \<Rightarrow> bool" where
  "wifi_inv w \<longleftrightarrow> 1 \<le> wt_attempts w \<and> 5000 * (wt_attempts w - 1) \<le> wt_clock w"

interpretation wifi: invariant_system "\<lambda>w. w = wifi_connection" "\<lambda>w e w'. wifi_step w e = Some w'" wifi_inv
proof unfold_locales
  fix w e w' assume "wifi_inv w" "wifi_step w e = Some w'"
  then show "wifi_inv w'"
    by (cases "wt_phase w"; cases e) (auto simp: wifi_step_def wifi_inv_def algebra_simps split: if_splits)
qed (simp add: wifi_inv_def wifi_connection_def)

lemma wifi_next_phase: "wifi_next p e = Some (q, ms) \<Longrightarrow>
    q = (case p of WifiAssociated \<Rightarrow> WifiPausing | WifiPausing \<Rightarrow> WifiConnecting | WifiConnecting \<Rightarrow> q) \<and>
    (p = WifiConnecting \<longrightarrow> q \<noteq> WifiConnecting)"
  by (cases p; cases e) (auto split: if_splits)

lemma wifi_step_attempts: "wifi_step w e = Some v \<Longrightarrow>
    wt_attempts v = wt_attempts w + (if wt_phase v = WifiConnecting then 1 else 0) \<and>
    (\<exists>ms. wifi_next (wt_phase w) e = Some (wt_phase v, ms))"
  by (auto simp: wifi_step_def)

text \<open>Where the task gets in a number of events: one new attempt at least every three.\<close>

lemma wifi_run_attempts: "run wifi_step w es = Some w' \<Longrightarrow>
    wt_attempts w + length es div 3 \<le> wt_attempts w'"
proof (induction "length es" arbitrary: w es rule: less_induct)
  case less
  have step: "wt_attempts w \<le> wt_attempts v" if "wifi_step w e = Some v" for w e v
    using that by (auto simp: wifi_step_def)
  have mono: "run wifi_step w es = Some w' \<Longrightarrow> wt_attempts w \<le> wt_attempts w'" for w es
    by (induction es arbitrary: w) (auto split: option.splits dest: step order_trans)
  show ?case
  proof (cases "length es < 3")
    case True
    with mono less.prems show ?thesis by simp
  next
    case False
    then obtain a b c fs where es: "es = a # b # c # fs"
      by (metis One_nat_def Suc_1 length_Cons length_greater_0_conv less_Suc_eq list.exhaust list.size(3) numeral_3_eq_3 zero_less_Suc)
    then obtain w1 w2 w3 where w: "wifi_step w a = Some w1" "wifi_step w1 b = Some w2" "wifi_step w2 c = Some w3"
      "run wifi_step w3 fs = Some w'"
      using less.prems by (auto split: option.splits)
    have "wt_attempts w + 1 \<le> wt_attempts w3"
      using wifi_step_attempts [OF w(1)] wifi_step_attempts [OF w(2)] wifi_step_attempts [OF w(3)]
      by (cases "wt_phase w") (auto dest!: wifi_next_phase split: wifi_phase.splits)
    moreover have "wt_attempts w3 + length fs div 3 \<le> wt_attempts w'"
      using less.hyps [of fs w3] w(4) es by simp
    ultimately show ?thesis by (simp add: es)
  qed
qed

text \<open>The pixels of a character, as its font documents them: FONT_6X10 has 6 by 10.\<close>

fun fits :: "nat \<times> nat \<Rightarrow> draw_op \<Rightarrow> bool" where
  "fits (glyph_width, glyph_height) (TextLine line x y) \<longleftrightarrow>
     glyph_width * length line \<le> OLED_WIDTH \<and> y + glyph_height \<le> OLED_HEIGHT"
| "fits _ _ \<longleftrightarrow> True"

lemma decimal_u8_length: "length (decimal (unat (b :: u8))) \<le> 3"
  using length_decimal_le [of "unat b" 2] unat_u8_less [of b] by simp

lemma ip_screen_fits: "list_all (fits (6, 10)) (show_ip_address address)"
proof (cases address)
  case (fields a b c d)
  then show ?thesis
    using decimal_u8_length [of a] decimal_u8_length [of b] decimal_u8_length [of c] decimal_u8_length [of d]
    by (simp add: show_ip_address_def show_status_def Let_def OLED_WIDTH_def OLED_HEIGHT_def)
qed

section \<open>Properties\<close>

text \<open>C34. A start of the firmware panics only when a driver reports a failure, with the message of that
  driver: whatever the flash holds, neither reading the credentials nor taking a task from its pool nor
  converting the credentials to text panics.\<close>
theorem boot_panics_only_on_drivers:
  assumes "rom_fills rom" "bo_trace b = []" "boot_main rom network b = (Inl (Panic msg), b')"
  shows "False \<in> set (bo_drivers b) \<and> msg \<in> {''failed to configure I2C0'', ''failed to initialize OLED'',
    ''failed to update OLED'', ''failed to configure UART1'', ''failed to initialize Wi-Fi''}"
  using assms(1)
  by (cases rule: boot_cases [where network = network and rnd = "bo_random b"])
    (use assms(2,3) in \<open>auto dest!: stageD(3) simp: driver_names\<close>)

theorem boot_panics_only_on_drivers_witness:
  "\<exists>msg b'. boot_main (rom_read (\<lambda>_. 0)) None \<lparr>bo_drivers = [True, False], bo_random = (0, 0), bo_trace = []\<rparr> =
     (Inl (Panic msg), b') \<and> msg \<in> {''failed to configure I2C0'', ''failed to initialize OLED'',
    ''failed to update OLED'', ''failed to configure UART1'', ''failed to initialize Wi-Fi''}"
proof -
  let ?b = "\<lparr>bo_drivers = [True, False], bo_random = (0, 0), bo_trace = []\<rparr>"
  have "fst (boot_main (rom_read (\<lambda>_. 0)) None ?b) = Inl (Panic ''failed to initialize OLED'')"
    by (simp add: boot_main_def boot_hardware_def try_then_def expect_driver_def act_def)
  then obtain b' where "boot_main (rom_read (\<lambda>_. 0)) None ?b = (Inl (Panic ''failed to initialize OLED''), b')"
    by (metis prod.collapse)
  with boot_panics_only_on_drivers [OF rom_read_fills _ this] show ?thesis by fastforce
qed

text \<open>C35. Without valid credentials in the flash the firmware never switches the radio on and starts no
  task: it shows the provisioning hint and stays idle, or a driver failed before that.\<close>
theorem boot_without_credentials_stays_offline:
  assumes "load_wifi_credentials rom = Some None" "bo_trace b = []" "boot_main rom network b = (r, b')"
  shows "(r = Inl NotProvisioned \<or> (\<exists>msg. r = Inl (Panic msg) \<and> False \<in> set (bo_drivers b))) \<and>
    (\<forall>ssid pw. StartRadio ssid pw \<notin> set (bo_trace b')) \<and> (\<forall>t. Spawn t \<notin> set (bo_trace b'))"
proof -
  from stageD(3) [OF stage_boot_unprovisioned [OF assms(1)] assms(2) refl assms(3)]
  have "set (bo_trace b') \<subseteq> set (hardware_acts @ [Draw (show_status [''WIFI CONFIG'', ''USB PROVISION'', ''REQUIRED'']),
      FlushDisplay])" "r = Inl NotProvisioned \<or> (\<exists>msg. r = Inl (Panic msg) \<and> False \<in> set (bo_drivers b))"
    by (auto dest!: set_mono_prefix)
  then show ?thesis by (auto simp: hardware_acts_def)
qed

theorem boot_without_credentials_stays_offline_witness:
  "\<exists>b'. boot_main (\<lambda>_ _. None) None \<lparr>bo_drivers = [], bo_random = (0, 0), bo_trace = []\<rparr> = (Inl NotProvisioned, b') \<and>
     Spawn ControllerTask \<notin> set (bo_trace b')"
proof -
  let ?b = "\<lparr>bo_drivers = [], bo_random = (0, 0), bo_trace = []\<rparr>"
  obtain r b' where run: "boot_main (\<lambda>_ _. None) None ?b = (r, b')" by fastforce
  have "load_wifi_credentials (\<lambda>_ _. None) = Some None" by (simp add: load_wifi_credentials_def)
  from boot_without_credentials_stays_offline [OF this _ run] run show ?thesis by auto
qed

text \<open>C14. From provisioning to service: when the tool has succeeded and no driver fails, the firmware starts
  the radio once, with the SSID and the password that were typed, and spawns the Wi-Fi and network tasks,
  one raw tunnel and exactly as many controller tasks as the controller service has slots; the network
  stack has a socket for each of those services and one for DHCP.\<close>
theorem provisioned_board_boots:
  assumes "writes_file espflash" "provision_main espflash ma = (Inr (), mb)" "bo_trace b = []" "bo_drivers b = []"
  shows "\<exists>b'. boot_main (rom_read (ma_flash mb)) (Some config) b = (Inr (), b') \<and>
    (\<forall>ssid pw. StartRadio ssid pw \<in> set (bo_trace b') \<longleftrightarrow> ssid = typed_ssid ma \<and> pw = typed_password ma) \<and>
    spawned ControllerTask (bo_trace b') = length (svc_tasks svc_initial) \<and>
    spawned RawTunnelTask (bo_trace b') = 1 \<and> spawned WifiConnectionTask (bo_trace b') = 1 \<and>
    spawned NetworkTask (bo_trace b') = 1 \<and>
    (\<forall>n seed. CreateStack n seed \<in> set (bo_trace b') \<longrightarrow>
       n = 1 + spawned ControllerTask (bo_trace b') + spawned RawTunnelTask (bo_trace b'))"
proof -
  let ?cr = "\<lparr>wc_ssid = typed_ssid ma @ replicate (32 - length (typed_ssid ma)) 0, wc_ssid_len = length (typed_ssid ma),
       wc_password = typed_password ma @ replicate (63 - length (typed_password ma)) 0,
       wc_password_len = length (typed_password ma)\<rparr>"
  let ?rom = "rom_read (ma_flash mb)"
  have cr: "load_wifi_credentials ?rom = Some (Some ?cr)"
    using provisioned_flash [OF assms(1,2)] by blast
  from rom_read_fills have sound: "sound_credentials ?cr"
    by (cases rule: load_cases [where rom = ?rom]) (use cr in auto)
  obtain r b' where run: "boot_main ?rom (Some config) b = (r, b')" by fastforce
  from stageD(3) [OF stage_boot_online [OF cr sound] assms(3) refl run] assms(4)
  have "r = Inr ()" "bo_trace b' = radio_acts (bo_random b) ?cr @ network_acts config @ service_acts" by auto
  with run show ?thesis
    by (cases config) (auto simp: radio_acts_def service_acts_def hardware_acts_def svc_initial_def
        CONTROLLER_TRANSPORT_SLOTS_def)
qed

theorem provisioned_board_boots_witness:
  "\<exists>mb b'. provision_main working_espflash sample_machine = (Inr (), mb) \<and>
     boot_main (rom_read (ma_flash mb)) (Some (Some (192, 168, 0, 7)))
       \<lparr>bo_drivers = [], bo_random = (0, 0), bo_trace = []\<rparr> = (Inr (), b') \<and>
     spawned ControllerTask (bo_trace b') = length (svc_tasks svc_initial) \<and>
     StartRadio (ascii ''net'') (ascii ''secret'') \<in> set (bo_trace b')"
proof -
  obtain mb where mb: "provision_main working_espflash sample_machine = (Inr (), mb)"
    using sample_provisioned by blast
  let ?b = "\<lparr>bo_drivers = [], bo_random = (0, 0), bo_trace = []\<rparr>"
  have b: "bo_trace ?b = []" "bo_drivers ?b = []" by simp_all
  obtain b' where "boot_main (rom_read (ma_flash mb)) (Some (Some (192, 168, 0, 7))) ?b = (Inr (), b')"
    "spawned ControllerTask (bo_trace b') = length (svc_tasks svc_initial)"
    "StartRadio (typed_ssid sample_machine) (typed_password sample_machine) \<in> set (bo_trace b')"
    using provisioned_board_boots [OF working_espflash_writes mb b, of "Some (192, 168, 0, 7)"] by metis
  then show ?thesis unfolding sample_typed using mb by blast
qed

text \<open>The start screen and every IP address fit on the display, but the provisioning hint does not: the
  line with 13 characters of 6 pixels is wider than the 72 pixels of the display, so its ends are cut off.\<close>
theorem provisioning_hint_clipped:
  "list_all (fits (6, 10)) (show_status [''FETCHLINE'', ''WIFI STS'', ''STARTING'']) \<and>
   list_all (fits (6, 10)) (show_ip_address address) \<and>
   \<not> list_all (fits (6, 10)) (show_status [''WIFI CONFIG'', ''USB PROVISION'', ''REQUIRED''])"
  using ip_screen_fits by (simp add: show_status_def OLED_WIDTH_def OLED_HEIGHT_def)



end
