(* ===== verification/Websocket.thy ===== *)
theory Websocket
  imports Utf8
begin

text \<open>
  The RFC 6455 server of the firmware (\<open>src/src/websocket.rs\<close>): the HTTP upgrade, the
  frame reader with its control frames, and the frame writer, over a TCP connection that delivers a
  finite sequence of bytes and then fails. SHA-1 and Base64 (crates \<open>sha1\<close> and
  \<open>base64ct\<close>) are parameters. The lemmas show that what a client sends masked is read
  back exactly, that control frames are answered in order, that every malformed frame ends the
  session, and that what the server writes parses as one RFC 6455 frame.
\<close>

section \<open>The connection\<close>

text \<open>The bytes the peer still sends before the connection ends, whether each coming write
  succeeds (all of them do once the list is used up), and the buffers written.\<close>

record socket =
  so_rx :: "u8 list"
  so_tx_results :: "bool list"
  so_tx :: "u8 list list"

datatype ws_error = Closed | Io | InvalidHandshake | InvalidFrame | MessageTooLarge | InvalidText

definition ws_read_exact :: "nat \<Rightarrow> (socket, ws_error, u8 list) action" where
  "ws_read_exact n s =
     (if n \<le> length (so_rx s) then (Inr (take n (so_rx s)), s\<lparr>so_rx := drop n (so_rx s)\<rparr>)
      else (Inl Closed, s\<lparr>so_rx := []\<rparr>))"

definition ws_write_all :: "u8 list \<Rightarrow> (socket, ws_error, unit) action" where
  "ws_write_all bs s =
     (case so_tx_results s of
        False # rs \<Rightarrow> (Inl Io, s\<lparr>so_tx_results := rs\<rparr>)
      | True # rs \<Rightarrow> (Inr (), s\<lparr>so_tx_results := rs, so_tx := so_tx s @ [bs]\<rparr>)
      | [] \<Rightarrow> (Inr (), s\<lparr>so_tx := so_tx s @ [bs]\<rparr>))"

section \<open>Frames\<close>

definition ws_write_frame :: "u8 \<Rightarrow> u8 list \<Rightarrow> (socket, ws_error, unit) action" where
  "ws_write_frame opcode payload =
     (let header = (replicate 4 0)[0 := 0x80 OR opcode];
          framed = (if length payload \<le> 125 then Some (header[1 := of_nat (length payload)], 2)
            else case u16_try_from (length payload) of
                Some len \<Rightarrow> Some (the (copy_from_slice (header[1 := 126]) 2 4 (to_be_bytes16 len)), 4)
              | None \<Rightarrow> None)
      in case framed of
          None \<Rightarrow> return_err MessageTooLarge
        | Some (header, header_len) \<Rightarrow>
            try_then (ws_write_all (take header_len header)) (\<lambda>_. ws_write_all payload))"

definition ws_write_text :: "u8 list \<Rightarrow> (socket, ws_error, unit) action" where
  "ws_write_text msg = ws_write_frame 0x01 msg"

definition ws_read_payload_len :: "u8 \<Rightarrow> (socket, ws_error, nat) action" where
  "ws_read_payload_len first_len =
     (if first_len \<le> 125 then return_ok (unat first_len)
      else if first_len = 126 then
        try_then (ws_read_exact 2) (\<lambda>bytes. return_ok (unat (from_be_bytes16 (bytes ! 0) (bytes ! 1))))
      else return_err MessageTooLarge)"

definition unmask :: "u8 list \<Rightarrow> u8 list \<Rightarrow> u8 list" where
  "unmask mkey bytes = map (\<lambda>(i, b). b XOR mkey ! (i mod length mkey)) (enumerate 0 bytes)"

text \<open>Reading one frame: its opcode and unmasked payload.\<close>

definition ws_read_frame :: "nat \<Rightarrow> (socket, ws_error, u8 \<times> u8 list) action" where
  "ws_read_frame buffer =
     try_then (ws_read_exact 2) (\<lambda>header.
       if header ! 0 AND 0x70 \<noteq> 0 \<or> header ! 0 AND 0x80 = 0 \<or> header ! 1 AND 0x80 = 0
       then return_err InvalidFrame
       else
         try_then (ws_read_payload_len (header ! 1 AND 0x7f)) (\<lambda>payload_len.
           if payload_len > buffer then return_err MessageTooLarge
           else
             try_then (ws_read_exact 4) (\<lambda>mkey.
             try_then (ws_read_exact payload_len) (\<lambda>bytes.
               return_ok (header ! 0 AND 0x0f, unmask mkey bytes)))))"

lemma ws_read_exact_shrinks:
  "ws_read_exact n s = (Inr r, s') \<Longrightarrow> length (so_rx s') + n = length (so_rx s)"
  by (auto simp: ws_read_exact_def split: if_splits)

lemma ws_read_payload_len_shrinks:
  "ws_read_payload_len k s = (Inr r, s') \<Longrightarrow> length (so_rx s') \<le> length (so_rx s)"
  by (cases rule: try_then_cases [of "ws_read_exact 2" s])
     (auto simp: ws_read_payload_len_def return_ok_def return_err_def dest: ws_read_exact_shrinks split: if_splits)

lemma ws_write_frame_rx [simp]: "so_rx (snd (ws_write_frame opcode payload s)) = so_rx s"
proof -
  have w: "so_rx (snd (ws_write_all bs s)) = so_rx s" for bs and s :: socket
    by (simp add: ws_write_all_def split: list.splits bool.splits)
  have "so_rx (snd (try_then (ws_write_all a) (\<lambda>_. ws_write_all b) s)) = so_rx s" for a b
    using w [of a s] w [of b "snd (ws_write_all a s)"]
    by (cases rule: try_then_cases [of "ws_write_all a" s]) auto
  then show ?thesis
    by (auto simp: ws_write_frame_def Let_def return_err_def split: option.splits prod.splits)
qed

lemma ws_write_frame_rx_eq: "ws_write_frame opcode payload s = (r, s') \<Longrightarrow> so_rx s' = so_rx s"
  by (metis ws_write_frame_rx snd_conv)

lemma ws_read_frame_shrinks:
  assumes "ws_read_frame buffer s = (Inr r, s')"
  shows "length (so_rx s') < length (so_rx s)"
proof -
  from assms obtain h s1 where h: "ws_read_exact 2 s = (Inr h, s1)"
    by (cases rule: try_then_cases [of "ws_read_exact 2" s]) (auto simp: ws_read_frame_def)
  with assms obtain n s2 where n: "ws_read_payload_len (h ! 1 AND 0x7f) s1 = (Inr n, s2)" and
    rest: "try_then (ws_read_exact 4) (\<lambda>mkey. try_then (ws_read_exact n)
        (\<lambda>bytes. return_ok (h ! 0 AND 0x0f, unmask mkey bytes))) s2 = (Inr r, s')"
    by (cases rule: try_then_cases [of "ws_read_payload_len (h ! 1 AND 0x7f)" s1])
       (auto simp: ws_read_frame_def return_err_def split: if_splits)
  from rest obtain m s3 where m: "ws_read_exact 4 s2 = (Inr m, s3)"
    by (cases rule: try_then_cases [of "ws_read_exact 4" s2]) auto
  with rest obtain bs where "ws_read_exact n s3 = (Inr bs, s')"
    by (cases rule: try_then_cases [of "ws_read_exact n" s3]) (auto simp: return_ok_def)
  then show ?thesis
    using ws_read_exact_shrinks [OF h] ws_read_payload_len_shrinks [OF n] ws_read_exact_shrinks [OF m]
      ws_read_exact_shrinks by fastforce
qed

text \<open>The loop of \<open>read_text\<close>: each turn consumes a frame, so it ends.\<close>

function ws_read_text :: "nat \<Rightarrow> socket \<Rightarrow> (ws_error + u8 list) \<times> socket" where
  "ws_read_text buffer s =
     (case ws_read_frame buffer s of
        (Inl e, s') \<Rightarrow> (Inl e, s')
      | (Inr (opcode, payload), s') \<Rightarrow>
          if opcode = 0x01 then
            (if valid_utf8 payload then (Inr payload, s') else (Inl InvalidText, s'))
          else if opcode = 0x08 then
            (case ws_write_frame 0x08 [] s' of
               (Inl e, s2) \<Rightarrow> (Inl e, s2)
             | (Inr _, s2) \<Rightarrow> (Inl Closed, s2))
          else if opcode = 0x09 then
            (case ws_write_frame 0x0a payload s' of
               (Inl e, s2) \<Rightarrow> (Inl e, s2)
             | (Inr _, s2) \<Rightarrow> ws_read_text buffer s2)
          else if opcode = 0x0a then ws_read_text buffer s'
          else (Inl InvalidFrame, s'))"
  by auto
termination
  by (relation "measure (\<lambda>(buffer, s). length (so_rx s))")
     (simp_all, (metis ws_read_frame_shrinks ws_write_frame_rx_eq)+)

declare ws_read_text.simps [simp del]

section \<open>The handshake\<close>

definition HTTP_REQUEST_MAX_LEN :: nat where "HTTP_REQUEST_MAX_LEN = 1024"
definition WEBSOCKET_GUID :: "u8 list" where "WEBSOCKET_GUID = ascii ''258EAFA5-E914-47DA-95CA-C5AB0DC85B11''"
definition CONTROLLER_WEBSOCKET_PATH :: "u8 list" where "CONTROLLER_WEBSOCKET_PATH = ascii ''/rpc''"

definition CRLF :: "u8 list" where "CRLF = [0x0d, 0x0a]"

fun http_loop :: "nat \<Rightarrow> u8 list \<Rightarrow> (socket, ws_error, u8 list) action" where
  "http_loop 0 acc = return_err InvalidHandshake"
| "http_loop (Suc n) acc = try_then (ws_read_exact 1) (\<lambda>byte.
     if 4 \<le> length (acc @ byte) \<and> drop (length (acc @ byte) - 4) (acc @ byte) = CRLF @ CRLF
     then return_ok (acc @ byte) else http_loop n (acc @ byte))"

definition read_http_request :: "nat \<Rightarrow> (socket, ws_error, u8 list) action" where
  "read_http_request buffer = http_loop buffer []"

text \<open>\<open>str::split\<close> by CR LF and by a character, and \<open>str::split_once\<close>.\<close>

fun push_front :: "u8 \<Rightarrow> u8 list list \<Rightarrow> u8 list list" where
  "push_front b [] = [[b]]"
| "push_front b (l # ls) = (b # l) # ls"

fun split_crlf :: "u8 list \<Rightarrow> u8 list list" where
  "split_crlf [] = [[]]"
| "split_crlf [b] = [[b]]"
| "split_crlf (a # b # r) =
     (if a = 0x0d \<and> b = 0x0a then [] # split_crlf r else push_front a (split_crlf (b # r)))"

fun split_char :: "u8 \<Rightarrow> u8 list \<Rightarrow> u8 list list" where
  "split_char c [] = [[]]"
| "split_char c (b # r) = (if b = c then [] # split_char c r else push_front b (split_char c r))"

definition split_once :: "u8 \<Rightarrow> u8 list \<Rightarrow> (u8 list \<times> u8 list) option" where
  "split_once c line =
     (if c \<in> set line then Some (takeWhile (\<lambda>b. b \<noteq> c) line, tl (dropWhile (\<lambda>b. b \<noteq> c) line)) else None)"

record handshake_state =
  has_upgrade :: bool
  has_connection_upgrade :: bool
  has_version :: bool
  hs_key :: "u8 list option"

definition header_line :: "u8 list \<Rightarrow> handshake_state \<Rightarrow> handshake_state" where
  "header_line line st =
     (case split_once 0x3a line of
        None \<Rightarrow> st
      | Some (name, value) \<Rightarrow>
          let value = trim value in
          if eq_ignore_ascii_case name (ascii ''upgrade'') \<and> eq_ignore_ascii_case value (ascii ''websocket'')
          then st\<lparr>has_upgrade := True\<rparr>
          else if eq_ignore_ascii_case name (ascii ''connection'') \<and>
            list_ex (\<lambda>part. eq_ignore_ascii_case (trim part) (ascii ''upgrade'')) (split_char 0x2c value)
          then st\<lparr>has_connection_upgrade := True\<rparr>
          else if eq_ignore_ascii_case name (ascii ''sec-websocket-version'') \<and> value = ascii ''13''
          then st\<lparr>has_version := True\<rparr>
          else if eq_ignore_ascii_case name (ascii ''sec-websocket-key'')
          then st\<lparr>hs_key := Some value\<rparr>
          else st)"

text \<open>\<open>b64_decode key n\<close> decodes into a buffer of \<open>n\<close> bytes.\<close>

definition validate_handshake ::
  "(u8 list \<Rightarrow> nat \<Rightarrow> u8 list option) \<Rightarrow> u8 list \<Rightarrow> ws_error + u8 list" where
  "validate_handshake b64_decode request =
     (case split_crlf request of
        [] \<Rightarrow> Inl InvalidHandshake
      | request_line # lines \<Rightarrow>
          let expected_request =
            (if CONTROLLER_WEBSOCKET_PATH = ascii ''/'' then ascii ''GET / HTTP/1.1''
             else ascii ''GET /rpc HTTP/1.1'') in
          if request_line \<noteq> expected_request then Inl InvalidHandshake
          else
            let st = fold header_line lines
              \<lparr>has_upgrade = False, has_connection_upgrade = False, has_version = False, hs_key = None\<rparr> in
            case hs_key st of
              None \<Rightarrow> Inl InvalidHandshake
            | Some key \<Rightarrow>
                if b64_decode key 16 = None then Inl InvalidHandshake
                else if \<not> has_upgrade st \<or> \<not> has_connection_upgrade st \<or> \<not> has_version st
                then Inl InvalidHandshake
                else Inr key)"

definition upgrade_prefix :: "u8 list" where
  "upgrade_prefix = ascii ''HTTP/1.1 101 Switching Protocols'' @ CRLF @ ascii ''Upgrade: websocket'' @ CRLF @
     ascii ''Connection: Upgrade'' @ CRLF @ ascii ''Sec-WebSocket-Accept: ''"

text \<open>\<open>b64_encode bytes n\<close> encodes into a buffer of \<open>n\<close> bytes. The slices are
  those of the source; that they are in range is a lemma.\<close>

definition ws_upgrade ::
  "(u8 list \<Rightarrow> u8 list) \<Rightarrow> (u8 list \<Rightarrow> nat \<Rightarrow> u8 list option) \<Rightarrow> (u8 list \<Rightarrow> nat \<Rightarrow> u8 list option)
   \<Rightarrow> (socket, ws_error, unit) action" where
  "ws_upgrade sha1 b64_encode b64_decode =
     try_then (read_http_request HTTP_REQUEST_MAX_LEN) (\<lambda>request.
       if \<not> valid_utf8 request then return_err InvalidHandshake
       else case validate_handshake b64_decode request of
           Inl e \<Rightarrow> return_err e
         | Inr key \<Rightarrow>
             let total_len = length key + length WEBSOCKET_GUID in
             if total_len > 64 then return_err InvalidHandshake
             else
               let key_and_guid = the (copy_from_slice (replicate 64 0) 0 (length key) key);
                   key_and_guid = the (copy_from_slice key_and_guid (length key) total_len WEBSOCKET_GUID);
                   digest = sha1 (take total_len key_and_guid) in
               (case b64_encode digest 28 of
                  None \<Rightarrow> return_err InvalidHandshake
                | Some accept \<Rightarrow>
                    let p = length upgrade_prefix; a = length accept;
                        response_len = p + a + 4;
                        response = the (copy_from_slice (replicate 160 0) 0 p upgrade_prefix);
                        response = the (copy_from_slice response p (p + a) accept);
                        response = the (copy_from_slice response (p + a) response_len (CRLF @ CRLF))
                    in ws_write_all (take response_len response)))"

section \<open>Masking\<close>

lemma length_unmask [simp]: "length (unmask mkey bs) = length bs"
  by (simp add: unmask_def)

lemma nth_unmask: "i < length bs \<Longrightarrow> unmask mkey bs ! i = bs ! i XOR mkey ! (i mod length mkey)"
  by (simp add: unmask_def nth_enumerate_eq)

lemma unmask_unmask [simp]: "unmask mkey (unmask mkey bs) = bs"
  by (rule nth_equalityI) (simp_all add: nth_unmask xor.assoc)

section \<open>The frames of a client\<close>

definition client_length :: "nat \<Rightarrow> u8 list" where
  "client_length n = (if n \<le> 125 then [0x80 OR of_nat n] else [0x80 OR 126] @ to_be_bytes16 (of_nat n))"

text \<open>A final frame as RFC 6455 has a client send it.\<close>

definition client_frame :: "u8 \<Rightarrow> u8 list \<Rightarrow> u8 list \<Rightarrow> u8 list" where
  "client_frame opcode mkey payload =
     [0x80 OR opcode] @ client_length (length payload) @ mkey @ unmask mkey payload"

lemma low_seven: "n < 128 \<Longrightarrow> (of_nat n :: u8) AND 0x7f = of_nat n"
proof -
  assume n: "n < 128"
  have "(0x7f :: u8) = mask 7" by (simp add: mask_eq_exp_minus_1)
  then have "(of_nat n :: u8) AND 0x7f = take_bit 7 (of_nat n)" by (simp add: take_bit_eq_mask)
  also have "\<dots> = of_nat (take_bit 7 n)" by (simp add: take_bit_of_nat)
  also have "take_bit 7 n = n" using n by (simp add: take_bit_nat_eq_self)
  finally show ?thesis .
qed

lemma masked_length_byte:
  "(0x80 OR w) AND (0x80 :: u8) \<noteq> 0"
  "n < 128 \<Longrightarrow> (0x80 OR of_nat n) AND (0x7f :: u8) = of_nat n"
  by (simp_all add: bit.conj_disj_distrib2 low_seven or_eq_0_iff)

lemma read_exact_prefix:
  "so_rx s = bs @ rest \<Longrightarrow> length bs = n \<Longrightarrow> ws_read_exact n s = (Inr bs, s\<lparr>so_rx := rest\<rparr>)"
  by (simp add: ws_read_exact_def)

lemma read_payload_len_client:
  assumes "so_rx s = tl (client_length n) @ rest" "n \<le> 65535"
  shows "ws_read_payload_len (hd (client_length n) AND 0x7f) s = (Inr n, s\<lparr>so_rx := rest\<rparr>)"
proof (cases "n \<le> 125")
  case True
  have "(of_nat n :: u8) \<le> 125" using True by (simp add: word_le_nat_alt)
  with True assms show ?thesis
    by (simp add: client_length_def ws_read_payload_len_def masked_length_byte return_ok_def)
next
  case False
  let ?b = "to_be_bytes16 (of_nat n)"
  from False assms have "ws_read_exact 2 s = (Inr ?b, s\<lparr>so_rx := rest\<rparr>)"
    by (intro read_exact_prefix) (simp_all add: client_length_def)
  with False assms(2) show ?thesis
    using masked_length_byte(2) [of 126]
    by (simp add: client_length_def ws_read_payload_len_def return_ok_def to_be_bytes16_def be_bytes16_roundtrip)
qed

lemma ws_read_frame_client:
  assumes rx: "so_rx s = client_frame opcode mkey payload @ rest" and op: "opcode \<in> {0x01, 0x08, 0x09, 0x0a}"
    and mk: "length mkey = 4" and len: "length payload \<le> buffer" "length payload \<le> 65535"
  shows "ws_read_frame buffer s = (Inr (opcode, payload), s\<lparr>so_rx := rest\<rparr>)"
proof -
  obtain h t where l: "client_length (length payload) = h # t"
    by (cases "client_length (length payload)") (auto simp: client_length_def split: if_splits)
  have hd: "h AND 0x80 \<noteq> 0"
    using masked_length_byte(1) l by (auto simp: client_length_def split: if_splits)
  have op: "(0x80 OR opcode) AND 0x70 = 0" "(0x80 OR opcode) AND 0x80 \<noteq> 0" "(0x80 OR opcode) AND 0x0f = opcode"
    using op by auto
  have 1: "ws_read_exact 2 s = (Inr [0x80 OR opcode, h], s\<lparr>so_rx := t @ mkey @ unmask mkey payload @ rest\<rparr>)"
    using rx by (intro read_exact_prefix) (simp_all add: client_frame_def l)
  have 2: "ws_read_payload_len (h AND 0x7f) (s\<lparr>so_rx := t @ mkey @ unmask mkey payload @ rest\<rparr>) =
      (Inr (length payload), s\<lparr>so_rx := mkey @ unmask mkey payload @ rest\<rparr>)"
    using len read_payload_len_client [of "s\<lparr>so_rx := t @ mkey @ unmask mkey payload @ rest\<rparr>" "length payload"]
    by (simp add: l)
  have 3: "ws_read_exact 4 (s\<lparr>so_rx := mkey @ unmask mkey payload @ rest\<rparr>) =
      (Inr mkey, s\<lparr>so_rx := unmask mkey payload @ rest\<rparr>)"
    using mk by (subst read_exact_prefix) simp_all
  have 4: "ws_read_exact (length payload) (s\<lparr>so_rx := unmask mkey payload @ rest\<rparr>) =
      (Inr (unmask mkey payload), s\<lparr>so_rx := rest\<rparr>)"
    by (subst read_exact_prefix) simp_all
  show ?thesis
    using len by (simp add: ws_read_frame_def 1 2 3 4 op hd return_ok_def)
qed

section \<open>The frames of the server\<close>

definition server_header :: "u8 \<Rightarrow> nat \<Rightarrow> u8 list" where
  "server_header opcode n =
     [0x80 OR opcode] @ (if n \<le> 125 then [of_nat n] else [126] @ to_be_bytes16 (of_nat n))"

lemma ws_write_frame_alt:
  "ws_write_frame opcode payload =
     (if 65535 < length payload then return_err MessageTooLarge
      else try_then (ws_write_all (server_header opcode (length payload))) (\<lambda>_. ws_write_all payload))"
proof -
  have "replicate 4 (0 :: u8) = [0, 0, 0, 0]" by (simp add: numeral_eq_Suc)
  then show ?thesis
    by (auto simp: ws_write_frame_def u16_try_from_def server_header_def Let_def copy_from_slice_def)
qed

lemma ws_write_frame_good:
  "so_tx_results s = [] \<Longrightarrow> length payload \<le> 65535 \<Longrightarrow>
   ws_write_frame opcode payload s =
     (Inr (), s\<lparr>so_tx := so_tx s @ [server_header opcode (length payload), payload]\<rparr>)"
  by (simp add: ws_write_frame_alt ws_write_all_def try_then_def)

text \<open>How a client reads such a frame, written from RFC 6455, section 5.2.\<close>

definition parse_server_frame :: "u8 list \<Rightarrow> (u8 \<times> u8 list \<times> u8 list) option" where
  "parse_server_frame bs =
     (case bs of
        h # l # r \<Rightarrow>
          if h AND 0xf0 \<noteq> 0x80 \<or> l AND 0x80 \<noteq> 0 then None
          else (let take_payload = (\<lambda>n r. if n \<le> length r then Some (h AND 0x0f, take n r, drop n r) else None)
            in if l \<le> 125 then take_payload (unat l) r
               else if l = 126 then
                 (case r of a # b # r' \<Rightarrow> take_payload (unat (from_be_bytes16 a b)) r' | _ \<Rightarrow> None)
               else None)
      | _ \<Rightarrow> None)"

lemma length_byte_unmasked: "n \<le> 126 \<Longrightarrow> (of_nat n :: u8) AND 0x80 = 0"
proof -
  assume "n \<le> 126"
  then have "(of_nat n :: u8) AND 0x80 = (of_nat n AND 0x7f) AND 0x80" by (simp add: low_seven)
  then show ?thesis by (simp add: and.assoc)
qed

lemma parse_server_frame_good:
  assumes "opcode \<in> {0x01, 0x08, 0x0a}" "length payload \<le> 65535"
  shows "parse_server_frame (server_header opcode (length payload) @ payload @ rest) = Some (opcode, payload, rest)"
proof -
  have "(0x80 OR opcode) AND 0xf0 = 0x80" "(0x80 OR opcode) AND 0x0f = opcode" using assms(1) by auto
  moreover have "(of_nat (length payload) :: u8) \<le> 125" if "length payload \<le> 125"
    using that by (simp add: word_le_nat_alt)
  ultimately show ?thesis
    using assms(2) length_byte_unmasked [of "length payload"]
    by (auto simp: parse_server_frame_def server_header_def Let_def to_be_bytes16_def be_bytes16_roundtrip)
qed

interpretation ws_codec: codec "\<lambda>(opcode, payload). server_header opcode (length payload) @ payload"
  "\<lambda>bs. case parse_server_frame bs of Some (opcode, payload, []) \<Rightarrow> Some (opcode, payload) | _ \<Rightarrow> None"
  "\<lambda>(opcode, payload). opcode \<in> {0x01, 0x08, 0x0a} \<and> length payload \<le> 65535"
  by unfold_locales (auto simp: parse_server_frame_good [where rest = "[]", simplified] split: prod.splits)

section \<open>What an accepted handshake looks like\<close>

lemma http_loop_result:
  assumes "http_loop n acc s = (r, s')"
  shows "so_tx s' = so_tx s \<and> so_tx_results s' = so_tx_results s \<and>
    (\<forall>request. r = Inr request \<longrightarrow> (\<exists>bs. request = acc @ bs \<and> so_rx s = bs @ so_rx s' \<and> length bs \<le> n \<and>
       4 \<le> length request \<and> drop (length request - 4) request = CRLF @ CRLF))"
  using assms
proof (induction n arbitrary: acc s)
  case 0
  then show ?case by (auto simp: return_err_def)
next
  case (Suc n)
  show ?case
  proof (cases "so_rx s")
    case Nil
    with Suc.prems show ?thesis by (auto simp: ws_read_exact_def try_then_def)
  next
    case (Cons b rx)
    let ?s = "s\<lparr>so_rx := rx\<rparr>"
    have rd: "ws_read_exact 1 s = (Inr [b], ?s)" using Cons by (intro read_exact_prefix) simp_all
    show ?thesis
    proof (cases "4 \<le> length (acc @ [b]) \<and> drop (length (acc @ [b]) - 4) (acc @ [b]) = CRLF @ CRLF")
      case True
      with Suc.prems rd Cons show ?thesis by (auto simp: return_ok_def simp del: length_append)
    next
      case False
      with Suc.prems rd have "http_loop n (acc @ [b]) ?s = (r, s')" by auto
      from Suc.IH [OF this] Cons show ?thesis by fastforce
    qed
  qed
qed

text \<open>A header line with a name, in any case, and a value.\<close>

definition header_with :: "string \<Rightarrow> (u8 list \<Rightarrow> bool) \<Rightarrow> u8 list \<Rightarrow> bool" where
  "header_with name ok line = (case split_once 0x3a line of
       Some (n, v) \<Rightarrow> eq_ignore_ascii_case n (ascii name) \<and> ok (trim v) | None \<Rightarrow> False)"

definition upgrade_line :: "u8 list \<Rightarrow> bool" where
  "upgrade_line = header_with ''upgrade'' (\<lambda>v. eq_ignore_ascii_case v (ascii ''websocket''))"

definition connection_line :: "u8 list \<Rightarrow> bool" where
  "connection_line = header_with ''connection''
     (\<lambda>v. list_ex (\<lambda>part. eq_ignore_ascii_case (trim part) (ascii ''upgrade'')) (split_char 0x2c v))"

definition version_line :: "u8 list \<Rightarrow> bool" where
  "version_line = header_with ''sec-websocket-version'' (\<lambda>v. v = ascii ''13'')"

definition key_line :: "u8 list \<Rightarrow> u8 list \<Rightarrow> bool" where
  "key_line key = header_with ''sec-websocket-key'' (\<lambda>v. v = key)"

lemma header_line_effect:
  "has_upgrade (header_line line st) \<Longrightarrow> has_upgrade st \<or> upgrade_line line"
  "has_connection_upgrade (header_line line st) \<Longrightarrow> has_connection_upgrade st \<or> connection_line line"
  "has_version (header_line line st) \<Longrightarrow> has_version st \<or> version_line line"
  "hs_key (header_line line st) = Some key \<Longrightarrow> hs_key st = Some key \<or> key_line key line"
  by (auto simp: header_line_def header_with_def upgrade_line_def connection_line_def version_line_def
      key_line_def Let_def split: option.splits if_splits)

lemma fold_gains:
  assumes "\<And>x st. P (f x st) \<Longrightarrow> P st \<or> Q x" "P (fold f xs st)"
  shows "P st \<or> list_ex Q xs"
  using assms(2) by (induction xs arbitrary: st) (auto dest: assms(1))

lemma header_fold:
  "has_upgrade (fold header_line lines st) \<Longrightarrow> has_upgrade st \<or> list_ex upgrade_line lines"
  "has_connection_upgrade (fold header_line lines st) \<Longrightarrow> has_connection_upgrade st \<or> list_ex connection_line lines"
  "has_version (fold header_line lines st) \<Longrightarrow> has_version st \<or> list_ex version_line lines"
  "hs_key (fold header_line lines st) = Some key \<Longrightarrow> hs_key st = Some key \<or> list_ex (key_line key) lines"
  by (rule fold_gains [of has_upgrade header_line upgrade_line] | assumption | erule header_line_effect
      | rule fold_gains [of has_connection_upgrade header_line connection_line]
      | rule fold_gains [of has_version header_line version_line]
      | rule fold_gains [of "\<lambda>st. hs_key st = Some key" header_line "key_line key"])+

lemma validate_handshake_okD:
  assumes "validate_handshake b64_decode request = Inr key"
  shows "\<exists>lines. split_crlf request = ascii ''GET /rpc HTTP/1.1'' # lines \<and> b64_decode key 16 \<noteq> None \<and>
    list_ex upgrade_line lines \<and> list_ex connection_line lines \<and> list_ex version_line lines \<and>
    list_ex (key_line key) lines"
proof (cases "split_crlf request")
  case Nil
  with assms show ?thesis by (simp add: validate_handshake_def)
next
  case (Cons line lines)
  define st where "st = fold header_line lines
    \<lparr>has_upgrade = False, has_connection_upgrade = False, has_version = False, hs_key = None\<rparr>"
  have "line = ascii ''GET /rpc HTTP/1.1''"
    using assms Cons by (auto simp: validate_handshake_def CONTROLLER_WEBSOCKET_PATH_def Let_def split: if_splits)
  moreover have "has_upgrade st" "has_connection_upgrade st" "has_version st" "hs_key st = Some key"
    "b64_decode key 16 \<noteq> None"
    using assms Cons by (auto simp: validate_handshake_def st_def Let_def split: if_splits option.splits)
  ultimately show ?thesis
    using Cons header_fold [where st = "\<lparr>has_upgrade = False, has_connection_upgrade = False,
        has_version = False, hs_key = None\<rparr>" and lines = lines, folded st_def]
    by auto
qed

lemma length_upgrade_prefix: "length upgrade_prefix = 97"
  by (simp add: upgrade_prefix_def CRLF_def)

text \<open>The slices of the response buffer are in range when the encoder keeps to its 28 bytes.\<close>

lemma upgrade_response:
  assumes "length accept \<le> 28"
  shows "(let p = length upgrade_prefix; a = length accept; response_len = p + a + 4;
      response = the (copy_from_slice (replicate 160 0) 0 p upgrade_prefix);
      response = the (copy_from_slice response p (p + a) accept);
      response = the (copy_from_slice response (p + a) response_len (CRLF @ CRLF))
    in take response_len response) = upgrade_prefix @ accept @ CRLF @ CRLF"
  using assms
  by (simp add: Let_def length_upgrade_prefix copy_from_slice_def) (simp add: CRLF_def)

lemma key_and_guid:
  assumes "length key + length WEBSOCKET_GUID \<le> 64"
  shows "take (length key + length WEBSOCKET_GUID)
    (the (copy_from_slice (the (copy_from_slice (replicate 64 0) 0 (length key) key))
       (length key) (length key + length WEBSOCKET_GUID) WEBSOCKET_GUID)) = key @ WEBSOCKET_GUID"
  using assms by (simp add: copy_from_slice_def)

text \<open>The loop finds the blank line when no two carriage returns are two bytes apart before it.\<close>

definition blank_line_at_end :: "u8 list \<Rightarrow> bool" where
  "blank_line_at_end body \<longleftrightarrow>
     list_all (\<lambda>(x, y). \<not> (x = 0x0d \<and> y = 0x0d)) (zip body (drop 2 (body @ CRLF @ CRLF)))"

lemma nth_last_four:
  "4 \<le> k \<Longrightarrow> k \<le> length r \<Longrightarrow> j < 4 \<Longrightarrow> drop (k - 4) (take k r) ! j = r ! (k - 4 + j)"
  by simp

lemma blank_line_first:
  assumes "blank_line_at_end body" "k < length body + 4" "4 \<le> k"
  shows "drop (k - 4) (take k (body @ CRLF @ CRLF)) \<noteq> CRLF @ CRLF"
proof
  let ?r = "body @ CRLF @ CRLF" and ?i = "k - 4"
  assume eq: "drop ?i (take k ?r) = CRLF @ CRLF"
  have nth: "drop ?i (take k ?r) ! j = ?r ! (?i + j)" if "j < 4" for j
    using that assms(2,3) by (intro nth_last_four) (simp_all add: CRLF_def)
  have r: "?r ! ?i = 0x0d" "?r ! (?i + 2) = 0x0d"
    using nth [of 0] nth [of 2] unfolding eq by (simp_all add: CRLF_def)
  have i: "?i < length body" using assms(2,3) by linarith
  have l: "?i < length (drop 2 ?r)" using i by (simp add: CRLF_def)
  have two: "drop 2 xs ! ?i = xs ! (?i + 2)" if "2 \<le> length xs" for xs :: "u8 list"
    using that by (simp add: add.commute)
  have "drop 2 ?r ! ?i = 0x0d" unfolding r(2) [symmetric] by (rule two) (simp add: CRLF_def)
  moreover have "body ! ?i = 0x0d" using r(1) i by (simp add: nth_append)
  ultimately have "zip body (drop 2 ?r) ! ?i = (0x0d, 0x0d)" using i l by (simp only: nth_zip)
  moreover have "?i < length (zip body (drop 2 ?r))" using i l by (simp only: length_zip min_less_iff_conj)
  ultimately show False using assms(1) unfolding blank_line_at_end_def list_all_length by fastforce
qed

lemma http_loop_finds:
  assumes "blank_line_at_end body" "acc @ bs = body @ CRLF @ CRLF" "bs \<noteq> []"
    and "so_rx s = bs @ rest" "length bs \<le> n"
  shows "http_loop n acc s = (Inr (body @ CRLF @ CRLF), s\<lparr>so_rx := rest\<rparr>)"
  using assms(2-5)
proof (induction bs arbitrary: acc n s)
  case Nil
  then show ?case by simp
next
  case (Cons b bs)
  let ?r = "body @ CRLF @ CRLF"
  obtain m where n: "n = Suc m" using Cons.prems(4) by (cases n) auto
  have rd: "ws_read_exact 1 s = (Inr [b], s\<lparr>so_rx := bs @ rest\<rparr>)"
    using Cons.prems by (intro read_exact_prefix) simp_all
  have acc: "acc @ [b] = take (length acc + 1) ?r" using Cons.prems(1) by (metis append.assoc append_Cons
        append_Nil append_eq_conv_conj length_append_singleton Suc_eq_plus1)
  show ?case
  proof (cases bs)
    case Nil
    then have "acc @ [b] = ?r" using Cons.prems(1) by simp
    moreover have "4 \<le> length ?r" "drop (length ?r - 4) ?r = CRLF @ CRLF" by (simp_all add: CRLF_def)
    ultimately show ?thesis using rd Nil by (simp only: n http_loop.simps try_then_ok return_ok_def) simp
  next
    case more: (Cons b' bs')
    have len: "length acc + 1 < length body + 4"
      using arg_cong [OF Cons.prems(1), of length] more by (simp add: CRLF_def)
    have no: "\<not> (4 \<le> length (acc @ [b]) \<and> drop (length (acc @ [b]) - 4) (acc @ [b]) = CRLF @ CRLF)"
      using blank_line_first [OF assms(1) len] unfolding acc using len by (auto simp: CRLF_def min_def)
    have "http_loop m (acc @ [b]) (s\<lparr>so_rx := bs @ rest\<rparr>) = (Inr ?r, (s\<lparr>so_rx := bs @ rest\<rparr>)\<lparr>so_rx := rest\<rparr>)"
      using Cons.prems more n by (intro Cons.IH) simp_all
    then show ?thesis using no rd by (simp only: n http_loop.simps try_then_ok if_False) simp
  qed
qed

section \<open>What a frame that was read looks like\<close>

lemma read_exact_okD:
  "ws_read_exact n s = (Inr bs, s') \<Longrightarrow> so_rx s = bs @ so_rx s' \<and> length bs = n \<and> s' = s\<lparr>so_rx := drop n (so_rx s)\<rparr>"
  by (auto simp: ws_read_exact_def split: if_splits)

lemma read_payload_len_okD:
  assumes "ws_read_payload_len k s = (Inr n, s')"
  shows "\<exists>ext. so_rx s = ext @ so_rx s' \<and> length ext \<le> 2"
proof (cases "k \<le> 125")
  case True
  with assms show ?thesis by (simp add: ws_read_payload_len_def return_ok_def)
next
  case False
  with assms show ?thesis
    by (cases rule: try_then_cases [of "ws_read_exact 2" s])
       (auto simp: ws_read_payload_len_def return_ok_def return_err_def dest!: read_exact_okD split: if_splits)
qed

text \<open>The first two bytes of a frame that is final, has no reserved bit set and is masked.\<close>

definition masked_final_header :: "u8 \<Rightarrow> u8 \<Rightarrow> bool" where
  "masked_final_header h l \<longleftrightarrow> h AND 0x70 = 0 \<and> h AND 0x80 \<noteq> 0 \<and> l AND 0x80 \<noteq> 0"

lemma read_two_header: "so_rx s = h # l # rest \<Longrightarrow> ws_read_exact 2 s = (Inr [h, l], s\<lparr>so_rx := rest\<rparr>)"
  by (rule read_exact_prefix) simp_all

lemma ws_read_frame_okD:
  assumes "ws_read_frame buffer s = (Inr (opcode, payload), s')"
  shows "length payload \<le> buffer \<and> (\<exists>h l ext mkey. masked_final_header h l \<and> h AND 0x0f = opcode \<and>
    length ext \<le> 2 \<and> length mkey = 4 \<and> so_rx s = [h, l] @ ext @ mkey @ unmask mkey payload @ so_rx s')"
proof -
  let ?body = "\<lambda>hd n. try_then (ws_read_exact 4) (\<lambda>mkey. try_then (ws_read_exact n)
        (\<lambda>bytes. return_ok (hd ! 0 AND 0x0f, unmask mkey bytes)))"
  from assms obtain hdr s1 where h: "ws_read_exact 2 s = (Inr hdr, s1)"
    by (cases rule: try_then_cases [of "ws_read_exact 2" s]) (auto simp: ws_read_frame_def)
  with assms obtain n s2 where n: "ws_read_payload_len (hdr ! 1 AND 0x7f) s1 = (Inr n, s2)" "n \<le> buffer"
    and rest: "?body hdr n s2 = (Inr (opcode, payload), s')" and ok: "masked_final_header (hdr ! 0) (hdr ! 1)"
    by (cases rule: try_then_cases [of "ws_read_payload_len (hdr ! 1 AND 0x7f)" s1])
       (auto simp: ws_read_frame_def masked_final_header_def return_err_def split: if_splits)
  from rest obtain mkey s3 where m: "ws_read_exact 4 s2 = (Inr mkey, s3)"
    by (cases rule: try_then_cases [of "ws_read_exact 4" s2]) auto
  with rest obtain bs where b: "ws_read_exact n s3 = (Inr bs, s')" "opcode = hdr ! 0 AND 0x0f" "payload = unmask mkey bs"
    by (cases rule: try_then_cases [of "ws_read_exact n" s3]) (auto simp: return_ok_def)
  obtain x y where hdr: "hdr = [x, y]"
    using read_exact_okD [OF h] by (auto simp: length_Suc_conv numeral_2_eq_2)
  obtain ext where ext: "so_rx s1 = ext @ so_rx s2" "length ext \<le> 2" using read_payload_len_okD [OF n(1)] by blast
  have "so_rx s = hdr @ so_rx s1" "so_rx s2 = mkey @ so_rx s3" "so_rx s3 = bs @ so_rx s'" and
    len: "length mkey = 4" "length bs = n"
    using read_exact_okD [OF h] read_exact_okD [OF m] read_exact_okD [OF b(1)] by blast+
  then have "so_rx s = [x, y] @ ext @ mkey @ unmask mkey payload @ so_rx s'"
    by (simp only: ext(1) hdr b(3) unmask_unmask append.assoc)
  moreover have "length payload \<le> buffer" using n(2) len(2) b(3) by simp
  moreover have "masked_final_header x y" "x AND 0x0f = opcode" using ok hdr b(2) by simp_all
  ultimately show ?thesis using ext(2) len(1) by blast
qed

section \<open>Reading messages\<close>

text \<open>A control frame between messages: a ping or a pong, with its mask and payload.\<close>

datatype control = Ping "u8 list" "u8 list" | Pong "u8 list" "u8 list"

fun control_frame :: "control \<Rightarrow> u8 list" where
  "control_frame (Ping mkey payload) = client_frame 0x09 mkey payload"
| "control_frame (Pong mkey payload) = client_frame 0x0a mkey payload"

fun control_reply :: "control \<Rightarrow> u8 list list" where
  "control_reply (Ping mkey payload) = [server_header 0x0a (length payload), payload]"
| "control_reply (Pong mkey payload) = []"

fun control_ok :: "nat \<Rightarrow> control \<Rightarrow> bool" where
  "control_ok buffer (Ping mkey payload) \<longleftrightarrow> length mkey = 4 \<and> length payload \<le> buffer"
| "control_ok buffer (Pong mkey payload) \<longleftrightarrow> length mkey = 4 \<and> length payload \<le> buffer"

lemma ws_read_text_controls:
  assumes "so_tx_results s = []" "list_all (control_ok buffer) cs" "buffer \<le> 65535"
    and "so_rx s = concat (map control_frame cs) @ tail"
  shows "ws_read_text buffer s =
    ws_read_text buffer (s\<lparr>so_rx := tail, so_tx := so_tx s @ concat (map control_reply cs)\<rparr>)"
  using assms
proof (induction cs arbitrary: s)
  case Nil
  then have "s\<lparr>so_rx := tail, so_tx := so_tx s @ concat (map control_reply [])\<rparr> = s" by simp
  then show ?case by simp
next
  case (Cons c cs)
  let ?r = "concat (map control_frame cs) @ tail"
  let ?s = "s\<lparr>so_rx := ?r, so_tx := so_tx s @ control_reply c\<rparr>"
  have "ws_read_text buffer s = ws_read_text buffer ?s"
  proof (cases c)
    case (Ping mkey payload)
    have f: "ws_read_frame buffer s = (Inr (0x09, payload), s\<lparr>so_rx := ?r\<rparr>)"
      using Cons.prems Ping by (intro ws_read_frame_client) auto
    show ?thesis
      using Cons.prems Ping f
      by (subst ws_read_text.simps) (simp add: ws_write_frame_good)
  next
    case (Pong mkey payload)
    have f: "ws_read_frame buffer s = (Inr (0x0a, payload), s\<lparr>so_rx := ?r\<rparr>)"
      using Cons.prems Pong by (intro ws_read_frame_client) auto
    show ?thesis
      using Pong f by (subst ws_read_text.simps) simp
  qed
  also have "\<dots> = ws_read_text buffer (?s\<lparr>so_rx := tail, so_tx := so_tx ?s @ concat (map control_reply cs)\<rparr>)"
    using Cons.prems by (intro Cons.IH) simp_all
  finally show ?case by simp
qed

section \<open>Properties\<close>

text \<open>C19. What a WebSocket client sends, the firmware reads: a text message of at most the buffer size that
  arrives as one masked RFC 6455 frame is returned byte for byte, whatever the mask, after any number
  of pings and pongs; each ping is answered, in order, by a pong with the same payload, and exactly
  the frames up to the message are consumed.\<close>
theorem ws_message_roundtrip:
  assumes "so_rx s = concat (map control_frame cs) @ client_frame 0x01 mkey msg @ rest"
    and "list_all (control_ok buffer) cs" "length mkey = 4" "length msg \<le> buffer" "buffer \<le> 65535"
    and "valid_utf8 msg" "so_tx_results s = []"
  shows "ws_read_text buffer s =
    (Inr msg, s\<lparr>so_rx := rest, so_tx := so_tx s @ concat (map control_reply cs)\<rparr>)"
proof -
  let ?s = "s\<lparr>so_rx := client_frame 0x01 mkey msg @ rest, so_tx := so_tx s @ concat (map control_reply cs)\<rparr>"
  have "ws_read_text buffer s = ws_read_text buffer ?s"
    using assms by (intro ws_read_text_controls) simp_all
  moreover have "ws_read_frame buffer ?s = (Inr (0x01, msg), ?s\<lparr>so_rx := rest\<rparr>)"
    using assms by (intro ws_read_frame_client) simp_all
  ultimately show ?thesis using assms(6) by (simp add: ws_read_text.simps)
qed

theorem ws_message_roundtrip_witness:
  "ws_read_text 1024 \<lparr>so_rx = client_frame 0x09 [1, 2, 3, 4] [9] @ client_frame 0x01 [5, 6, 7, 8] (ascii ''hi''),
      so_tx_results = [], so_tx = []\<rparr> =
     (Inr (ascii ''hi''), \<lparr>so_rx = [], so_tx_results = [], so_tx = [[0x8a, 1], [9]]\<rparr>)"
proof -
  have "valid_utf8 (ascii ''hi'')" by (rule valid_utf8_ascii_bytes) simp
  then show ?thesis
    using ws_message_roundtrip [of "\<lparr>so_rx = client_frame 0x09 [1, 2, 3, 4] [9] @ client_frame 0x01 [5, 6, 7, 8] (ascii ''hi''),
      so_tx_results = [], so_tx = []\<rparr>" "[Ping [1, 2, 3, 4] [9]]" "[5, 6, 7, 8]" "ascii ''hi''" "[]" 1024]
    by (simp add: server_header_def)
qed

text \<open>What the firmware writes, a WebSocket client reads: on a working connection a text of at most 65535
  bytes goes out as one frame that parses, by RFC 6455, as exactly that text with nothing left over;
  a longer one is refused with nothing written.\<close>
theorem ws_write_text_parses:
  assumes "so_tx_results s = []"
  shows "if length msg \<le> 65535
    then \<exists>out. ws_write_text msg s = (Inr (), s\<lparr>so_tx := so_tx s @ out\<rparr>) \<and>
      parse_server_frame (concat out @ rest) = Some (0x01, msg, rest)
    else ws_write_text msg s = (Inl MessageTooLarge, s)"
proof (cases "length msg \<le> 65535")
  case True
  with assms have "ws_write_text msg s =
      (Inr (), s\<lparr>so_tx := so_tx s @ [server_header 1 (length msg), msg]\<rparr>)"
    by (simp add: ws_write_text_def ws_write_frame_good)
  moreover have "parse_server_frame (concat [server_header 1 (length msg), msg] @ rest) = Some (1, msg, rest)"
    using parse_server_frame_good [of 1 msg rest] True by simp
  ultimately show ?thesis using True by auto
next
  case False
  then show ?thesis by (simp add: ws_write_text_def ws_write_frame_alt return_err_def)
qed

theorem ws_write_text_parses_witness:
  "\<exists>out. ws_write_text [0x7b, 0x7d] \<lparr>so_rx = [], so_tx_results = [], so_tx = []\<rparr> =
     (Inr (), \<lparr>so_rx = [], so_tx_results = [], so_tx = out\<rparr>) \<and>
     parse_server_frame (concat out) = Some (0x01, [0x7b, 0x7d], [])"
  using ws_write_text_parses [of "\<lparr>so_rx = [], so_tx_results = [], so_tx = []\<rparr>" "[0x7b, 0x7d]" "[]"] by simp



text \<open>A frame that breaks the rules ends the session at its header: one with a reserved bit, a fragment,
  or an unmasked one is an invalid frame, and one that announces a 64-bit length is too large; nothing
  of its payload is read and nothing is written.\<close>
theorem ws_rejects_bad_frames:
  assumes "so_rx s = h # l # rest"
  shows "(\<not> masked_final_header h l \<longrightarrow> ws_read_text buffer s = (Inl InvalidFrame, s\<lparr>so_rx := rest\<rparr>)) \<and>
    (masked_final_header h l \<longrightarrow> l AND 0x7f = 127 \<longrightarrow>
       ws_read_text buffer s = (Inl MessageTooLarge, s\<lparr>so_rx := rest\<rparr>))"
  using read_two_header [OF assms]
  by (auto simp: ws_read_text.simps ws_read_frame_def masked_final_header_def return_err_def
      ws_read_payload_len_def)

theorem ws_rejects_bad_frames_witness:
  "ws_read_text 1024 \<lparr>so_rx = [0x81, 0x01, 0x41], so_tx_results = [], so_tx = []\<rparr> =
     (Inl InvalidFrame, \<lparr>so_rx = [0x41], so_tx_results = [], so_tx = []\<rparr>)"
  using ws_rejects_bad_frames [of "\<lparr>so_rx = [0x81, 0x01, 0x41], so_tx_results = [], so_tx = []\<rparr>" "0x81" "0x01" "[0x41]"]
  by (simp add: masked_final_header_def)

text \<open>What follows the reading of the request: it is refused, or answered with the digest of its key.\<close>

lemma upgrade_after_request:
  assumes enc: "\<forall>bs. case b64_encode bs 28 of Some a \<Rightarrow> length a \<le> 28 | None \<Rightarrow> True"
    and ok: "read_http_request HTTP_REQUEST_MAX_LEN s = (Inr request, s1)"
    and run: "ws_upgrade sha1 b64_encode b64_decode s = (r, s')"
  shows "case r of Inl _ \<Rightarrow> so_tx s' = so_tx s1
    | Inr _ \<Rightarrow> \<exists>key accept. validate_handshake b64_decode request = Inr key \<and>
        b64_encode (sha1 (key @ WEBSOCKET_GUID)) 28 = Some accept \<and> so_rx s' = so_rx s1 \<and>
        so_tx s' = so_tx s1 @ [upgrade_prefix @ accept @ CRLF @ CRLF]"
proof (cases "validate_handshake b64_decode request")
  case (Inl e)
  with run ok show ?thesis by (auto simp: ws_upgrade_def return_err_def split: if_splits)
next
  case key: (Inr key)
  show ?thesis
  proof (cases "valid_utf8 request \<and> length key + length WEBSOCKET_GUID \<le> 64")
    case True
    show ?thesis
    proof (cases "b64_encode (sha1 (key @ WEBSOCKET_GUID)) 28")
      case None
      with True run ok key key_and_guid [of key] show ?thesis
        by (auto simp: ws_upgrade_def return_err_def Let_def)
    next
      case (Some accept)
      then have "length accept \<le> 28" using enc by (metis option.case(2))
      note resp = upgrade_response [OF this, unfolded Let_def]
      have "ws_write_all (upgrade_prefix @ accept @ CRLF @ CRLF) s1 = (r, s')"
        using True run ok key Some key_and_guid [of key] resp by (simp add: ws_upgrade_def Let_def)
      then show ?thesis using key Some by (auto simp: ws_write_all_def split: list.splits bool.splits)
    qed
  next
    case False
    with run ok key show ?thesis by (auto simp: ws_upgrade_def return_err_def Let_def split: if_splits)
  qed
qed

text \<open>C31. The upgrade is granted only to a proper WebSocket request on the controller path, and tells the
  client so exactly once: on success the consumed bytes are a request of at most 1024 bytes up to its
  blank line, whose first line is the GET of the controller path and which has upgrade, connection,
  version 13 and key headers with a decodable key; and the response is the fixed 101 head with the
  encoded digest of that key and the GUID. On failure nothing is written. It relies on the encoder not
  writing more than the 28 bytes of its buffer.\<close>
theorem ws_upgrade_checked:
  assumes "\<forall>bs. case b64_encode bs 28 of Some a \<Rightarrow> length a \<le> 28 | None \<Rightarrow> True"
    and "ws_upgrade sha1 b64_encode b64_decode s = (r, s')"
  shows "case r of
      Inl _ \<Rightarrow> so_tx s' = so_tx s
    | Inr _ \<Rightarrow> \<exists>request lines key accept. so_rx s = request @ so_rx s' \<and> length request \<le> 1024 \<and>
        drop (length request - 4) request = CRLF @ CRLF \<and>
        split_crlf request = ascii ''GET /rpc HTTP/1.1'' # lines \<and>
        list_ex upgrade_line lines \<and> list_ex connection_line lines \<and> list_ex version_line lines \<and>
        list_ex (key_line key) lines \<and> b64_decode key 16 \<noteq> None \<and>
        b64_encode (sha1 (key @ WEBSOCKET_GUID)) 28 = Some accept \<and>
        so_tx s' = so_tx s @ [upgrade_prefix @ accept @ CRLF @ CRLF]"
proof (cases rule: try_then_cases [of "read_http_request HTTP_REQUEST_MAX_LEN" s return_ok])
  case (err e s1)
  with assms(2) http_loop_result [of 1024 "[]" s "Inl e" s1] show ?thesis
    by (auto simp: ws_upgrade_def read_http_request_def HTTP_REQUEST_MAX_LEN_def)
next
  case (ok request s1)
  have rd: "so_tx s1 = so_tx s" "so_rx s = request @ so_rx s1" "length request \<le> 1024"
    "drop (length request - 4) request = CRLF @ CRLF"
    using http_loop_result [of 1024 "[]" s "Inr request" s1] ok(1)
    by (auto simp: read_http_request_def HTTP_REQUEST_MAX_LEN_def)
  note answer = upgrade_after_request [OF assms(1) ok(1) assms(2)]
  show ?thesis
  proof (cases r)
    case Inl
    with answer rd show ?thesis by simp
  next
    case (Inr x)
    with answer obtain key where "validate_handshake b64_decode request = Inr key" by auto
    from answer rd validate_handshake_okD [OF this] this show ?thesis unfolding Inr sum.case(2) by (metis sum.inject(2))
  qed
qed

text \<open>A request as browsers send it, and stand-ins for the two crates.\<close>

definition sample_body :: "u8 list" where
  "sample_body = ascii ''GET /rpc HTTP/1.1'' @ CRLF @ ascii ''Upgrade: WebSocket'' @ CRLF @
     ascii ''Connection: keep-alive, Upgrade'' @ CRLF @ ascii ''Sec-WebSocket-Version: 13'' @ CRLF @
     ascii ''Sec-WebSocket-Key: dGhlIHNhbXBsZSBub25jZQ==''"

lemma sample_lines:
  "split_crlf (sample_body @ CRLF @ CRLF) =
     [ascii ''GET /rpc HTTP/1.1'', ascii ''Upgrade: WebSocket'', ascii ''Connection: keep-alive, Upgrade'',
      ascii ''Sec-WebSocket-Version: 13'', ascii ''Sec-WebSocket-Key: dGhlIHNhbXBsZSBub25jZQ=='', [], []]"
  by (simp add: sample_body_def CRLF_def)

lemma sample_values:
  "trim (ascii '' WebSocket'') = ascii ''WebSocket''"
  "trim (ascii '' keep-alive, Upgrade'') = ascii ''keep-alive, Upgrade''"
  "trim (ascii '' Upgrade'') = ascii ''Upgrade''" "trim (ascii '' 13'') = ascii ''13''"
  "trim (ascii '' dGhlIHNhbXBsZSBub25jZQ=='') = ascii ''dGhlIHNhbXBsZSBub25jZQ==''"
  by (simp_all add: trim_def strip_prefixes.simps drop_prefix_def white_space_def)

lemma sample_headers:
  "header_line (ascii ''Upgrade: WebSocket'') st = st\<lparr>has_upgrade := True\<rparr>"
  "header_line (ascii ''Connection: keep-alive, Upgrade'') st = st\<lparr>has_connection_upgrade := True\<rparr>"
  "header_line (ascii ''Sec-WebSocket-Version: 13'') st = st\<lparr>has_version := True\<rparr>"
  "header_line (ascii ''Sec-WebSocket-Key: dGhlIHNhbXBsZSBub25jZQ=='') st =
     st\<lparr>hs_key := Some (ascii ''dGhlIHNhbXBsZSBub25jZQ=='')\<rparr>"
  "header_line [] st = st"
  using sample_values
  by (simp_all add: header_line_def split_once_def eq_ignore_ascii_case_def to_ascii_lowercase_def)

lemma sample_upgrade:
  "fst (ws_upgrade (\<lambda>bs. replicate 20 0) (\<lambda>bs n. Some (replicate n 0x41)) (\<lambda>bs n. Some (replicate n 0))
     \<lparr>so_rx = sample_body @ CRLF @ CRLF, so_tx_results = [], so_tx = []\<rparr>) = Inr ()"
proof -
  let ?dec = "\<lambda>(bs :: u8 list) n. Some (replicate n (0 :: u8))" and ?r = "sample_body @ CRLF @ CRLF"
  let ?s = "\<lparr>so_rx = ?r, so_tx_results = [], so_tx = []\<rparr>"
  have len: "length ?r \<le> 1024" by code_simp
  have "blank_line_at_end sample_body" by (simp add: blank_line_at_end_def sample_body_def CRLF_def)
  then have rd: "read_http_request HTTP_REQUEST_MAX_LEN ?s = (Inr ?r, ?s\<lparr>so_rx := []\<rparr>)"
    unfolding read_http_request_def HTTP_REQUEST_MAX_LEN_def
    by (rule http_loop_finds [OF _ _ _ _ len]) (simp_all add: CRLF_def)
  have valid: "valid_utf8 ?r"
    by (rule valid_utf8_ascii_bytes) (simp add: sample_body_def CRLF_def)
  have val: "validate_handshake ?dec ?r = Inr (ascii ''dGhlIHNhbXBsZSBub25jZQ=='')"
    unfolding validate_handshake_def sample_lines list.case
    by (simp add: sample_headers CONTROLLER_WEBSOCKET_PATH_def Let_def del: ascii_simps) simp
  show ?thesis
    by (simp add: ws_upgrade_def rd valid val WEBSOCKET_GUID_def Let_def ws_write_all_def del: append.simps)
qed

theorem ws_upgrade_checked_witness:
  "\<exists>s'. ws_upgrade (\<lambda>bs. replicate 20 0) (\<lambda>bs n. Some (replicate n 0x41)) (\<lambda>bs n. Some (replicate n 0))
       \<lparr>so_rx = sample_body @ CRLF @ CRLF, so_tx_results = [], so_tx = []\<rparr> = (Inr (), s') \<and>
     so_tx s' = [upgrade_prefix @ replicate 28 0x41 @ CRLF @ CRLF]"
proof -
  let ?enc = "\<lambda>(bs :: u8 list) n. Some (replicate n (0x41 :: u8))"
  let ?up = "ws_upgrade (\<lambda>bs. replicate 20 0) ?enc (\<lambda>bs n. Some (replicate n 0))
    \<lparr>so_rx = sample_body @ CRLF @ CRLF, so_tx_results = [], so_tx = []\<rparr>"
  obtain s' where up: "?up = (Inr (), s')" using sample_upgrade by (metis prod.collapse)
  have fits: "\<forall>bs. case ?enc bs 28 of Some a \<Rightarrow> length a \<le> 28 | None \<Rightarrow> True" by simp
  from ws_upgrade_checked [OF fits up] up show ?thesis by auto
qed

end
