(* ===== verification/Build_Script.thy ===== *)
theory Build_Script
  imports Fetchline_Prelude "HOL-Library.Sublist"
begin

text \<open>
  The build script (\<open>src/build.rs\<close>), which Cargo runs without arguments and the linker runs again,
  as its error-handling script, with the kind of an error and what it is about. The lemmas say which run
  ends how, and that only the run under Cargo configures the linker.
\<close>

section \<open>Definitions\<close>

text \<open>The hints, each a message between two empty lines.\<close>

datatype hint = DefmtMissing | LinkScriptMissing | SchedulerMissing | EmbeddedTestMissing | AllocatorMissing

text \<open>A run prints a hint or not and ends with an exit status, or prints lines for Cargo, or panics.\<close>

datatype build_end = Exited "hint option" nat | CargoLines "string list" | BuildPanic

definition ALLOCATOR_SYMBOLS :: "string list" where
  "ALLOCATOR_SYMBOLS = [''free'', ''malloc'', ''calloc'', ''get_free_internal_heap_size'', ''malloc_internal'',
     ''realloc_internal'', ''calloc_internal'', ''free_internal'']"

definition undefined_symbol_hint :: "string \<Rightarrow> hint option" where
  "undefined_symbol_hint what =
     (if prefix ''_defmt_'' what then Some DefmtMissing
      else if what = ''_stack_start'' then Some LinkScriptMissing
      else if prefix ''esp_rtos_'' what then Some SchedulerMissing
      else if what = ''embedded_test_linker_file_not_added_to_rustflags'' then Some EmbeddedTestMissing
      else if what \<in> set ALLOCATOR_SYMBOLS then Some AllocatorMissing
      else None)"

text \<open>The argument vector with the program's name; the path of the script, if it can be found.\<close>

definition linker_be_nice :: "string list \<Rightarrow> string option \<Rightarrow> build_end" where
  "linker_be_nice args current_exe =
     (if 1 < length args
      then case (index args 1, index args 2) of
          (Some kind, Some what) \<Rightarrow>
            if kind = ''undefined-symbol'' then Exited (undefined_symbol_hint what) 0 else Exited None 1
        | _ \<Rightarrow> BuildPanic
      else case current_exe of
          Some path \<Rightarrow> CargoLines [''cargo:rustc-link-arg=--error-handling-script='' @ path]
        | None \<Rightarrow> BuildPanic)"

definition build_main :: "string list \<Rightarrow> string option \<Rightarrow> build_end" where
  "build_main args current_exe =
     (case linker_be_nice args current_exe of
        CargoLines lines \<Rightarrow> CargoLines (lines @ [''cargo:rustc-link-arg=-Tlinkall.x''])
      | other \<Rightarrow> other)"

section \<open>How a run ends\<close>

lemma build_main_cargo:
  "build_main [program] (Some path) =
     CargoLines [''cargo:rustc-link-arg=--error-handling-script='' @ path, ''cargo:rustc-link-arg=-Tlinkall.x'']"
  by (simp add: build_main_def linker_be_nice_def)

lemma build_main_linker:
  "build_main (program # kind # what # more) current_exe =
     (if kind = ''undefined-symbol'' then Exited (undefined_symbol_hint what) 0 else Exited None 1)"
  by (simp add: build_main_def linker_be_nice_def index_def)

lemma build_main_short: "build_main [program, kind] current_exe = BuildPanic"
  by (simp add: build_main_def linker_be_nice_def index_def)

text \<open>The linker is configured, and the link script is the last argument, exactly in a run without arguments.\<close>

lemma link_script_last:
  "build_main (program # args) current_exe = CargoLines lines \<Longrightarrow>
     args = [] \<and> last lines = ''cargo:rustc-link-arg=-Tlinkall.x''"
  by (auto simp: build_main_def linker_be_nice_def split: if_splits option.splits)

end
