(* ===== verification/Host_Connect.thy ===== *)
theory Host_Connect
  imports Host_Rpc
begin

text \<open>
  How the host opens a connection (\<open>src/host/src/main.rs\<close>): the retry loops of
  \<open>connect_controller\<close> and \<open>connect_raw_tunnel\<close>, and \<open>open_raw_tunnel\<close>.
  The network answers each attempt with an outcome and the milliseconds it took; the loops count the
  time that passes, so their termination is a theorem about their clocks.
\<close>

section \<open>Definitions\<close>

definition CONTROLLER_CONNECT_RETRY_WINDOW :: nat where "CONTROLLER_CONNECT_RETRY_WINDOW = 3000"
definition CONTROLLER_CONNECT_RETRY_INTERVAL :: nat where "CONTROLLER_CONNECT_RETRY_INTERVAL = 100"

text \<open>How an attempt to open the controller WebSocket can end.\<close>

datatype dial =
    DialElapsed
  | DialFailed string
  | DialUnconfigured string
  | UpgradeElapsed
  | UpgradeFailed string
  | DialOpened ws_stream

fun connect_controller_once :: "string \<Rightarrow> dial \<Rightarrow> string + ws_stream" where
  "connect_controller_once peer DialElapsed = Inl (''Timed out connecting to '' @ peer)"
| "connect_controller_once peer (DialFailed e) = Inl (''Could not connect to '' @ peer @ '': '' @ e)"
| "connect_controller_once peer (DialUnconfigured e) =
     Inl (''Connected to '' @ peer @ '', but could not configure TCP: '' @ e)"
| "connect_controller_once peer UpgradeElapsed =
     Inl (''Timed out opening the JSON-RPC WebSocket to '' @ peer)"
| "connect_controller_once peer (UpgradeFailed e) =
     Inl (''Could not open the JSON-RPC WebSocket to '' @ peer @ '': '' @ e)"
| "connect_controller_once peer (DialOpened websocket) = Inr websocket"

definition starts_with :: "string \<Rightarrow> string \<Rightarrow> bool" where
  "starts_with s p \<longleftrightarrow> take (length p) s = p"

definition controller_connection_is_retryable :: "string \<Rightarrow> bool" where
  "controller_connection_is_retryable error \<longleftrightarrow>
     starts_with error ''Timed out connecting'' \<or>
     starts_with error ''Could not connect'' \<or>
     starts_with error ''Timed out opening the JSON-RPC WebSocket'' \<or>
     starts_with error ''Could not open the JSON-RPC WebSocket''"

text \<open>The outcome of the next attempt; where the list ends the peer does not answer any more.\<close>

fun next_dial :: "(nat \<times> dial) list \<Rightarrow> nat \<times> dial \<times> (nat \<times> dial) list" where
  "next_dial [] = (HOST_SERVO_TIMEOUT, DialElapsed, [])"
| "next_dial ((t, d) # ds) = (t, d, ds)"

text \<open>The loop of \<open>connect_controller\<close>, \<open>elapsed\<close> milliseconds after its start; the
  results are those of the call, of the clock and of the network.\<close>

function connect_controller_loop ::
  "string \<Rightarrow> nat \<Rightarrow> (nat \<times> dial) list \<Rightarrow> (string + ws_stream) \<times> nat \<times> (nat \<times> dial) list" where
  "connect_controller_loop peer elapsed ds =
     (case next_dial ds of (t, d, ds') \<Rightarrow>
        (case connect_controller_once peer d of
           Inr websocket \<Rightarrow> (Inr websocket, elapsed + t, ds')
         | Inl error \<Rightarrow>
             if controller_connection_is_retryable error \<and> elapsed + t < CONTROLLER_CONNECT_RETRY_WINDOW
             then connect_controller_loop peer (elapsed + t + CONTROLLER_CONNECT_RETRY_INTERVAL) ds'
             else (Inl error, elapsed + t, ds')))"
  by pat_completeness auto

termination
  by (relation "measure (\<lambda>(peer, elapsed, ds). CONTROLLER_CONNECT_RETRY_WINDOW - elapsed)")
     (auto simp: CONTROLLER_CONNECT_RETRY_WINDOW_def CONTROLLER_CONNECT_RETRY_INTERVAL_def)

declare connect_controller_loop.simps [simp del]

definition connect_controller ::
  "string \<Rightarrow> (nat \<times> dial) list \<Rightarrow> (string + ws_stream) \<times> nat \<times> (nat \<times> dial) list" where
  "connect_controller peer ds = connect_controller_loop peer 0 ds"

text \<open>An attempt to reach the raw tunnel: the stream with the result of configuring it, or a refusal.\<close>

datatype raw_dial = RawOpened tcp_stream "string option" | RawRefused string

function connect_raw_loop ::
  "string \<Rightarrow> nat \<Rightarrow> (nat \<times> raw_dial) list \<Rightarrow> (string + tcp_stream) \<times> nat \<times> (nat \<times> raw_dial) list" where
  "connect_raw_loop peer elapsed ds =
     (if HOST_SERVO_TIMEOUT < elapsed
      then (Inl (''Timed out connecting to raw tunnel '' @ peer), elapsed, ds)
      else let attempt_timeout = min (HOST_SERVO_TIMEOUT - elapsed) 100 in
        case ds of
          [] \<Rightarrow> connect_raw_loop peer (elapsed + attempt_timeout + 25) []
        | (t, d) # ds' \<Rightarrow>
            if attempt_timeout < t then connect_raw_loop peer (elapsed + attempt_timeout + 25) ds'
            else case d of
                RawOpened stream None \<Rightarrow> (Inr stream, elapsed + t, ds')
              | RawOpened stream (Some e) \<Rightarrow>
                  (Inl (''Connected to raw tunnel '' @ peer @ '', but could not configure TCP: '' @ e), elapsed + t, ds')
              | RawRefused e \<Rightarrow> connect_raw_loop peer (elapsed + t + 25) ds')"
  by pat_completeness auto

termination
  by (relation "measure (\<lambda>(peer, elapsed, ds). Suc HOST_SERVO_TIMEOUT - elapsed)") auto

declare connect_raw_loop.simps [simp del]

definition connect_raw_tunnel ::
  "string \<Rightarrow> (nat \<times> raw_dial) list \<Rightarrow> (string + tcp_stream) \<times> nat \<times> (nat \<times> raw_dial) list" where
  "connect_raw_tunnel peer ds = connect_raw_loop peer 0 ds"

text \<open>The network as the host meets it: what the next connection attempts will find.\<close>

record network =
  net_dials :: "(nat \<times> dial) list"
  net_raw_dials :: "(nat \<times> raw_dial) list"

definition open_raw_tunnel :: "serde \<Rightarrow> string \<Rightarrow> (BridgeConnection \<times> network, string, unit) action" where
  "open_raw_tunnel sd host = (\<lambda>(c, net).
     case controller_request sd ''debug.enableRawTunnel'' (JObj []) c of
       (Inl e, c) \<Rightarrow> (Inl e, (c, net))
     | (Inr result, c) \<Rightarrow>
         (case Option.bind (Option.bind (json_get result ''port'') as_u64) u16_try_from of
            None \<Rightarrow> (Inl ''MCU did not return a raw tunnel TCP port'', (c, net))
          | Some port \<Rightarrow>
              if port \<noteq> RAW_TUNNEL_TCP_PORT
              then (Inl (''MCU returned unexpected raw tunnel TCP port '' @ decimal (unat port)), (c, net))
              else
                (case connect_raw_tunnel (host @ '':'' @ decimal (unat port)) (net_raw_dials net) of
                   (Inl e, _, ds) \<Rightarrow> (Inl e, (c, net\<lparr>net_raw_dials := ds\<rparr>))
                 | (Inr stream, _, ds) \<Rightarrow>
                     (Inr (), (c\<lparr>bc_transport := DebugRaw stream\<rparr>, net\<lparr>net_raw_dials := ds\<rparr>)))))"

section \<open>Which attempts are repeated\<close>

lemma starts_with_literal [simp]:
  "starts_with s []" "starts_with (c # s) (p # ps) \<longleftrightarrow> c = p \<and> starts_with s ps" "\<not> starts_with [] (p # ps)"
  by (auto simp: starts_with_def)

definition retried :: "dial \<Rightarrow> bool" where
  "retried d \<longleftrightarrow> (case d of DialOpened _ \<Rightarrow> False | DialUnconfigured _ \<Rightarrow> False | _ \<Rightarrow> True)"

lemma retryable_dial:
  "connect_controller_once peer d = Inl error \<Longrightarrow> controller_connection_is_retryable error \<longleftrightarrow> retried d"
  by (cases d) (auto simp: controller_connection_is_retryable_def retried_def)

lemma loop_retries:
  assumes "retried d" "elapsed + t < CONTROLLER_CONNECT_RETRY_WINDOW"
  shows "connect_controller_loop peer elapsed ((t, d) # ds) =
    connect_controller_loop peer (elapsed + t + CONTROLLER_CONNECT_RETRY_INTERVAL) ds"
proof (cases "connect_controller_once peer d")
  case (Inl error)
  with assms retryable_dial [OF this] show ?thesis by (subst connect_controller_loop.simps) simp
qed (use assms in \<open>cases d; simp add: retried_def\<close>)

lemma div_step: "0 < k \<Longrightarrow> x + k \<le> y \<Longrightarrow> x div k + 1 \<le> y div (k :: nat)"
  using div_le_mono [of "x + k" y k] by (simp add: div_add_self2)

lemma loop_bounded:
  assumes "connect_controller_loop peer elapsed ds = (r, elapsed', ds')" "list_all (\<lambda>(t, _). t \<le> 1500) ds"
  shows "elapsed' \<le> max elapsed 3099 + 1500 \<and> length ds \<le> length ds' + (3099 - elapsed) div 100 + 1"
  using assms
proof (induction peer elapsed ds arbitrary: r elapsed' ds' rule: connect_controller_loop.induct)
  case (1 peer elapsed ds)
  obtain t d rest where nd: "next_dial ds = (t, d, rest)" by (metis prod_cases3)
  then have t: "t \<le> 1500" "list_all (\<lambda>(t, _). t \<le> 1500) rest" "length ds \<le> length rest + 1"
    using 1(3) by (auto simp: HOST_SERVO_TIMEOUT_def elim!: next_dial.elims)
  show ?case
  proof (cases "\<exists>error. connect_controller_once peer d = Inl error \<and> controller_connection_is_retryable error \<and>
      elapsed + t < CONTROLLER_CONNECT_RETRY_WINDOW")
    case True
    then obtain error where error: "connect_controller_once peer d = Inl error"
      "controller_connection_is_retryable error \<and> elapsed + t < CONTROLLER_CONNECT_RETRY_WINDOW" by blast
    with 1(2) nd have "connect_controller_loop peer (elapsed + t + CONTROLLER_CONNECT_RETRY_INTERVAL) rest = (r, elapsed', ds')"
      by (subst (asm) connect_controller_loop.simps) simp
    note IH = 1(1) [OF nd [symmetric] refl error(1) error(2) this t(2)]
    have "(3099 - (elapsed + t + 100)) div 100 + 1 \<le> (3099 - elapsed) div 100"
      using error(2) by (intro div_step) (simp_all add: CONTROLLER_CONNECT_RETRY_WINDOW_def)
    with IH t error(2) show ?thesis
      by (simp add: CONTROLLER_CONNECT_RETRY_WINDOW_def CONTROLLER_CONNECT_RETRY_INTERVAL_def)
  next
    case False
    with 1(2) nd have "elapsed' = elapsed + t" "ds' = rest"
      by (subst (asm) connect_controller_loop.simps; auto split: sum.splits if_splits)+
    with t show ?thesis by simp
  qed
qed

definition attempts_time :: "nat \<Rightarrow> (nat \<times> 'a) list \<Rightarrow> nat" where
  "attempts_time pause ds = (\<Sum>(t, _) \<leftarrow> ds. t + pause)"

lemma attempts_time_simps [simp]:
  "attempts_time pause [] = 0" "attempts_time pause ((t, d) # ds) = t + pause + attempts_time pause ds"
  by (simp_all add: attempts_time_def)

lemma loop_connects:
  assumes "list_all (\<lambda>(_, d). retried d) fails" "elapsed + attempts_time 100 fails < 3100"
  shows "connect_controller_loop peer elapsed (fails @ (t, DialOpened websocket) # rest) =
    (Inr websocket, elapsed + attempts_time 100 fails + t, rest)"
  using assms
proof (induction fails arbitrary: elapsed)
  case (Cons x fails)
  obtain t1 d where x: "x = (t1, d)" by fastforce
  with Cons.prems have "elapsed + t1 < CONTROLLER_CONNECT_RETRY_WINDOW" "retried d"
    by (simp_all add: CONTROLLER_CONNECT_RETRY_WINDOW_def)
  with Cons x show ?case by (simp add: loop_retries CONTROLLER_CONNECT_RETRY_INTERVAL_def algebra_simps)
qed (simp add: connect_controller_loop.simps)

lemma raw_loop_bounded:
  assumes "connect_raw_loop peer elapsed ds = (r, elapsed', ds')" "elapsed \<le> 775"
  shows "elapsed' \<le> 775 \<and> length ds \<le> length ds' + (775 - elapsed) div 25"
  using assms
proof (induction peer elapsed ds arbitrary: r elapsed' ds' rule: connect_raw_loop.induct)
  case (1 peer elapsed ds)
  have step: "(775 - (elapsed + x + 25)) div 25 + 1 \<le> (775 - elapsed) div 25" if "elapsed \<le> 750" for x
    using that by (intro div_step) simp_all
  show ?case
    using 1(4,5) 1(1,2,3) step
    by (subst (asm) connect_raw_loop.simps)
       (fastforce simp: HOST_SERVO_TIMEOUT_def Let_def not_less
         split: if_splits list.splits prod.splits raw_dial.splits option.splits)
qed

section \<open>Properties\<close>

text \<open>C32. Opening a connection always comes to an end: with each attempt limited by its two 750 ms timeouts,
  connecting to the controller returns within 4.6 seconds and after at most 31 attempts, whatever the
  network answers, and connecting to the raw tunnel within 775 ms and after at most 31 attempts.\<close>
theorem connecting_ends:
  assumes "list_all (\<lambda>(t, _). t \<le> 2 * HOST_SERVO_TIMEOUT) ds"
    and "connect_controller peer ds = (r, ms, ds')"
    and "connect_raw_tunnel raw_peer raw_ds = (raw_r, raw_ms, raw_ds')"
  shows "ms < 4600 \<and> length ds \<le> length ds' + 31 \<and> raw_ms \<le> 775 \<and> length raw_ds \<le> length raw_ds' + 31"
  using loop_bounded [of peer 0 ds r ms ds'] raw_loop_bounded [of raw_peer 0 raw_ds raw_r raw_ms raw_ds'] assms
  by (auto simp: connect_controller_def connect_raw_tunnel_def HOST_SERVO_TIMEOUT_def)

theorem connecting_ends_witness:
  "fst (snd (connect_controller ''mcu:3333'' [(1, DialFailed ''refused''), (1500, UpgradeElapsed)])) < 4600 \<and>
   fst (snd (connect_raw_tunnel ''mcu:3334'' [(3, RawRefused ''refused'')])) \<le> 775"
proof -
  let ?c = "connect_controller ''mcu:3333'' [(1, DialFailed ''refused''), (1500, UpgradeElapsed)]"
  let ?r = "connect_raw_tunnel ''mcu:3334'' [(3, RawRefused ''refused'')]"
  show ?thesis
    using connecting_ends [of "[(1, DialFailed ''refused''), (1500, UpgradeElapsed)]" "''mcu:3333''" "fst ?c"
        "fst (snd ?c)" "snd (snd ?c)" "''mcu:3334''" "[(3, RawRefused ''refused'')]" "fst ?r" "fst (snd ?r)" "snd (snd ?r)"]
    by (simp add: HOST_SERVO_TIMEOUT_def)
qed

text \<open>A controller that becomes reachable inside the retry window is reached: if every earlier attempt
  failed in a way that is retried and the last of them ended less than three seconds after the start
  (each followed by its pause of 100 ms), then the first attempt that succeeds is the connection.\<close>
theorem controller_reached:
  assumes "list_all (\<lambda>(_, d). retried d) fails"
    and "attempts_time CONTROLLER_CONNECT_RETRY_INTERVAL fails <
      CONTROLLER_CONNECT_RETRY_WINDOW + CONTROLLER_CONNECT_RETRY_INTERVAL"
  shows "connect_controller peer (fails @ (t, DialOpened websocket) # rest) =
    (Inr websocket, attempts_time CONTROLLER_CONNECT_RETRY_INTERVAL fails + t, rest)"
  using loop_connects [of fails 0 peer t websocket rest] assms
  by (simp add: connect_controller_def CONTROLLER_CONNECT_RETRY_INTERVAL_def CONTROLLER_CONNECT_RETRY_WINDOW_def)

theorem controller_reached_witness:
  "connect_controller ''mcu:3333'' [(2, DialFailed ''refused''), (750, UpgradeElapsed), (40, DialOpened sample_ws)] =
     (Inr sample_ws, 992, [])"
  using controller_reached [of "[(2, DialFailed ''refused''), (750, UpgradeElapsed)]" "''mcu:3333''" 40 sample_ws "[]"]
  by (simp add: retried_def CONTROLLER_CONNECT_RETRY_INTERVAL_def CONTROLLER_CONNECT_RETRY_WINDOW_def)

text \<open>The raw tunnel is entered only on the port the protocol names; otherwise the connection stays a
  controller connection.\<close>

lemma open_raw_tunnel_transport:
  assumes "open_raw_tunnel sd host (c, net) = (r, (c', net'))"
  shows "case r of Inr _ \<Rightarrow> \<not> is_controller c' | Inl _ \<Rightarrow> is_controller c' = is_controller c"
  using assms
  by (auto simp: open_raw_tunnel_def is_controller_def controller_request_def controller_request_with_timeout_def Let_def
      split: prod.splits sum.splits option.splits if_splits BridgeTransport.splits)

end
