(* ===== verification/Host_Service.thy ===== *)
theory Host_Service
  imports Host_Connect Utf8 "HOL-Library.Sublist"
begin

text \<open>
  The host's control service (\<open>src/host/src/main.rs\<close>): the requests of the browser, the servo
  operations over either transport, connecting and disconnecting the bridge, and the browser session
  loop. The bridge is one mutex that a servo request or a connect holds from start to end, so requests
  of several browsers happen one after another and the state is passed from request to request. The
  lemmas say when the bridge is kept or dropped and what the browser is told, that out-of-range
  requests never reach the MCU, and what the replies contain.
\<close>

section \<open>Messages\<close>

datatype ClientMessage =
    CmConnect string u16
  | CmStartMotor u8 u16 u8 Direction
  | CmStopMotor u8
  | CmMovePosition u8 u16 u8 u16
  | CmReadPosition u8
  | CmReadPositions "u8 list"
  | CmScanServos u8 u8

text \<open>The description of a request in the log; \<open>{:?}\<close> writes a list in brackets.\<close>

fun debug_list :: "u8 list \<Rightarrow> string" where
  "debug_list [] = []"
| "debug_list [i] = decimal (unat i)"
| "debug_list (i # is) = decimal (unat i) @ '', '' @ debug_list is"

fun debug_direction :: "Direction \<Rightarrow> string" where
  "debug_direction DirClockwise = ''Clockwise''"
| "debug_direction DirCounterclockwise = ''Counterclockwise''"

fun summary :: "ClientMessage \<Rightarrow> string" where
  "summary (CmConnect host port) = ''connect MCU '' @ host @ '':'' @ decimal (unat port)"
| "summary (CmStartMotor sid speed acceleration direction) =
     ''start motor servo='' @ decimal (unat sid) @ '' direction='' @ debug_direction direction @
     '' speed='' @ decimal (unat speed) @ '' acceleration='' @ decimal (unat acceleration)"
| "summary (CmStopMotor sid) = ''stop motor servo='' @ decimal (unat sid)"
| "summary (CmMovePosition sid position acceleration torque_limit) =
     ''move servo='' @ decimal (unat sid) @ '' position='' @ decimal (unat position) @
     '' acceleration='' @ decimal (unat acceleration) @ '' torque_limit='' @ decimal (unat torque_limit)"
| "summary (CmReadPosition sid) = ''read position servo='' @ decimal (unat sid)"
| "summary (CmReadPositions ids) = ''read positions servos=['' @ debug_list ids @ '']''"
| "summary (CmScanServos start_id end_id) =
     ''scan servobus start_id='' @ decimal (unat start_id) @ '' end_id='' @ decimal (unat end_id)"

definition position_json :: "host_position \<Rightarrow> json" where
  "position_json p = JObj [(''id'', JInt (uint (hp_id p))), (''position'', JInt (sint (hp_position p)))]"

fun server_message_json :: "ServerMessage \<Rightarrow> json" where
  "server_message_json (Connected address) = JObj [(''type'', JStr ''connected''), (''address'', JStr address)]"
| "server_message_json (Complete action) = JObj [(''type'', JStr ''complete''), (''action'', JStr action)]"
| "server_message_json (PositionMsg sid position) =
     JObj [(''type'', JStr ''position''), (''id'', JInt (uint sid)), (''position'', JInt (sint position))]"
| "server_message_json (PositionsMsg positions errors) =
     JObj [(''type'', JStr ''positions''), (''positions'', JArr (map position_json positions)), (''errors'', JArr (map JStr errors))]"
| "server_message_json (ServoScan start_id end_id ids) =
     JObj [(''type'', JStr ''servo_scan''), (''start_id'', JInt (uint start_id)), (''end_id'', JInt (uint end_id)),
       (''ids'', JArr (map (\<lambda>i. JInt (uint i)) ids))]"
| "server_message_json (ErrorMsg message connected) =
     JObj [(''type'', JStr ''error''), (''message'', JStr message), (''bridge_connected'', JBool connected)]"

section \<open>Validation\<close>

definition host_is_unicast_servo_id :: "u8 \<Rightarrow> bool" where
  "host_is_unicast_servo_id sid \<longleftrightarrow> sid \<noteq> 0 \<and> sid \<le> 0xfd"

definition validate_id :: "u8 \<Rightarrow> string + unit" where
  "validate_id sid = (if \<not> host_is_unicast_servo_id sid then Inl ''Servo ID must be between 1 and 253'' else Inr ())"

definition validate_scan_range :: "u8 \<Rightarrow> u8 \<Rightarrow> string + unit" where
  "validate_scan_range start_id end_id =
     (if start_id = 0 \<or> end_id < start_id \<or> 0xfd < end_id
      then Inl ''Servo search IDs must be between 1 and 253, with a start no greater than the end'' else Inr ())"

definition BROKEN_CONNECTION_PREFIXES :: "string list" where
  "BROKEN_CONNECTION_PREFIXES = [
     ''Timed out sending command to the MCU'',
     ''Could not send command to the MCU'',
     ''Could not read STS servo reply'',
     ''Timed out sending a JSON-RPC command to the MCU'',
     ''Could not send a JSON-RPC command to the MCU'',
     ''Timed out waiting for an MCU JSON-RPC response'',
     ''MCU closed the JSON-RPC WebSocket'',
     ''Could not read an MCU JSON-RPC response'',
     ''MCU sent invalid JSON-RPC'',
     ''MCU sent a JSON-RPC response with an unsupported version'',
     ''Could not answer MCU WebSocket ping'',
     ''MCU sent an unsupported WebSocket message'',
     ''MCU sent too many stale JSON-RPC responses'']"

definition connection_is_usable_after :: "string \<Rightarrow> bool" where
  "connection_is_usable_after error \<longleftrightarrow> \<not> list_ex (starts_with error) BROKEN_CONNECTION_PREFIXES"

section \<open>Servo operations\<close>

definition from_result :: "'e + 'a \<Rightarrow> ('s, 'e, 'a) action" where
  [action_simps]: "from_result r = (\<lambda>s. (r, s))"

text \<open>A controller command that is only acknowledged.\<close>

definition accepted_request :: "serde \<Rightarrow> string \<Rightarrow> json \<Rightarrow> string \<Rightarrow> ServerMessage bridge_action" where
  "accepted_request sd method params done_action =
     try_then (controller_request sd method params) (\<lambda>v.
     try_then (from_result (expect_controller_accepted v)) (\<lambda>_. return_ok (Complete done_action)))"

fun direction_name :: "Direction \<Rightarrow> string" where
  "direction_name DirClockwise = ''clockwise''"
| "direction_name DirCounterclockwise = ''counterclockwise''"

definition start_params :: "u8 \<Rightarrow> u16 \<Rightarrow> u8 \<Rightarrow> Direction \<Rightarrow> json" where
  "start_params sid speed acceleration direction =
     JObj [(''acceleration'', JInt (uint acceleration)), (''direction'', JStr (direction_name direction)),
       (''id'', JInt (uint sid)), (''speed'', JInt (uint speed))]"

definition host_start_motor :: "serde \<Rightarrow> u8 \<Rightarrow> u16 \<Rightarrow> u8 \<Rightarrow> Direction \<Rightarrow> ServerMessage bridge_action" where
  "host_start_motor sd sid speed acceleration direction =
     try_then (from_result (validate_id sid)) (\<lambda>_.
     if 4095 < speed then return_err ''Motor speed must be between 0 and 4095''
     else (\<lambda>c. if is_controller c
       then accepted_request sd ''motor.start'' (start_params sid speed acceleration direction) ''motor_started'' c
       else raw_start_motor sid speed acceleration direction c))"

definition id_params :: "u8 \<Rightarrow> json" where
  "id_params sid = JObj [(''id'', JInt (uint sid))]"

definition host_stop_motor :: "serde \<Rightarrow> u8 \<Rightarrow> ServerMessage bridge_action" where
  "host_stop_motor sd sid =
     try_then (from_result (validate_id sid)) (\<lambda>_ c.
       if is_controller c then accepted_request sd ''motor.stop'' (id_params sid) ''motor_stopped'' c
       else raw_stop_motor sid c)"

definition move_params :: "u8 \<Rightarrow> u16 \<Rightarrow> u8 \<Rightarrow> u16 \<Rightarrow> json" where
  "move_params sid position acceleration torque_limit =
     JObj [(''acceleration'', JInt (uint acceleration)), (''id'', JInt (uint sid)),
       (''position'', JInt (uint position)), (''torqueLimit'', JInt (uint torque_limit))]"

definition host_move_position :: "serde \<Rightarrow> u8 \<Rightarrow> u16 \<Rightarrow> u8 \<Rightarrow> u16 \<Rightarrow> ServerMessage bridge_action" where
  "host_move_position sd sid position acceleration torque_limit =
     try_then (from_result (validate_id sid)) (\<lambda>_.
     if 4095 < position then return_err ''Position must be between 0 and 4095''
     else if 1000 < torque_limit then return_err ''Torque limit must be between 0 and 1000''
     else (\<lambda>c. if is_controller c
       then accepted_request sd ''servo.setPosition'' (move_params sid position acceleration torque_limit) ''position_commanded'' c
       else raw_move_position sid position acceleration torque_limit c))"

definition checked_position :: "serde \<Rightarrow> u8 \<Rightarrow> json \<Rightarrow> string + i16" where
  "checked_position sd sid response = (case sd_position sd response of
       Inl e \<Rightarrow> Inl (''MCU returned an invalid position result: '' @ e)
     | Inr position \<Rightarrow>
         if hp_id position \<noteq> sid
         then Inl (''MCU returned a position for servo '' @ decimal (unat (hp_id position)) @ '', but servo '' @
           decimal (unat sid) @ '' was requested'')
         else Inr (hp_position position))"

definition host_read_position :: "serde \<Rightarrow> u8 \<Rightarrow> i16 bridge_action" where
  "host_read_position sd sid =
     try_then (from_result (validate_id sid)) (\<lambda>_ c.
       if is_controller c
       then try_then (controller_request sd ''servo.getPosition'' (id_params sid)) (\<lambda>response.
         from_result (checked_position sd sid response)) c
       else raw_read_position sid c)"

fun host_read_positions_loop ::
  "serde \<Rightarrow> u8 list \<Rightarrow> host_position list \<Rightarrow> string list \<Rightarrow> ServerMessage bridge_action" where
  "host_read_positions_loop sd [] positions errors c = (Inr (PositionsMsg positions errors), c)"
| "host_read_positions_loop sd (sid # ids) positions errors c = (case host_read_position sd sid c of
       (Inr position, c) \<Rightarrow>
         host_read_positions_loop sd ids (positions @ [\<lparr>hp_id = sid, hp_position = position\<rparr>]) errors c
     | (Inl error, c) \<Rightarrow>
         if connection_is_usable_after error
         then host_read_positions_loop sd ids positions (errors @ [''Servo '' @ decimal (unat sid) @ '': '' @ error]) c
         else (Inl error, c))"

definition host_read_positions :: "serde \<Rightarrow> u8 list \<Rightarrow> ServerMessage bridge_action" where
  "host_read_positions sd ids =
     (if 6 < length ids then return_err ''At most six position servos can be read at once''
      else host_read_positions_loop sd ids [] [])"

definition checked_scan :: "serde \<Rightarrow> u8 \<Rightarrow> u8 \<Rightarrow> json \<Rightarrow> string + ServerMessage" where
  "checked_scan sd start_id end_id response = (case sd_scan sd response of
       Inl e \<Rightarrow> Inl (''MCU returned an invalid servo-scan result: '' @ e)
     | Inr ids \<Rightarrow>
         (case find (\<lambda>i. i < start_id \<or> end_id < i \<or> \<not> host_is_unicast_servo_id i) ids of
            Some i \<Rightarrow> Inl (''MCU returned an invalid scanned servo ID '' @ decimal (unat i))
          | None \<Rightarrow> Inr (ServoScan start_id end_id ids)))"

definition scan_params :: "u8 \<Rightarrow> u8 \<Rightarrow> json" where
  "scan_params start_id end_id = JObj [(''endId'', JInt (uint end_id)), (''startId'', JInt (uint start_id))]"

definition host_scan_servos :: "serde \<Rightarrow> u8 \<Rightarrow> u8 \<Rightarrow> ServerMessage bridge_action" where
  "host_scan_servos sd start_id end_id =
     try_then (from_result (validate_scan_range start_id end_id)) (\<lambda>_ c.
       if \<not> is_controller c
       then (Inl ''Servo search is available only in JSON-RPC controller mode, not through the raw debug tunnel'', c)
       else try_then
         (controller_request_with_timeout sd ''servo.scan'' (scan_params start_id end_id) SERVO_SCAN_TIMEOUT)
         (\<lambda>response. from_result (checked_scan sd start_id end_id response)) c)"

section \<open>The service\<close>

datatype TransportMode = ControllerMode | DebugRawTunnel

text \<open>The part of the application state that requests use, and the network behind it.\<close>

record AppState =
  st_bridge :: "BridgeConnection option"
  st_transport :: TransportMode
  st_net :: network

text \<open>The requests other than a connect, which is handled before the bridge is locked.\<close>

definition servo_request :: "serde \<Rightarrow> ClientMessage \<Rightarrow> ServerMessage bridge_action" where
  "servo_request sd request = (case request of
       CmConnect _ _ \<Rightarrow> return_err ''''
     | CmStartMotor sid speed acceleration direction \<Rightarrow> host_start_motor sd sid speed acceleration direction
     | CmStopMotor sid \<Rightarrow> host_stop_motor sd sid
     | CmMovePosition sid position acceleration torque_limit \<Rightarrow>
         host_move_position sd sid position acceleration torque_limit
     | CmReadPosition sid \<Rightarrow> try_then (host_read_position sd sid) (\<lambda>position. return_ok (PositionMsg sid position))
     | CmReadPositions ids \<Rightarrow> host_read_positions sd ids
     | CmScanServos start_id end_id \<Rightarrow> host_scan_servos sd start_id end_id)"

definition trim_string :: "string \<Rightarrow> string" where
  "trim_string s = map (\<lambda>b. char_of (unat b)) (trim (ascii s))"

definition ping_controller :: "serde \<Rightarrow> unit bridge_action" where
  "ping_controller sd = try_then (controller_request sd ''system.ping'' (JObj [])) (\<lambda>v. from_result (expect_controller_ready v))"

text \<open>A bridge to the requested peer is used again if it is still healthy.\<close>

definition reuse_bridge :: "serde \<Rightarrow> string \<Rightarrow> BridgeConnection option \<Rightarrow> BridgeConnection option" where
  "reuse_bridge sd peer bridge = (case bridge of
       Some c \<Rightarrow>
         if bc_peer c = peer
         then (if is_controller c
               then (case ping_controller sd c of (Inr _, c') \<Rightarrow> Some c' | (Inl _, _) \<Rightarrow> None) else Some c)
         else None
     | None \<Rightarrow> None)"

definition setup_connection :: "serde \<Rightarrow> TransportMode \<Rightarrow> string \<Rightarrow> (BridgeConnection \<times> network, string, unit) action" where
  "setup_connection sd transport host = (\<lambda>(c, net). case transport of
       ControllerMode \<Rightarrow> (case ping_controller sd c of (r, c) \<Rightarrow> (r, (c, net)))
     | DebugRawTunnel \<Rightarrow> open_raw_tunnel sd host (c, net))"

definition connect :: "serde \<Rightarrow> string \<Rightarrow> u16 \<Rightarrow> AppState \<Rightarrow> ServerMessage \<times> AppState" where
  "connect sd host port st =
     (let host = trim_string host in
      if host = [] then (ErrorMsg ''The MCU host name or IP address is required'' False, st)
      else if port = 0 then (ErrorMsg ''The MCU TCP port must be between 1 and 65535'' False, st)
      else let peer = host @ '':'' @ decimal (unat port) in
        case reuse_bridge sd peer (st_bridge st) of
          Some c \<Rightarrow> (Connected peer, st\<lparr>st_bridge := Some c\<rparr>)
        | None \<Rightarrow>
            let st = st\<lparr>st_bridge := None\<rparr> in
            (case connect_controller peer (net_dials (st_net st)) of
               (Inl e, _, ds) \<Rightarrow> (ErrorMsg e False, st\<lparr>st_net := (st_net st)\<lparr>net_dials := ds\<rparr>\<rparr>)
             | (Inr websocket, _, ds) \<Rightarrow>
                 let c = \<lparr>bc_peer = peer, bc_transport = Controller websocket, bc_next_request_id = 1\<rparr> in
                 (case setup_connection sd (st_transport st) host (c, (st_net st)\<lparr>net_dials := ds\<rparr>) of
                    (Inl e, _, net) \<Rightarrow> (ErrorMsg e False, st\<lparr>st_net := net\<rparr>)
                  | (Inr _, c, net) \<Rightarrow> (Connected peer, st\<lparr>st_bridge := Some c, st_net := net\<rparr>))))"

definition handle_request :: "serde \<Rightarrow> ClientMessage \<Rightarrow> AppState \<Rightarrow> ServerMessage \<times> AppState" where
  "handle_request sd request st = (case request of
       CmConnect host port \<Rightarrow> connect sd host port st
     | _ \<Rightarrow>
         (case st_bridge st of
            None \<Rightarrow> (ErrorMsg ''Connect to the MCU before sending servo commands'' False, st)
          | Some c \<Rightarrow>
              (case servo_request sd request c of
                 (Inr response, c) \<Rightarrow> (response, st\<lparr>st_bridge := Some c\<rparr>)
               | (Inl error, c) \<Rightarrow>
                   let bridge_connected = connection_is_usable_after error in
                   (ErrorMsg error bridge_connected,
                    st\<lparr>st_bridge := if bridge_connected then Some c else None\<rparr>))))"

text \<open>The session of one browser: what its WebSocket delivers, whether each answer could be sent, and the
  texts that were sent. A response that cannot be serialized is skipped.\<close>

datatype browser_event =
    BrText string
  | BrClose
  | BrPing
  | BrPong
  | BrBinary
  | BrFailed

fun client_session ::
  "serde \<Rightarrow> (string \<Rightarrow> string + ClientMessage) \<Rightarrow> browser_event list \<Rightarrow> bool list \<Rightarrow> AppState \<Rightarrow> string list \<times> AppState" where
  "client_session sd from_str [] oks st = ([], st)"
| "client_session sd from_str (e # es) oks st =
     (let reply = (\<lambda>(response, st).
        case sd_to_string sd (server_message_json response) of
          Inl _ \<Rightarrow> client_session sd from_str es oks st
        | Inr msg \<Rightarrow>
            (case oks of
               False # _ \<Rightarrow> ([], st)
             | _ \<Rightarrow> (case client_session sd from_str es (tl oks) st of (out, st') \<Rightarrow> (msg # out, st'))))
      in case e of
        BrText msg \<Rightarrow>
          (case from_str msg of
             Inr request \<Rightarrow> reply (handle_request sd request st)
           | Inl error \<Rightarrow> reply (ErrorMsg (''Invalid control request: '' @ error) False, st))
      | BrClose \<Rightarrow> ([], st)
      | BrPing \<Rightarrow> client_session sd from_str es oks st
      | BrPong \<Rightarrow> client_session sd from_str es oks st
      | BrBinary \<Rightarrow> reply (ErrorMsg ''Binary WebSocket messages are not supported'' False, st)
      | BrFailed \<Rightarrow> ([], st))"

section \<open>Which failures break the connection\<close>

lemma usable_after_iff:
  "connection_is_usable_after e \<longleftrightarrow> (\<forall>p \<in> set BROKEN_CONNECTION_PREFIXES. \<not> starts_with e p)"
  by (simp add: connection_is_usable_after_def list_ex_iff)

lemma starts_with_self [simp]: "starts_with (p @ s) p"
  by (simp add: starts_with_def)

lemma answered_errors_usable:
  "response_outcome response = Inl e \<Longrightarrow> connection_is_usable_after e"
  by (auto simp: response_outcome_def usable_after_iff BROKEN_CONNECTION_PREFIXES_def split: option.splits)

definition answered_with :: "serde \<Rightarrow> u32 \<Rightarrow> ws_stream \<Rightarrow> string \<Rightarrow> bool" where
  "answered_with sd rid s e \<longleftrightarrow>
     (\<exists>t m response. (t, m) \<in> set (ws_in s) \<and> answers sd rid m response \<and> response_outcome response = Inl e)"

lemma answered_with_mono: "answered_with sd rid s' e \<Longrightarrow> set (ws_in s') \<subseteq> set (ws_in s) \<Longrightarrow> answered_with sd rid s e"
  unfolding answered_with_def by blast

lemma broken_texts [simp]:
  "\<not> connection_is_usable_after ''MCU sent too many stale JSON-RPC responses''"
  "\<not> connection_is_usable_after ''Timed out waiting for an MCU JSON-RPC response''"
  "\<not> connection_is_usable_after ''MCU closed the JSON-RPC WebSocket''"
  "\<not> connection_is_usable_after ''MCU sent a JSON-RPC response with an unsupported version''"
  "\<not> connection_is_usable_after ''MCU sent an unsupported WebSocket message''"
  "\<not> connection_is_usable_after ''Timed out sending a JSON-RPC command to the MCU''"
  by (auto simp: usable_after_iff BROKEN_CONNECTION_PREFIXES_def)

lemma broken_texts_with_cause [simp]:
  "\<not> connection_is_usable_after (''Could not read an MCU JSON-RPC response: '' @ e)"
  "\<not> connection_is_usable_after (''MCU sent invalid JSON-RPC: '' @ e)"
  "\<not> connection_is_usable_after (''Could not answer MCU WebSocket ping: '' @ e)"
  "\<not> connection_is_usable_after (''Could not send a JSON-RPC command to the MCU: '' @ e)"
  by (auto simp: usable_after_iff BROKEN_CONNECTION_PREFIXES_def)

lemma answer_ping_error: "answer_ping payload s = (Inl e, s') \<Longrightarrow> \<not> connection_is_usable_after e"
  by (auto simp: answer_ping_def simp del: append_Cons split: list.splits tcp_outcome.splits)

lemma send_command_error: "send_command msg s = (Inl e, s') \<Longrightarrow> \<not> connection_is_usable_after e"
  by (auto simp: send_command_def simp del: append_Cons split: list.splits tcp_outcome.splits)

lemma response_loop_broken:
  assumes "response_loop sd rid d (Suc n) s = (Inl e, s')"
    and "\<And>t m rest. ws_in s = (t, m) # rest \<Longrightarrow> t \<le> d \<Longrightarrow>
      \<not> passed_over sd rid d (t, m) \<and> (\<forall>response. \<not> answers sd rid m response)"
  shows "\<not> connection_is_usable_after e"
proof (cases "ws_next d s")
  case (Pair r s1)
  show ?thesis
  proof (cases r)
    case (Some m)
    with Pair obtain t rest where "ws_in s = (t, m) # rest" "t \<le> d" by (auto elim: ws_next_someD)
    with assms Pair Some show ?thesis
      by (cases m) (auto simp: passed_over_def answers_def simp del: append_Cons split: sum.splits if_splits)
  qed (use assms(1) Pair in auto)
qed

lemma response_loop_errD:
  assumes "response_loop sd rid d n s = (Inl e, s')" "connection_is_usable_after e"
  shows "answered_with sd rid s e"
  using assms(1)
proof (induction n arbitrary: s)
  case (Suc n)
  obtain t m rest where m: "ws_in s = (t, m) # rest" "t \<le> d"
    and or: "passed_over sd rid d (t, m) \<or> (\<exists>response. answers sd rid m response)"
    using response_loop_broken [OF Suc.prems] assms(2) by blast
  show ?case
  proof (cases "passed_over sd rid d (t, m)")
    case True
    with m(1) show ?thesis
    proof (cases rule: response_loop_passes [where n = n])
      case (next_round s1)
      with Suc have "answered_with sd rid s1 e" by simp
      then show ?thesis by (rule answered_with_mono) (use next_round m in auto)
    next
      case (unanswered e' s1)
      with Suc.prems answer_ping_error assms(2) show ?thesis by auto
    qed
  next
    case False
    with or obtain response where "answers sd rid m response" by blast
    with response_loop_answers [OF m this, of n] Suc.prems m show ?thesis by (auto simp: answered_with_def)
  qed
qed (use assms(2) in auto)

section \<open>What every operation keeps and returns\<close>

definition keeps_mode :: "'a bridge_action \<Rightarrow> bool" where
  "keeps_mode act \<longleftrightarrow> (\<forall>c. is_controller (snd (act c)) = is_controller c \<and> bc_peer (snd (act c)) = bc_peer c)"

definition returns :: "('a \<Rightarrow> bool) \<Rightarrow> ('s, 'e, 'a) action \<Rightarrow> bool" where
  "returns P act \<longleftrightarrow> (\<forall>s a s'. act s = (Inr a, s') \<longrightarrow> P a)"

named_theorems composed \<open>how the contracts of actions compose\<close>

lemma keeps_mode_basic [composed]:
  "keeps_mode (return_ok a)" "keeps_mode (return_err e)" "keeps_mode (from_result r)"
  "keeps_mode (\<lambda>c. (r, c))"
  by (simp_all add: keeps_mode_def return_ok_def return_err_def from_result_def)

lemma keeps_mode_try_then [composed]:
  assumes "keeps_mode m" "\<And>a. keeps_mode (k a)"
  shows "keeps_mode (try_then m k)"
  unfolding keeps_mode_def
proof
  fix c
  show "is_controller (snd (try_then m k c)) = is_controller c \<and> bc_peer (snd (try_then m k c)) = bc_peer c"
    using assms unfolding keeps_mode_def
    by (cases rule: try_then_cases [of m c k]) (metis snd_conv)+
qed

lemma keeps_mode_if [composed]:
  "keeps_mode m \<Longrightarrow> keeps_mode n \<Longrightarrow> keeps_mode (if b then m else n)"
  "keeps_mode m \<Longrightarrow> keeps_mode n \<Longrightarrow> keeps_mode (\<lambda>c. if P c then m c else n c)"
  by (simp_all add: keeps_mode_def)

lemma keeps_mode_controller_request [composed]:
  "keeps_mode (controller_request_with_timeout sd method params d)" "keeps_mode (controller_request sd method params)"
proof -
  show req: "keeps_mode (controller_request_with_timeout sd method params d)" for d
    unfolding keeps_mode_def
  proof
    fix c
    show "is_controller (snd (controller_request_with_timeout sd method params d c)) = is_controller c \<and>
        bc_peer (snd (controller_request_with_timeout sd method params d c)) = bc_peer c"
      by (cases rule: controller_request_cases [of sd "method" params d c])
         (auto simp: is_controller_def ws_of_def split: BridgeTransport.splits)
  qed
  show "keeps_mode (controller_request sd method params)" unfolding controller_request_def by (rule req)
qed

lemma keeps_mode_raw_stream [composed]: "keeps_mode (raw_stream_mut act)"
  by (simp add: keeps_mode_def raw_stream_mut_def is_controller_def split: BridgeTransport.splits prod.splits)

lemma keeps_mode_write_packet [composed]: "keeps_mode (write_packet sid ins ps)"
  by (auto simp: write_packet_def Let_def intro!: composed split: option.splits)

lemma keeps_mode_registers [composed]:
  "keeps_mode (host_write_register sid address data)" "keeps_mode (host_read_register sid address len)"
  by (auto simp: host_write_register_def host_read_register_def read_status_def intro!: composed)

lemma keeps_mode_raw [composed]:
  "keeps_mode (raw_start_motor sid speed acc dir)" "keeps_mode (raw_stop_motor sid)"
  "keeps_mode (raw_move_position sid pos acc torque)" "keeps_mode (raw_read_position sid)"
  by (auto simp: raw_start_motor_def raw_stop_motor_def raw_move_position_def raw_read_position_def Let_def intro!: composed)

lemma keeps_mode_accepted [composed]: "keeps_mode (accepted_request sd method params action)"
  unfolding accepted_request_def by (intro composed)

lemma keeps_mode_read_position [composed]: "keeps_mode (host_read_position sd sid)"
  unfolding host_read_position_def by (intro composed)

lemma keeps_mode_read_positions_loop [composed]: "keeps_mode (host_read_positions_loop sd ids positions errors)"
proof (induction ids arbitrary: positions errors)
  case (Cons sid ids)
  show ?case
    unfolding keeps_mode_def
  proof
    fix c
    obtain r c1 where read: "host_read_position sd sid c = (r, c1)" by fastforce
    have "is_controller c1 = is_controller c" "bc_peer c1 = bc_peer c"
      using keeps_mode_read_position [of sd sid] read unfolding keeps_mode_def by (metis snd_conv)+
    with Cons read show "is_controller (snd (host_read_positions_loop sd (sid # ids) positions errors c)) = is_controller c \<and>
        bc_peer (snd (host_read_positions_loop sd (sid # ids) positions errors c)) = bc_peer c"
      by (cases r) (simp_all add: keeps_mode_def)
  qed
qed (simp add: keeps_mode_def)

lemma keeps_mode_servo_request: "keeps_mode (servo_request sd request)"
  by (cases request)
     (auto simp: servo_request_def host_start_motor_def host_stop_motor_def host_move_position_def
       host_read_positions_def host_scan_servos_def intro!: composed)

text \<open>The reply a request asks for.\<close>

fun reply_fits :: "ClientMessage \<Rightarrow> ServerMessage \<Rightarrow> bool" where
  "reply_fits (CmConnect _ _) reply = False"
| "reply_fits (CmStartMotor _ _ _ _) reply = (reply = Complete ''motor_started'')"
| "reply_fits (CmStopMotor _) reply = (reply = Complete ''motor_stopped'')"
| "reply_fits (CmMovePosition _ _ _ _) reply = (reply = Complete ''position_commanded'')"
| "reply_fits (CmReadPosition sid) reply = (case reply of PositionMsg i _ \<Rightarrow> i = sid | _ \<Rightarrow> False)"
| "reply_fits (CmReadPositions ids) reply = (case reply of
       PositionsMsg ps es \<Rightarrow> length ids \<le> 6 \<and> subseq (map hp_id ps) ids \<and> length ps + length es = length ids
     | _ \<Rightarrow> False)"
| "reply_fits (CmScanServos lo hi) reply = (case reply of
       ServoScan a b ids \<Rightarrow> a = lo \<and> b = hi \<and> 1 \<le> lo \<and> lo \<le> hi \<and> hi \<le> 253 \<and> list_all (\<lambda>i. lo \<le> i \<and> i \<le> hi) ids
     | _ \<Rightarrow> False)"

lemma returnsI: "(\<And>s a s'. act s = (Inr a, s') \<Longrightarrow> P a) \<Longrightarrow> returns P act"
  by (simp add: returns_def)

lemma returnsD: "returns P act \<Longrightarrow> act s = (Inr a, s') \<Longrightarrow> P a"
  unfolding returns_def by blast

lemma returns_basic [composed]:
  "P a \<Longrightarrow> returns P (return_ok a)" "returns P (return_err e)" "returns P (\<lambda>c. (Inl e, c))"
  by (simp_all add: returns_def return_ok_def return_err_def)

lemma returns_from_result [composed]: "(\<And>a. r = Inr a \<Longrightarrow> P a) \<Longrightarrow> returns P (from_result r)"
  by (simp add: returns_def from_result_def)

lemma returns_try_then [composed]: "(\<And>a. returns P (k a)) \<Longrightarrow> returns P (try_then m k)"
  unfolding returns_def
  by (intro allI impI) (metis Inl_Inr_False fst_conv try_then_cases)

lemma returns_if [composed]:
  "(b \<Longrightarrow> returns P m) \<Longrightarrow> (\<not> b \<Longrightarrow> returns P n) \<Longrightarrow> returns P (if b then m else n)"
  "returns P m \<Longrightarrow> returns P n \<Longrightarrow> returns P (\<lambda>c. if Q c then m c else n c)"
  by (auto simp: returns_def)

lemma returns_accepted [composed]: "P (Complete action) \<Longrightarrow> returns P (accepted_request sd method params action)"
  by (auto simp: accepted_request_def intro!: composed)

lemma returns_raw [composed]:
  "P (Complete ''motor_started'') \<Longrightarrow> returns P (raw_start_motor sid speed acc dir)"
  "P (Complete ''motor_stopped'') \<Longrightarrow> returns P (raw_stop_motor sid)"
  "P (Complete ''position_commanded'') \<Longrightarrow> returns P (raw_move_position sid pos acc torque)"
  by (auto simp: raw_start_motor_def raw_stop_motor_def raw_move_position_def Let_def intro!: composed)

lemma read_positions_loop_returns:
  assumes "host_read_positions_loop sd ids positions errors c = (Inr reply, c')"
  shows "\<exists>ps es. reply = PositionsMsg (positions @ ps) (errors @ es) \<and> subseq (map hp_id ps) ids \<and>
    length ps + length es = length ids"
  using assms
proof (induction ids arbitrary: positions errors c)
  case (Cons sid ids)
  obtain r c1 where read: "host_read_position sd sid c = (r, c1)" by fastforce
  show ?case
  proof (cases r)
    case (Inr position)
    with Cons.prems read Cons.IH obtain ps es where
      "reply = PositionsMsg (positions @ \<lparr>hp_id = sid, hp_position = position\<rparr> # ps) (errors @ es)"
      "subseq (map hp_id ps) ids" "length ps + length es = length ids"
      by fastforce
    then show ?thesis by (intro exI [of _ "\<lparr>hp_id = sid, hp_position = position\<rparr> # ps"] exI [of _ es]) simp
  next
    case (Inl error)
    with Cons.prems read have
      "host_read_positions_loop sd ids positions (errors @ [''Servo '' @ decimal (unat sid) @ '': '' @ error]) c1 = (Inr reply, c')"
      by (auto split: if_splits)
    from Cons.IH [OF this] obtain ps es where
      "reply = PositionsMsg (positions @ ps) (errors @ (''Servo '' @ decimal (unat sid) @ '': '' @ error) # es)"
      "subseq (map hp_id ps) ids" "length ps + length es = length ids"
      by fastforce
    then show ?thesis
      by (intro exI [of _ ps] exI [of _ "(''Servo '' @ decimal (unat sid) @ '': '' @ error) # es"]) auto
  qed
qed simp

lemma scan_range_words:
  "validate_scan_range lo hi = Inr u \<Longrightarrow> 1 \<le> lo \<and> lo \<le> hi \<and> hi \<le> 253"
  by (auto simp: validate_scan_range_def not_less word_le_nat_alt Suc_le_eq unat_gt_0 split: if_splits)

lemma servo_request_reply:
  assumes "servo_request sd request c = (Inr reply, c')"
  shows "reply_fits request reply"
proof -
  have "returns (reply_fits request) (servo_request sd request)"
  proof (cases request)
    case (CmReadPositions ids)
    show ?thesis
      using read_positions_loop_returns [of sd ids "[]" "[]"]
      by (intro returnsI)
         (fastforce simp: CmReadPositions servo_request_def host_read_positions_def return_err_def split: if_splits)
  next
    case (CmScanServos lo hi)
    show ?thesis
      unfolding servo_request_def CmScanServos
      by (auto simp: host_scan_servos_def from_result_def try_then_def checked_scan_def list_all_iff find_None_iff not_less
          dest!: scan_range_words intro!: returnsI split: sum.splits prod.splits if_splits option.splits)
  qed (auto simp: servo_request_def host_start_motor_def host_stop_motor_def host_move_position_def
      intro!: composed)
  with assms show ?thesis by (rule returnsD [rotated])
qed

section \<open>Connecting\<close>

lemma keeps_mode_ping [composed]: "keeps_mode (ping_controller sd)"
  unfolding ping_controller_def by (intro composed)

lemma keeps_modeD: "keeps_mode act \<Longrightarrow> act c = (r, c') \<Longrightarrow> is_controller c' = is_controller c \<and> bc_peer c' = bc_peer c"
  unfolding keeps_mode_def by (metis snd_conv)

lemma reuse_bridge_mode:
  assumes "reuse_bridge sd peer bridge = Some c'"
  obtains c where "bridge = Some c" "bc_peer c = peer" "bc_peer c' = peer" "is_controller c' = is_controller c"
proof -
  from assms obtain c where c: "bridge = Some c" "bc_peer c = peer"
    by (auto simp: reuse_bridge_def split: option.splits if_splits)
  show ?thesis
  proof (cases "is_controller c")
    case True
    with assms c obtain u where "ping_controller sd c = (Inr u, c')"
      by (auto simp: reuse_bridge_def split: prod.splits sum.splits)
    from keeps_modeD [OF keeps_mode_ping this] c that show ?thesis by auto
  qed (use assms c that in \<open>auto simp: reuse_bridge_def\<close>)
qed

lemma open_raw_tunnel_peer:
  assumes "open_raw_tunnel sd host (c, net) = (r, (c', net'))"
  shows "bc_peer c' = bc_peer c"
proof -
  obtain r1 c1 where req: "controller_request sd ''debug.enableRawTunnel'' (JObj []) c = (r1, c1)" by fastforce
  have "bc_peer c1 = bc_peer c" using keeps_modeD [OF keeps_mode_controller_request(2) req] by simp
  with assms req show ?thesis
    by (auto simp: open_raw_tunnel_def split: prod.splits sum.splits option.splits if_splits)
qed

lemma setup_connection_mode:
  assumes "setup_connection sd mode host (c, net) = (Inr u, (c', net'))" "is_controller c"
  shows "(is_controller c' \<longleftrightarrow> mode = ControllerMode) \<and> bc_peer c' = bc_peer c"
proof (cases mode)
  case ControllerMode
  with assms obtain r where "ping_controller sd c = (r, c')" by (auto simp: setup_connection_def split: prod.splits)
  from keeps_modeD [OF keeps_mode_ping this] assms(2) ControllerMode show ?thesis by simp
next
  case DebugRawTunnel
  with assms have tunnel: "open_raw_tunnel sd host (c, net) = (Inr u, (c', net'))" by (simp add: setup_connection_def)
  from open_raw_tunnel_transport [OF this] open_raw_tunnel_peer [OF this] DebugRawTunnel show ?thesis by simp
qed

text \<open>How a connect ends.\<close>

lemma connect_cases:
  assumes "connect sd host port st = (reply, st')"
  obtains (rejected) msg where "trim_string host = [] \<or> port = 0" "reply = ErrorMsg msg False" "st' = st"
  | (failed) msg where "reply = ErrorMsg msg False" "st_bridge st' = None" "st_transport st' = st_transport st"
      "trim_string host \<noteq> []" "port \<noteq> 0"
  | (reused) c c' where "reply = Connected (bc_peer c')" "st_bridge st = Some c" "st_bridge st' = Some c'"
      "is_controller c' = is_controller c" "st_transport st' = st_transport st"
      "bc_peer c' = trim_string host @ '':'' @ decimal (unat port)" "trim_string host \<noteq> []" "port \<noteq> 0"
  | (opened) c' where "reply = Connected (bc_peer c')" "st_bridge st' = Some c'"
      "is_controller c' \<longleftrightarrow> st_transport st = ControllerMode" "st_transport st' = st_transport st"
      "bc_peer c' = trim_string host @ '':'' @ decimal (unat port)" "trim_string host \<noteq> []" "port \<noteq> 0"
proof (cases "trim_string host = [] \<or> port = 0")
  case True
  with assms rejected show ?thesis by (auto simp: connect_def Let_def split: if_splits)
next
  case False
  let ?peer = "trim_string host @ '':'' @ decimal (unat port)"
  show ?thesis
  proof (cases "reuse_bridge sd ?peer (st_bridge st)")
    case (Some c')
    then obtain c where "st_bridge st = Some c" "bc_peer c' = ?peer" "is_controller c' = is_controller c"
      by (rule reuse_bridge_mode) blast
    with assms False Some show ?thesis by (intro reused [of c' c]) (auto simp: connect_def Let_def)
  next
    case None
    obtain r ms ds where dial: "connect_controller ?peer (net_dials (st_net st)) = (r, ms, ds)" by (metis prod_cases3)
    show ?thesis
    proof (cases r)
      case (Inl e)
      with assms False None dial show ?thesis by (intro failed [of e]) (auto simp: connect_def Let_def)
    next
      case (Inr websocket)
      let ?c = "\<lparr>bc_peer = ?peer, bc_transport = Controller websocket, bc_next_request_id = 1\<rparr>"
      obtain r2 c' net' where su: "setup_connection sd (st_transport st) (trim_string host)
          (?c, (st_net st)\<lparr>net_dials := ds\<rparr>) = (r2, (c', net'))" by (metis prod_cases3)
      show ?thesis
      proof (cases r2)
        case (Inl e)
        with assms False None dial Inr su show ?thesis by (intro failed [of e]) (auto simp: connect_def Let_def)
      next
        case r2: (Inr u)
        from setup_connection_mode [OF su [unfolded r2]] have
          "is_controller c' \<longleftrightarrow> st_transport st = ControllerMode" "bc_peer c' = ?peer"
          by (simp_all add: is_controller_def)
        with assms False None dial Inr su r2 show ?thesis
          by (intro opened [of c']) (auto simp: connect_def Let_def)
      qed
    qed
  qed
qed

section \<open>The bridge as a state machine\<close>

text \<open>The service starts without a bridge; each request finds the network in any state.\<close>

definition app_start :: "AppState \<Rightarrow> bool" where
  "app_start st \<longleftrightarrow> st_bridge st = None"

definition app_trans :: "serde \<Rightarrow> AppState \<Rightarrow> ClientMessage \<Rightarrow> AppState \<Rightarrow> bool" where
  "app_trans sd st request st' \<longleftrightarrow> (\<exists>net reply. handle_request sd request (st\<lparr>st_net := net\<rparr>) = (reply, st'))"

definition bridge_inv :: "AppState \<Rightarrow> bool" where
  "bridge_inv st \<longleftrightarrow> (case st_bridge st of None \<Rightarrow> True | Some c \<Rightarrow> is_controller c \<longleftrightarrow> st_transport st = ControllerMode)"

lemma servo_step:
  assumes "handle_request sd request st = (reply, st')" "\<And>host port. request \<noteq> CmConnect host port"
  obtains (no_bridge) "st_bridge st = None" "reply = ErrorMsg ''Connect to the MCU before sending servo commands'' False" "st' = st"
  | (ok) c c' where "st_bridge st = Some c" "servo_request sd request c = (Inr reply, c')" "st' = st\<lparr>st_bridge := Some c'\<rparr>"
  | (kept) c c' e where "st_bridge st = Some c" "servo_request sd request c = (Inl e, c')" "connection_is_usable_after e"
      "reply = ErrorMsg e True" "st' = st\<lparr>st_bridge := Some c'\<rparr>"
  | (dropped) c c' e where "st_bridge st = Some c" "servo_request sd request c = (Inl e, c')" "\<not> connection_is_usable_after e"
      "reply = ErrorMsg e False" "st' = st\<lparr>st_bridge := None\<rparr>"
proof -
  have "handle_request sd request st = (case st_bridge st of
      None \<Rightarrow> (ErrorMsg ''Connect to the MCU before sending servo commands'' False, st)
    | Some c \<Rightarrow> (case servo_request sd request c of
        (Inr response, c) \<Rightarrow> (response, st\<lparr>st_bridge := Some c\<rparr>)
      | (Inl error, c) \<Rightarrow> let bridge_connected = connection_is_usable_after error in
          (ErrorMsg error bridge_connected, st\<lparr>st_bridge := if bridge_connected then Some c else None\<rparr>)))"
    using assms(2) by (cases request) (auto simp: handle_request_def)
  with assms(1) that show ?thesis
    by (auto simp: Let_def split: option.splits prod.splits sum.splits if_splits)
qed

lemma bridge_inv_step:
  assumes "bridge_inv st" "app_trans sd st request st'"
  shows "bridge_inv st'"
proof -
  obtain net reply where step: "handle_request sd request (st\<lparr>st_net := net\<rparr>) = (reply, st')"
    using assms(2) by (auto simp: app_trans_def)
  show ?thesis
  proof (cases "\<exists>host port. request = CmConnect host port")
    case True
    then obtain host port where "connect sd host port (st\<lparr>st_net := net\<rparr>) = (reply, st')"
      using step by (auto simp: handle_request_def)
    then show ?thesis
      by (cases rule: connect_cases) (use assms(1) in \<open>auto simp: bridge_inv_def split: option.splits\<close>)
  next
    case False
    have mode: "is_controller c' = is_controller c" if "servo_request sd request c = (r, c')" for r c c'
      using keeps_modeD [OF keeps_mode_servo_request that] by simp
    have "request \<noteq> CmConnect host port" for host port using False by blast
    with step show ?thesis
      by (cases rule: servo_step) (use assms(1) mode in \<open>auto simp: bridge_inv_def\<close>)
  qed
qed

interpretation app: invariant_system app_start "app_trans sd" bridge_inv for sd
  by unfold_locales (use bridge_inv_step in \<open>auto simp: app_start_def bridge_inv_def\<close>)

section \<open>Properties\<close>

fun out_of_range :: "ClientMessage \<Rightarrow> bool" where
  "out_of_range (CmConnect _ _) = False"
| "out_of_range (CmStartMotor sid speed _ _) = (sid \<notin> {1..253} \<or> 4095 < speed)"
| "out_of_range (CmStopMotor sid) = (sid \<notin> {1..253})"
| "out_of_range (CmMovePosition sid position _ torque_limit) = (sid \<notin> {1..253} \<or> 4095 < position \<or> 1000 < torque_limit)"
| "out_of_range (CmReadPosition sid) = (sid \<notin> {1..253})"
| "out_of_range (CmReadPositions ids) = (6 < length ids)"
| "out_of_range (CmScanServos lo hi) = (lo = 0 \<or> hi < lo \<or> 253 < hi)"

lemma unicast_range: "host_is_unicast_servo_id sid \<longleftrightarrow> sid \<in> {1..253}"
  by (auto simp: host_is_unicast_servo_id_def word_le_nat_alt Suc_le_eq unat_gt_0)

text \<open>A servo command for a state with a bridge, for the examples.\<close>

definition sample_state :: AppState where
  "sample_state = \<lparr>st_bridge = Some sample_connection, st_transport = ControllerMode,
     st_net = \<lparr>net_dials = [(3, DialOpened sample_ws)], net_raw_dials = []\<rparr>\<rparr>"

text \<open>A service that finds a controller answering its ping.\<close>

definition fresh_state :: AppState where
  "fresh_state = \<lparr>st_bridge = None, st_transport = ControllerMode,
     st_net = \<lparr>net_dials = [(900, UpgradeElapsed), (3, DialOpened
         \<lparr>ws_in = [(4, WsText (ready_response 1))], ws_outcomes = [], ws_out = [], ws_waited = 0\<rparr>)],
       net_raw_dials = []\<rparr>\<rparr>"

lemma fresh_connects:
  "map_option (\<lambda>c. (is_controller c, bc_peer c))
     (st_bridge (snd (handle_request reference_serde (CmConnect '' mcu '' 3333) fresh_state))) = Some (True, ''mcu:3333'')"
  by code_simp

lemma trims: "trim_string '' '' = []" "trim_string '' mcu '' = ''mcu''"
  by code_simp+

text \<open>C6. The browser is told the truth about the bridge after every servo request, and a successful reply has
  the form the request asks for: either the reply is an error whose connection flag says whether the
  bridge is still there, and it is there exactly if the error is not one of the broken-connection
  errors; or the bridge is kept and the reply is the one for that request (a position of the requested
  servo; positions and errors that together cover the requested servos in order; found servos inside
  the requested range).\<close>
theorem servo_request_outcome:
  assumes "handle_request sd request st = (reply, st')" "\<And>host port. request \<noteq> CmConnect host port"
    and "st_bridge st \<noteq> None"
  shows "(\<exists>msg. reply = ErrorMsg msg (st_bridge st' \<noteq> None) \<and> (st_bridge st' \<noteq> None \<longleftrightarrow> connection_is_usable_after msg)) \<or>
    reply_fits request reply \<and> st_bridge st' \<noteq> None"
  using assms(1,2)
proof (cases rule: servo_step)
  case (ok c c')
  then show ?thesis using servo_request_reply [OF ok(2)] by simp
qed (use assms(3) in auto)

theorem servo_request_outcome_witness:
  "\<exists>reply st'. handle_request reference_serde (CmScanServos 9 3) sample_state = (reply, st') \<and>
     reply = ErrorMsg ''Servo search IDs must be between 1 and 253, with a start no greater than the end'' True \<and>
     st_bridge st' \<noteq> None"
proof -
  obtain reply st' where h: "handle_request reference_serde (CmScanServos 9 3) sample_state = (reply, st')" by fastforce
  then have "reply = ErrorMsg ''Servo search IDs must be between 1 and 253, with a start no greater than the end'' True"
    by (auto simp: handle_request_def sample_state_def servo_request_def host_scan_servos_def validate_scan_range_def
        try_then_def from_result_def connection_is_usable_after_def BROKEN_CONNECTION_PREFIXES_def Let_def)
  with servo_request_outcome [OF h] h show ?thesis by (simp add: sample_state_def)
qed

text \<open>A request that is out of range never reaches the MCU: a servo id outside 1 to 253, a speed or position
  above 4095, a torque limit above 1000, more than six positions at once or an empty or illegal search
  range is answered with an error, the bridge stays connected and the connection is not touched.\<close>
theorem out_of_range_not_sent:
  assumes "out_of_range request" "st_bridge st \<noteq> None"
  shows "\<exists>msg. handle_request sd request st = (ErrorMsg msg True, st)"
proof -
  obtain c where c: "st_bridge st = Some c" using assms(2) by blast
  have id: "st\<lparr>st_bridge := Some c\<rparr> = st" using c by simp
  have "\<exists>msg. servo_request sd request c = (Inl msg, c) \<and> connection_is_usable_after msg"
    using assms(1) unicast_range
    by (cases request)
       (auto simp: servo_request_def host_start_motor_def host_stop_motor_def host_move_position_def host_read_position_def
         host_read_positions_def host_scan_servos_def validate_id_def validate_scan_range_def try_then_def from_result_def
         return_err_def connection_is_usable_after_def BROKEN_CONNECTION_PREFIXES_def)
  then obtain msg where "servo_request sd request c = (Inl msg, c)" "connection_is_usable_after msg" by blast
  with assms(1) c id show ?thesis by (cases request) (auto simp: handle_request_def)
qed

theorem out_of_range_not_sent_witness:
  "\<exists>msg. handle_request reference_serde (CmStopMotor 254) sample_state = (ErrorMsg msg True, sample_state)"
  by (rule out_of_range_not_sent) (simp_all add: sample_state_def)

text \<open>C22. A failed command costs the connection exactly when the MCU did not answer it: on a controller connection
  with an encodable request, the error is one after which the bridge is kept if and only if the MCU
  sent a well-formed response to this very request, and the error is what that response says.\<close>
theorem kept_iff_answered:
  assumes "controller_request_with_timeout sd method params d c = (Inl e, c')" "ws_of c = Some s"
    and "sd_to_string sd (request_json (bc_next_request_id c) method params) = Inr request"
  shows "connection_is_usable_after e \<longleftrightarrow> answered_with sd (bc_next_request_id c) s e"
proof
  assume "answered_with sd (bc_next_request_id c) s e"
  then show "connection_is_usable_after e" using answered_errors_usable by (auto simp: answered_with_def)
next
  assume usable: "connection_is_usable_after e"
  obtain r s' where run: "try_then (send_command request)
      (\<lambda>_. response_loop sd (bc_next_request_id c) d MAX_STALE_CONTROLLER_RESPONSES) s = (r, s')" by fastforce
  have "bc_transport c = Controller s" using assms(2) by (simp add: ws_of_def split: BridgeTransport.splits)
  with assms(1,3) run have r: "r = Inl e" by (simp add: controller_request_with_timeout_def Let_def)
  show "answered_with sd (bc_next_request_id c) s e"
  proof (cases rule: try_then_cases [of "send_command request" s
        "\<lambda>_. response_loop sd (bc_next_request_id c) d MAX_STALE_CONTROLLER_RESPONSES"])
    case (err e' s1)
    with run r usable send_command_error show ?thesis by auto
  next
    case (ok u s1)
    with run r have "response_loop sd (bc_next_request_id c) d MAX_STALE_CONTROLLER_RESPONSES s1 = (Inl e, s')" by simp
    from response_loop_errD [OF this usable] show ?thesis
      by (rule answered_with_mono) (simp add: send_command_effect(1) [OF ok(1)])
  qed
qed

theorem kept_iff_answered_witness:
  "\<exists>e c'. controller_request_with_timeout reference_serde ''motor.stop'' (id_params 1) 750 (sample_connection\<lparr>bc_next_request_id := 9\<rparr>) =
     (Inl e, c') \<and> \<not> connection_is_usable_after e \<and> \<not> answered_with reference_serde 9 sample_ws e"
proof -
  let ?c = "sample_connection\<lparr>bc_next_request_id := 9\<rparr>"
  have "fst (controller_request_with_timeout reference_serde ''motor.stop'' (id_params 1) 750 ?c) =
      Inl ''MCU closed the JSON-RPC WebSocket''" by code_simp
  then obtain c' where c': "controller_request_with_timeout reference_serde ''motor.stop'' (id_params 1) 750 ?c =
      (Inl ''MCU closed the JSON-RPC WebSocket'', c')" by (metis prod.collapse)
  from kept_iff_answered [OF c', of sample_ws] c' show ?thesis
    by (simp add: ws_of_def sample_connection_def reference_to_string)
qed

text \<open>The mode of the bridge is the mode of the service: in every state that a sequence of requests can reach,
  whatever the network does, a bridge is a JSON-RPC connection in controller mode and a raw tunnel in
  debug mode, so no request is ever sent over the wrong kind of connection.\<close>
theorem bridge_mode_matches:
  assumes "reachable app_start (app_trans sd) st" "st_bridge st = Some c"
  shows "is_controller c \<longleftrightarrow> st_transport st = ControllerMode"
  using app.inv_reachable [OF assms(1)] assms(2) by (simp add: bridge_inv_def)

theorem bridge_mode_matches_witness:
  "\<exists>st c. reachable app_start (app_trans reference_serde) st \<and> st_bridge st = Some c \<and>
     (is_controller c \<longleftrightarrow> st_transport st = ControllerMode) \<and> bc_peer c = ''mcu:3333''"
proof -
  let ?st = "snd (handle_request reference_serde (CmConnect '' mcu '' 3333) fresh_state)"
  obtain c where c: "st_bridge ?st = Some c" "bc_peer c = ''mcu:3333''" using fresh_connects by auto
  have "reachable app_start (app_trans reference_serde) fresh_state"
    by (rule reachable_start) (simp add: app_start_def fresh_state_def)
  moreover have "app_trans reference_serde fresh_state (CmConnect '' mcu '' 3333) ?st"
    unfolding app_trans_def by (intro exI [of _ "st_net fresh_state"]) (simp add: prod_eq_iff)
  ultimately have "reachable app_start (app_trans reference_serde) ?st" by (rule reachable_step)
  with bridge_mode_matches [OF this c(1)] c show ?thesis by blast
qed

text \<open>A connect ends in a definite state: it reports the address exactly when a bridge to that address is
  connected afterwards; a host or port that is refused changes nothing, and any other failure leaves no
  bridge behind, the previous one included.\<close>
theorem connect_outcome:
  assumes "handle_request sd (CmConnect host port) st = (reply, st')"
  shows "if trim_string host = [] \<or> port = 0 then st' = st \<and> (\<exists>msg. reply = ErrorMsg msg False)
    else case st_bridge st' of
        Some c \<Rightarrow> reply = Connected (bc_peer c) \<and> bc_peer c = trim_string host @ '':'' @ decimal (unat port)
      | None \<Rightarrow> (\<exists>msg. reply = ErrorMsg msg False)"
proof -
  from assms have "connect sd host port st = (reply, st')" by (simp add: handle_request_def)
  then show ?thesis by (cases rule: connect_cases) (auto simp: connect_def)
qed

theorem connect_outcome_witness:
  "\<exists>st'. handle_request reference_serde (CmConnect '' mcu '' 3333) fresh_state = (Connected ''mcu:3333'', st')"
proof -
  obtain reply st' where h: "handle_request reference_serde (CmConnect '' mcu '' 3333) fresh_state = (reply, st')"
    by fastforce
  with fresh_connects obtain c where "st_bridge st' = Some c" "bc_peer c = ''mcu:3333''" by auto
  with connect_outcome [OF h] h show ?thesis by (simp add: trims)
qed

text \<open>A connect without a host name is refused and leaves the bridge.\<close>
lemma refused_connect_misreports:
  "\<exists>msg. handle_request sd (CmConnect '' '' 3333) sample_state = (ErrorMsg msg False, sample_state) \<and>
     st_bridge sample_state \<noteq> None"
  by (simp add: handle_request_def connect_def sample_state_def trims)

text \<open>Three refusals report the wrong thing about the bridge: with a bridge in place, a connect without a
  host name, a text that is no control request and a binary message are each answered with an error that
  says the bridge is not connected, although it still is and servo requests keep using it.\<close>
theorem bridge_state_misreported:
  "\<exists>a b c. handle_request reference_serde (CmConnect '' '' 3333) sample_state = (ErrorMsg a False, sample_state) \<and>
     client_session reference_serde (\<lambda>_. Inl e) [BrText msg] [] sample_state =
       ([render (server_message_json (ErrorMsg b False))], sample_state) \<and>
     client_session reference_serde from_str [BrBinary] [] sample_state =
       ([render (server_message_json (ErrorMsg c False))], sample_state) \<and>
     st_bridge sample_state \<noteq> None"
  using refused_connect_misreports [of reference_serde]
  by (auto simp: reference_serde_def simp del: server_message_json.simps render.simps)

end
