(* ===== verification/Host_Config.thy ===== *)
theory Host_Config
  imports Host_Service Std_Paths
begin

text \<open>
  The host's stored configuration (\<open>src/host/src/main.rs\<close>): defaults, validation, loading at
  start-up and replacing it from the browser, over a file system that can fail at every operation. The
  conversions of \<open>serde_json\<close> are parameters. Paths are strings with the rules of
  \<open>std::path\<close> for the operations used. The lemmas show that the configuration in use is always
  valid, that a stored configuration is read back at the next start, and that a failed update leaves the
  old file and the old configuration in place.
\<close>

section \<open>Configurations\<close>

record EndpointConfig =
  ep_host :: string
  ep_port :: u16

record MotorConfig =
  mo_id :: u8
  mo_enabled :: bool
  mo_speed_percent :: u8
  mo_acceleration :: u8

record JointConfig =
  jo_id :: u8
  jo_enabled :: bool
  jo_acceleration :: u8
  jo_torque_percent :: u8

record HostConfig =
  hc_endpoint :: EndpointConfig
  hc_motor :: MotorConfig
  hc_joints :: "JointConfig list"

definition default_config :: HostConfig where
  "default_config = \<lparr>
     hc_endpoint = \<lparr>ep_host = ''192.168.1.123'', ep_port = 3333\<rparr>,
     hc_motor = \<lparr>mo_id = 1, mo_enabled = True, mo_speed_percent = 25, mo_acceleration = 20\<rparr>,
     hc_joints = map (\<lambda>i. \<lparr>jo_id = i, jo_enabled = True, jo_acceleration = 20, jo_torque_percent = 100\<rparr>) [2, 3, 4, 5, 6, 7]\<rparr>"

fun validate_joints :: "JointConfig list \<Rightarrow> string + unit" where
  "validate_joints [] = Inr ()"
| "validate_joints (joint # joints) =
     (if \<not> host_is_unicast_servo_id (jo_id joint) then Inl ''servo IDs must be between 1 and 253''
      else if 100 < jo_torque_percent joint then Inl ''holding torque percentage must be between 0 and 100''
      else validate_joints joints)"

definition validate_host_config :: "HostConfig \<Rightarrow> string + unit" where
  "validate_host_config config =
     (if trim_string (ep_host (hc_endpoint config)) = [] \<or> ep_port (hc_endpoint config) = 0
      then Inl ''MCU host and TCP port are required''
      else if \<not> host_is_unicast_servo_id (mo_id (hc_motor config)) then Inl ''motor ID must be between 1 and 253''
      else if 100 < mo_speed_percent (hc_motor config) then Inl ''motor speed percentage must be between 0 and 100''
      else if length (hc_joints config) \<noteq> 6 then Inl ''exactly six position servo configurations are required''
      else validate_joints (hc_joints config))"

section \<open>Paths and files\<close>

text \<open>The environment variables of the process.\<close>

definition env_path :: "(string \<rightharpoonup> string) \<Rightarrow> string \<Rightarrow> string option" where
  "env_path env name = (case env name of Some p \<Rightarrow> if p = [] then None else Some p | None \<Rightarrow> None)"

definition host_config_path :: "(string \<rightharpoonup> string) \<Rightarrow> string" where
  "host_config_path env = (case env_path env ''XDG_CONFIG_HOME'' of
       Some p \<Rightarrow> path_join p ''fetchline-host/config.json''
     | None \<Rightarrow> (case env_path env ''HOME'' of
         Some p \<Rightarrow> path_join p ''.config/fetchline-host/config.json''
       | None \<Rightarrow> ''fetchline-host-config.json''))"

text \<open>The files and how the next operations end; a failed write may leave any contents behind.\<close>

datatype fs_result = FsOk | FsFailed string "string option"

record filesystem =
  fs_files :: "string \<rightharpoonup> string"
  fs_results :: "fs_result list"

definition next_result :: "filesystem \<Rightarrow> fs_result \<times> filesystem" where
  "next_result fs = (case fs_results fs of
       [] \<Rightarrow> (FsOk, fs)
     | r # rs \<Rightarrow> (r, fs\<lparr>fs_results := rs\<rparr>))"

definition fs_create_dir_all :: "string \<Rightarrow> (filesystem, string, unit) action" where
  "fs_create_dir_all p fs = (case next_result fs of
       (FsOk, fs) \<Rightarrow> (Inr (), fs)
     | (FsFailed e _, fs) \<Rightarrow> (Inl (''could not create config directory: '' @ e), fs))"

definition fs_write :: "string \<Rightarrow> string \<Rightarrow> (filesystem, string, unit) action" where
  "fs_write p contents fs = (case next_result fs of
       (FsOk, fs) \<Rightarrow> (Inr (), fs\<lparr>fs_files := (fs_files fs)(p \<mapsto> contents)\<rparr>)
     | (FsFailed e None, fs) \<Rightarrow> (Inl (''could not write host configuration: '' @ e), fs)
     | (FsFailed e (Some part), fs) \<Rightarrow>
         (Inl (''could not write host configuration: '' @ e), fs\<lparr>fs_files := (fs_files fs)(p \<mapsto> part)\<rparr>))"

definition fs_rename :: "string \<Rightarrow> string \<Rightarrow> (filesystem, string, unit) action" where
  "fs_rename p q fs = (case next_result fs of
       (FsFailed e _, fs) \<Rightarrow> (Inl (''could not replace host configuration: '' @ e), fs)
     | (FsOk, fs) \<Rightarrow>
         (case fs_files fs p of
            None \<Rightarrow> (Inl ''could not replace host configuration: No such file or directory'', fs)
          | Some contents \<Rightarrow> (Inr (), fs\<lparr>fs_files := (fs_files fs)(p := None, q \<mapsto> contents)\<rparr>)))"

section \<open>Loading and storing\<close>

text \<open>\<open>serde_json\<close> on configurations.\<close>

record config_serde =
  cf_to_pretty :: "HostConfig \<Rightarrow> string + string"
  cf_from_str :: "string \<Rightarrow> string + HostConfig"

definition load_host_config :: "config_serde \<Rightarrow> string \<Rightarrow> filesystem \<Rightarrow> HostConfig \<times> filesystem" where
  "load_host_config cf p fs = (case next_result fs of
       (FsFailed _ _, fs) \<Rightarrow> (default_config, fs)
     | (FsOk, fs) \<Rightarrow>
         (case fs_files fs p of
            None \<Rightarrow> (default_config, fs)
          | Some contents \<Rightarrow>
              (case cf_from_str cf contents of
                 Inl _ \<Rightarrow> (default_config, fs)
               | Inr config \<Rightarrow>
                   (case validate_host_config config of Inr _ \<Rightarrow> (config, fs) | Inl _ \<Rightarrow> (default_config, fs)))))"

definition persist_host_config :: "config_serde \<Rightarrow> string \<Rightarrow> HostConfig \<Rightarrow> (filesystem, string, unit) action" where
  "persist_host_config cf p config =
     (case path_parent p of
        None \<Rightarrow> return_err ''host configuration path has no parent directory''
      | Some parent \<Rightarrow>
          try_then (fs_create_dir_all parent) (\<lambda>_.
          (case cf_to_pretty cf config of
             Inl e \<Rightarrow> return_err (''could not encode host configuration: '' @ e)
           | Inr contents \<Rightarrow>
               try_then (fs_write (with_extension p ''json.tmp'') contents) (\<lambda>_.
                 fs_rename (with_extension p ''json.tmp'') p))))"

text \<open>The configuration part of the application state.\<close>

record config_state =
  cs_config :: HostConfig
  cs_path :: string
  cs_fs :: filesystem

definition get_config :: "config_state \<Rightarrow> HostConfig" where
  "get_config st = cs_config st"

text \<open>The host name is stored without surrounding white space.\<close>

definition trimmed :: "HostConfig \<Rightarrow> HostConfig" where
  "trimmed config = config\<lparr>hc_endpoint := (hc_endpoint config)\<lparr>ep_host := trim_string (ep_host (hc_endpoint config))\<rparr>\<rparr>"

text \<open>\<open>put_config\<close> up to the point where it waits for the lock of the configuration, and after it.
  A failure carries the HTTP status.\<close>

definition put_persist :: "config_serde \<Rightarrow> HostConfig \<Rightarrow> (config_state, nat \<times> string, HostConfig) action" where
  "put_persist cf config st =
     (let config = trimmed config in
      case validate_host_config config of
        Inl e \<Rightarrow> (Inl (400, e), st)
      | Inr _ \<Rightarrow>
          (case persist_host_config cf (cs_path st) config (cs_fs st) of
             (Inl e, fs) \<Rightarrow> (Inl (500, e), st\<lparr>cs_fs := fs\<rparr>)
           | (Inr _, fs) \<Rightarrow> (Inr config, st\<lparr>cs_fs := fs\<rparr>)))"

definition put_store :: "HostConfig \<Rightarrow> (config_state, nat \<times> string, HostConfig) action" where
  "put_store config st = (Inr config, st\<lparr>cs_config := config\<rparr>)"

definition put_config :: "config_serde \<Rightarrow> HostConfig \<Rightarrow> (config_state, nat \<times> string, HostConfig) action" where
  "put_config cf config = try_then (put_persist cf config) put_store"

definition initial_config_state :: "config_serde \<Rightarrow> (string \<rightharpoonup> string) \<Rightarrow> filesystem \<Rightarrow> config_state" where
  "initial_config_state cf env fs =
     (case load_host_config cf (host_config_path env) fs of
        (config, fs) \<Rightarrow> \<lparr>cs_config = config, cs_path = host_config_path env, cs_fs = fs\<rparr>)"

section \<open>The temporary file\<close>

text \<open>The configuration path always ends in one of two names, after a directory or on its own.\<close>

lemma config_path_shape:
  "host_config_path env = ''fetchline-host-config.json'' \<or> (\<exists>dir. host_config_path env = dir @ ''/config.json'')"
proof (cases "env_path env ''XDG_CONFIG_HOME''")
  case (Some p)
  then show ?thesis
    by (auto simp: host_config_path_def path_join_def intro: exI [of _ "p @ ''fetchline-host''"] exI [of _ "p @ ''/fetchline-host''"])
next
  case None
  then show ?thesis
    by (cases "env_path env ''HOME''")
       (auto simp: host_config_path_def path_join_def
         intro: exI [of _ "the (env_path env ''HOME'') @ ''.config/fetchline-host''"]
           exI [of _ "the (env_path env ''HOME'') @ ''/.config/fetchline-host''"])
qed

lemma config_temporary: "with_extension (host_config_path env) ''json.tmp'' \<noteq> host_config_path env"
proof -
  have name: "CHR ''/'' \<notin> set ''config.json''" by simp
  consider "host_config_path env = ''fetchline-host-config.json''"
    | dir where "host_config_path env = dir @ CHR ''/'' # ''config.json''"
    using config_path_shape [of env] by auto
  then show ?thesis
  proof cases
    case 2
    show ?thesis
      unfolding 2 with_extension_def path_name_append [OF name] path_dir_append [OF name]
      by (simp add: file_stem_def)
  qed (simp add: with_extension_def path_name_def path_dir_def file_stem_def)
qed

section \<open>Storing is atomic\<close>

lemma next_result_files: "next_result fs = (r, fs') \<Longrightarrow> fs_files fs' = fs_files fs"
  by (auto simp: next_result_def split: list.splits)

lemma fs_effects:
  "fs_create_dir_all p fs = (r, fs') \<Longrightarrow> fs_files fs' = fs_files fs"
  "fs_write p contents fs = (r, fs') \<Longrightarrow> q \<noteq> p \<Longrightarrow> fs_files fs' q = fs_files fs q"
  "fs_write p contents fs = (Inr u, fs') \<Longrightarrow> fs_files fs' p = Some contents"
  "fs_rename p q fs = (Inl e, fs') \<Longrightarrow> fs_files fs' = fs_files fs"
  "fs_rename p q fs = (Inr u, fs') \<Longrightarrow> fs_files fs' = (fs_files fs)(p := None, q := fs_files fs p)"
  by (auto simp: fs_create_dir_all_def fs_write_def fs_rename_def dest!: next_result_files
      split: prod.splits fs_result.splits option.splits)

text \<open>What storing a configuration does to the file at its path: all or nothing.\<close>

lemma persist_atomic:
  assumes "persist_host_config cf p config fs = (r, fs')" "with_extension p ''json.tmp'' \<noteq> p"
  shows "case r of
      Inl _ \<Rightarrow> fs_files fs' p = fs_files fs p
    | Inr _ \<Rightarrow> \<exists>contents. cf_to_pretty cf config = Inr contents \<and> fs_files fs' p = Some contents"
proof -
  let ?t = "with_extension p ''json.tmp''"
  show ?thesis
  proof (cases "path_parent p")
    case (Some parent)
    obtain r1 fs1 where dir: "fs_create_dir_all parent fs = (r1, fs1)" by fastforce
    show ?thesis
    proof (cases r1)
      case (Inr u)
      show ?thesis
      proof (cases "cf_to_pretty cf config")
        case contents: (Inr contents)
        obtain r2 fs2 where wr: "fs_write ?t contents fs1 = (r2, fs2)" by fastforce
        show ?thesis
        proof (cases r2)
          case ok: (Inr v)
          have "fs_rename ?t p fs2 = (r, fs')"
            using assms(1) Some dir Inr contents wr ok by (simp add: persist_host_config_def try_then_def)
          then show ?thesis
            using fs_effects(1) [OF dir] fs_effects(2) [OF wr, of p] fs_effects(3) [of ?t contents fs1 v fs2] wr ok contents
              fs_effects(4,5) [of ?t p fs2 _ fs'] assms(2)
            by (cases r) auto
        qed (use assms Some dir Inr contents wr fs_effects(1) [OF dir] fs_effects(2) [OF wr, of p] in
            \<open>auto simp: persist_host_config_def try_then_def\<close>)
      qed (use assms(1) Some dir Inr fs_effects(1) [OF dir] in
          \<open>auto simp: persist_host_config_def try_then_def return_err_def\<close>)
    qed (use assms(1) Some dir fs_effects(1) [OF dir] in \<open>auto simp: persist_host_config_def try_then_def\<close>)
  qed (use assms(1) in \<open>auto simp: persist_host_config_def return_err_def\<close>)
qed

lemma put_config_cases:
  assumes "put_config cf config st = (r, st')"
  obtains (rejected) e where "validate_host_config (trimmed config) = Inl e" "r = Inl (400, e)" "st' = st"
  | (unsaved) e fs where "persist_host_config cf (cs_path st) (trimmed config) (cs_fs st) = (Inl e, fs)"
      "r = Inl (500, e)" "st' = st\<lparr>cs_fs := fs\<rparr>"
  | (stored) fs where "validate_host_config (trimmed config) = Inr ()"
      "persist_host_config cf (cs_path st) (trimmed config) (cs_fs st) = (Inr (), fs)"
      "r = Inr (trimmed config)" "st' = st\<lparr>cs_fs := fs, cs_config := trimmed config\<rparr>"
proof (cases "validate_host_config (trimmed config)")
  case (Inl e)
  with assms show ?thesis by (intro rejected [of e]) (auto simp: put_config_def put_persist_def try_then_def)
next
  case (Inr u)
  obtain r1 fs where p: "persist_host_config cf (cs_path st) (trimmed config) (cs_fs st) = (r1, fs)" by fastforce
  note run = assms [unfolded put_config_def put_persist_def put_store_def try_then_def, simplified Let_def Inr p]
  show ?thesis
  proof (cases r1)
    case failed: (Inl e)
    show ?thesis using run p failed by (intro unsaved [of e fs]) auto
  next
    case (Inr v)
    show ?thesis using run p Inr \<open>validate_host_config (trimmed config) = Inr u\<close> by (intro stored [of fs]) auto
  qed
qed

section \<open>The configuration in use\<close>

definition in_limits :: "HostConfig \<Rightarrow> bool" where
  "in_limits c \<longleftrightarrow> trim_string (ep_host (hc_endpoint c)) \<noteq> [] \<and> ep_port (hc_endpoint c) \<noteq> 0 \<and>
     mo_id (hc_motor c) \<in> {1..253} \<and> mo_speed_percent (hc_motor c) \<le> 100 \<and> length (hc_joints c) = 6 \<and>
     list_all (\<lambda>j. jo_id j \<in> {1..253} \<and> jo_torque_percent j \<le> 100) (hc_joints c)"

lemma validate_joints_iff:
  "validate_joints js = Inr () \<longleftrightarrow> list_all (\<lambda>j. jo_id j \<in> {1..253} \<and> jo_torque_percent j \<le> 100) js"
  by (induction js) (auto simp: unicast_range not_less)

lemma validate_host_config_iff: "validate_host_config c = Inr () \<longleftrightarrow> in_limits c"
  by (auto simp: validate_host_config_def in_limits_def validate_joints_iff unicast_range not_less)

lemma default_in_limits: "in_limits default_config"
proof -
  have "validate_host_config default_config = Inr ()" by code_simp
  then show ?thesis unfolding validate_host_config_iff .
qed

lemma load_in_limits: "in_limits (fst (load_host_config cf p fs))"
  using default_in_limits
  by (auto simp: load_host_config_def validate_host_config_iff [symmetric]
      split: prod.splits fs_result.splits option.splits sum.splits)

datatype config_event = PutConfig HostConfig | OutsideChange filesystem

text \<open>The service starts by loading; then updates arrive, and other programs change the file system.\<close>

definition config_start :: "config_serde \<Rightarrow> config_state \<Rightarrow> bool" where
  "config_start cf st \<longleftrightarrow> (\<exists>env fs. st = initial_config_state cf env fs)"

definition config_trans :: "config_serde \<Rightarrow> config_state \<Rightarrow> config_event \<Rightarrow> config_state \<Rightarrow> bool" where
  "config_trans cf st e st' = (case e of
     PutConfig config \<Rightarrow> \<exists>r. put_config cf config st = (r, st') | OutsideChange fs \<Rightarrow> st' = st\<lparr>cs_fs := fs\<rparr>)"

definition config_inv :: "config_state \<Rightarrow> bool" where
  "config_inv st \<longleftrightarrow> in_limits (cs_config st) \<and> (\<exists>env. cs_path st = host_config_path env)"

lemma config_inv_put:
  assumes "config_inv st" "put_config cf config st = (r, st')"
  shows "config_inv st'"
  using assms(2) by (cases rule: put_config_cases) (use assms(1) in \<open>auto simp: config_inv_def validate_host_config_iff\<close>)

interpretation config: invariant_system "config_start cf" "config_trans cf" config_inv for cf
proof unfold_locales
  fix st assume "config_start cf st"
  then obtain env fs where "st = initial_config_state cf env fs" by (auto simp: config_start_def)
  then show "config_inv st"
    using load_in_limits [of cf "host_config_path env" fs]
    by (auto simp: config_inv_def initial_config_state_def split: prod.splits)
next
  fix st e st' assume "config_inv st" "config_trans cf st e st'"
  then show "config_inv st'"
  proof (cases e)
    case (PutConfig config)
    with \<open>config_trans cf st e st'\<close> obtain r where "put_config cf config st = (r, st')" by (auto simp: config_trans_def)
    with \<open>config_inv st\<close> show ?thesis by (rule config_inv_put)
  qed (simp add: config_trans_def config_inv_def)
qed

section \<open>Properties\<close>

text \<open>A serializer that keeps the host name only, for the examples.\<close>

definition with_host :: "string \<Rightarrow> HostConfig" where
  "with_host host = default_config\<lparr>hc_endpoint := \<lparr>ep_host = host, ep_port = 3333\<rparr>\<rparr>"

definition host_serde :: config_serde where
  "host_serde = \<lparr>cf_to_pretty = (\<lambda>c. Inr (ep_host (hc_endpoint c))), cf_from_str = (\<lambda>msg. Inr (with_host msg))\<rparr>"

definition empty_fs :: filesystem where
  "empty_fs = \<lparr>fs_files = Map.empty, fs_results = []\<rparr>"

definition sample_config_state :: config_state where
  "sample_config_state = initial_config_state host_serde Map.empty empty_fs"

text \<open>The configuration in use is always valid, whatever the file holds: in every state that loading at the
  start, updates from browsers and changes of the files by other programs can reach, host and port are
  present, every servo id is between 1 and 253, there are six joints and no percentage exceeds 100.\<close>
theorem config_always_valid:
  assumes "reachable (config_start cf) (config_trans cf) st"
  shows "in_limits (get_config st)"
  using config.inv_reachable [OF assms] by (simp add: config_inv_def get_config_def)

theorem config_always_valid_witness:
  "reachable (config_start host_serde) (config_trans host_serde) sample_config_state \<and>
   in_limits (get_config sample_config_state)"
proof -
  have r: "reachable (config_start host_serde) (config_trans host_serde) sample_config_state"
    by (rule reachable_start) (auto simp: config_start_def sample_config_state_def)
  from config_always_valid [OF r] r show ?thesis by simp
qed

text \<open>C21. An update is all or nothing and survives a restart: with the path of the configuration file and a
  serializer that reads back what it wrote, an update that fails, at whatever file operation, leaves both
  the configuration in use and the file as they were; one that succeeds puts the given configuration,
  with the host trimmed, in use, and a service that starts afterwards loads exactly it.\<close>
theorem config_update_durable:
  assumes "put_config cf config st = (r, st')" "cs_path st = host_config_path env"
    and "\<And>contents. cf_to_pretty cf (trimmed config) = Inr contents \<Longrightarrow> cf_from_str cf contents = Inr (trimmed config)"
  shows "case r of
      Inl _ \<Rightarrow> cs_config st' = cs_config st \<and> fs_files (cs_fs st') (cs_path st) = fs_files (cs_fs st) (cs_path st)
    | Inr stored \<Rightarrow> stored = trimmed config \<and> cs_config st' = stored \<and>
        cs_config (initial_config_state cf env ((cs_fs st')\<lparr>fs_results := []\<rparr>)) = stored"
  using assms(1)
proof (cases rule: put_config_cases)
  case (unsaved e fs)
  with persist_atomic [OF unsaved(1)] config_temporary [of env] assms(2) show ?thesis by simp
next
  case (stored fs)
  with persist_atomic [OF stored(2)] config_temporary [of env] assms(2,3) show ?thesis
    by (auto simp: initial_config_state_def load_host_config_def next_result_def)
qed simp

text \<open>What a service that starts now would load.\<close>

definition stored_config :: "config_state \<Rightarrow> HostConfig" where
  "stored_config st = cs_config (initial_config_state host_serde Map.empty ((cs_fs st)\<lparr>fs_results := []\<rparr>))"

theorem config_update_durable_witness:
  "\<exists>st'. put_config host_serde (with_host '' mcu'') sample_config_state = (Inr (with_host ''mcu''), st') \<and>
     cs_config st' = with_host ''mcu'' \<and>
     cs_config (initial_config_state host_serde Map.empty ((cs_fs st')\<lparr>fs_results := []\<rparr>)) = with_host ''mcu''"
proof -
  have trim: "trimmed (with_host '' mcu'') = with_host ''mcu''" by code_simp
  have "fst (put_config host_serde (with_host '' mcu'') sample_config_state) = Inr (with_host ''mcu'')" by code_simp
  then obtain st' where put: "put_config host_serde (with_host '' mcu'') sample_config_state = (Inr (with_host ''mcu''), st')"
    by (metis prod.collapse)
  have "cs_path sample_config_state = host_config_path Map.empty"
    by (simp add: sample_config_state_def initial_config_state_def split: prod.splits)
  moreover have "cf_from_str host_serde contents = Inr (trimmed (with_host '' mcu''))"
    if "cf_to_pretty host_serde (trimmed (with_host '' mcu'')) = Inr contents" for contents
    using that unfolding trim by (simp add: host_serde_def with_host_def)
  ultimately show ?thesis using config_update_durable [OF put] put trim by auto
qed

text \<open>Two updates of which the first to write the file is the last to be put in use.\<close>

definition overlapping :: "config_serde \<Rightarrow> HostConfig \<Rightarrow> HostConfig \<Rightarrow> config_state \<Rightarrow> config_state option" where
  "overlapping cf a b st = (case put_persist cf a st of
       (Inr a, st) \<Rightarrow>
         (case put_persist cf b st of (Inr b, st) \<Rightarrow> Some (snd (put_store a (snd (put_store b st)))) | _ \<Rightarrow> None)
     | _ \<Rightarrow> None)"

text \<open>Two updates at the same time can leave the file and the configuration in use different: an update
  writes the file before it takes the lock of the configuration, so of two overlapping updates one can
  be the last to write the file and the other the last to be put in use; a restart then changes the
  configuration.\<close>
theorem overlapping_updates_diverge:
  "\<exists>st. overlapping host_serde (with_host ''a'') (with_host ''b'') sample_config_state = Some st \<and>
     get_config st = with_host ''a'' \<and> stored_config st = with_host ''b''"
proof -
  have "map_option (\<lambda>st. (get_config st, stored_config st))
      (overlapping host_serde (with_host ''a'') (with_host ''b'') sample_config_state) = Some (with_host ''a'', with_host ''b'')"
    by code_simp
  then show ?thesis by auto
qed

end
