(* ===== verification/Host_Log.thy ===== *)
theory Host_Log
  imports Host_Config
begin

text \<open>
  Start-up options and the log file of the host (\<open>src/host/src/main.rs\<close>). A log file is a name
  for a stored file that an open handle keeps writing to after a rename, so the file system here maps
  names to numbered files. Every operation may fail. The lemmas say what a rotation does to the history
  files, how large the log gets, and that a log file that is gone is never opened again.
\<close>

section \<open>Start-up options\<close>

definition DEFAULT_LISTEN_ADDRESS :: string where "DEFAULT_LISTEN_ADDRESS = ''0.0.0.0:8787''"

text \<open>The arguments after the program name; \<open>None\<close> is the panic with the usage text.\<close>

fun startup_loop :: "string list \<Rightarrow> string option \<Rightarrow> TransportMode \<Rightarrow> (string option \<times> TransportMode) option" where
  "startup_loop [] listen_address transport = Some (listen_address, transport)"
| "startup_loop (argument # arguments) listen_address transport =
     (if argument = ''--debug-raw-tunnel'' then startup_loop arguments listen_address DebugRawTunnel
      else if listen_address \<noteq> None then None
      else startup_loop arguments (Some argument) transport)"

definition startup_options :: "string list \<Rightarrow> (string \<times> TransportMode) option" where
  "startup_options arguments =
     map_option (\<lambda>(address, transport). (case address of Some a \<Rightarrow> a | None \<Rightarrow> DEFAULT_LISTEN_ADDRESS, transport))
       (startup_loop arguments None ControllerMode)"

definition host_log_path :: "(string \<rightharpoonup> string) \<Rightarrow> string" where
  "host_log_path env = (case env_path env ''XDG_STATE_HOME'' of
       Some p \<Rightarrow> path_join p ''fetchline-host/fetchline-host.log''
     | None \<Rightarrow> (case env_path env ''HOME'' of
         Some p \<Rightarrow> path_join p ''.local/state/fetchline-host/fetchline-host.log''
       | None \<Rightarrow> ''fetchline-host.log''))"

datatype LevelFilter = LevelError | LevelWarn | LevelInfo | LevelDebug | LevelTrace

fun level_number :: "LevelFilter \<Rightarrow> nat" where
  "level_number LevelError = 1"
| "level_number LevelWarn = 2"
| "level_number LevelInfo = 3"
| "level_number LevelDebug = 4"
| "level_number LevelTrace = 5"

definition log_level_from_environment :: "(string \<rightharpoonup> string) \<Rightarrow> LevelFilter" where
  "log_level_from_environment env =
     (if env ''FETCHLINE_LOG'' = Some ''debug'' then LevelDebug
      else if env ''FETCHLINE_LOG'' = Some ''trace'' then LevelTrace
      else if env ''FETCHLINE_LOG'' = Some ''warn'' then LevelWarn
      else if env ''FETCHLINE_LOG'' = Some ''error'' then LevelError
      else LevelInfo)"

section \<open>The log file\<close>

definition MAX_LOG_FILE_BYTES :: nat where "MAX_LOG_FILE_BYTES = 5 * 1024 * 1024"
definition LOG_HISTORY_FILES :: nat where "LOG_HISTORY_FILES = 3"

text \<open>The names, the contents of the numbered files, the number of the next new file, how the next
  operations end, and the file the logger writes to.\<close>

record log_state =
  lg_names :: "string \<rightharpoonup> nat"
  lg_data :: "nat \<Rightarrow> string"
  lg_next :: nat
  lg_results :: "fs_result list"
  lg_handle :: nat
  lg_level :: LevelFilter

definition log_next_result :: "log_state \<Rightarrow> fs_result \<times> log_state" where
  "log_next_result s = (case lg_results s of [] \<Rightarrow> (FsOk, s) | r # rs \<Rightarrow> (r, s\<lparr>lg_results := rs\<rparr>))"

definition log_rename :: "string \<Rightarrow> string \<Rightarrow> (log_state, string, unit) action" where
  "log_rename p q s = (case log_next_result s of
       (FsFailed e _, s) \<Rightarrow> (Inl (''could not rotate log '' @ p @ '' to '' @ q @ '': '' @ e), s)
     | (FsOk, s) \<Rightarrow>
         (case lg_names s p of
            None \<Rightarrow> (Inl (''could not rotate log '' @ p @ '' to '' @ q @ '': No such file or directory''), s)
          | Some i \<Rightarrow> (Inr (), s\<lparr>lg_names := (lg_names s)(p := None, q \<mapsto> i)\<rparr>)))"

text \<open>Opening for appending, creating the file if it is not there.\<close>

definition open_log_file :: "string \<Rightarrow> (log_state, string, nat) action" where
  "open_log_file p s = (case log_next_result s of
       (FsFailed e _, s) \<Rightarrow> (Inl (''could not open log file '' @ p @ '': '' @ e), s)
     | (FsOk, s) \<Rightarrow>
         (case lg_names s p of
            Some i \<Rightarrow> (Inr i, s)
          | None \<Rightarrow> (Inr (lg_next s), s\<lparr>lg_names := (lg_names s)(p \<mapsto> lg_next s),
              lg_data := (lg_data s)(lg_next s := []), lg_next := Suc (lg_next s)\<rparr>)))"

definition log_archive_path :: "string \<Rightarrow> nat \<Rightarrow> string" where
  "log_archive_path p i = with_extension p (''log.'' @ decimal i)"

fun rotate_archives :: "string \<Rightarrow> nat list \<Rightarrow> (log_state, string, unit) action" where
  "rotate_archives p [] s = (Inr (), s)"
| "rotate_archives p (i # is) s =
     (if lg_names s (log_archive_path p i) \<noteq> None
      then try_then (log_rename (log_archive_path p i) (log_archive_path p (i + 1))) (\<lambda>_. rotate_archives p is) s
      else rotate_archives p is s)"

definition rotate_log_file :: "string \<Rightarrow> (log_state, string, nat) action" where
  "rotate_log_file p =
     try_then (rotate_archives p (rev [1..<LOG_HISTORY_FILES])) (\<lambda>_.
     try_then (log_rename p (log_archive_path p 1)) (\<lambda>_. open_log_file p))"

text \<open>One message of the given level; the text of its line is the argument. The size is not known when the
  metadata cannot be read; a failed write may leave a part of the line behind.\<close>

definition append_line :: "string \<Rightarrow> log_state \<Rightarrow> log_state" where
  "append_line line s = (case log_next_result s of
       (FsOk, s) \<Rightarrow> s\<lparr>lg_data := (lg_data s)(lg_handle s := lg_data s (lg_handle s) @ line @ [CHR 0x0a])\<rparr>
     | (FsFailed _ part, s) \<Rightarrow>
         s\<lparr>lg_data := (lg_data s)(lg_handle s := lg_data s (lg_handle s) @ (case part of Some t \<Rightarrow> t | None \<Rightarrow> []))\<rparr>)"

definition file_log :: "string \<Rightarrow> LevelFilter \<Rightarrow> string \<Rightarrow> log_state \<Rightarrow> log_state" where
  "file_log p level line s =
     (if level_number (lg_level s) < level_number level then s
      else case log_next_result s of (r, s) \<Rightarrow>
        let s = (if r = FsOk \<and> MAX_LOG_FILE_BYTES \<le> length (lg_data s (lg_handle s))
                 then case rotate_log_file p s of
                     (Inr replacement, s) \<Rightarrow> s\<lparr>lg_handle := replacement\<rparr>
                   | (Inl _, s) \<Rightarrow> s
                 else s)
        in append_line line s)"

text \<open>Starting the logger; \<open>None\<close> is the panic of \<open>main\<close>.\<close>

definition initialize_logging :: "(string \<rightharpoonup> string) \<Rightarrow> log_state \<Rightarrow> log_state option" where
  "initialize_logging env s = (let p = host_log_path env in
     case path_parent p of
       None \<Rightarrow> None
     | Some _ \<Rightarrow>
         (case log_next_result s of
            (FsFailed _ _, s) \<Rightarrow> None
          | (FsOk, s) \<Rightarrow>
              (case open_log_file p s of
                 (Inl _, _) \<Rightarrow> None
               | (Inr i, s) \<Rightarrow> Some (s\<lparr>lg_handle := i, lg_level := log_level_from_environment env\<rparr>))))"

section \<open>The names of the history files\<close>

lemma log_path_shape: "\<exists>dir. host_log_path env = dir @ ''fetchline-host.log'' \<and> (dir = [] \<or> (\<exists>d. dir = d @ ''/''))"
proof (cases "env_path env ''XDG_STATE_HOME''")
  case (Some p)
  then show ?thesis
    by (auto simp: host_log_path_def path_join_def intro: exI [of _ "p @ ''fetchline-host/''"] exI [of _ "p @ ''/fetchline-host/''"])
next
  case None
  then show ?thesis
    by (cases "env_path env ''HOME''")
       (auto simp: host_log_path_def path_join_def
         intro: exI [of _ "the (env_path env ''HOME'') @ ''.local/state/fetchline-host/''"]
           exI [of _ "the (env_path env ''HOME'') @ ''/.local/state/fetchline-host/''"])
qed

lemma archive_path: "log_archive_path (host_log_path env) i = host_log_path env @ CHR ''.'' # decimal i"
proof -
  obtain dir where dir: "host_log_path env = dir @ ''fetchline-host.log''" "dir = [] \<or> (\<exists>d. dir = d @ ''/'')"
    using log_path_shape by blast
  have "path_name (dir @ ''fetchline-host.log'') = ''fetchline-host.log''" "path_dir (dir @ ''fetchline-host.log'') = dir"
    using dir(2) path_name_append [of "''fetchline-host.log''"] path_dir_append [of "''fetchline-host.log''"]
    by (auto simp: path_name_def path_dir_def)
  then show ?thesis
    unfolding dir(1) log_archive_path_def with_extension_def by (simp add: file_stem_def)
qed

lemma decimals: "decimal 1 = ''1''" "decimal 2 = ''2''" "decimal 3 = ''3''"
  by code_simp+

lemma archive_names:
  "log_archive_path (host_log_path env) (Suc 0) = host_log_path env @ ''.1''"
  "log_archive_path (host_log_path env) 2 = host_log_path env @ ''.2''"
  "log_archive_path (host_log_path env) (Suc (Suc 0)) = host_log_path env @ ''.2''"
  "log_archive_path (host_log_path env) 3 = host_log_path env @ ''.3''"
  by (simp_all add: archive_path decimals [simplified] decimals(2) [unfolded numeral_2_eq_2])

lemma history_indices: "rev [1..<LOG_HISTORY_FILES] = [2, Suc 0]"
  by (simp add: LOG_HISTORY_FILES_def numeral_eq_Suc)

section \<open>What a rotation does\<close>

lemma log_rename_ok:
  "lg_results s = [] \<Longrightarrow> lg_names s p = Some i \<Longrightarrow>
   log_rename p q s = (Inr (), s\<lparr>lg_names := (lg_names s)(p := None, q \<mapsto> i)\<rparr>)"
  by (simp add: log_rename_def log_next_result_def)

lemma open_log_file_new:
  "lg_results s = [] \<Longrightarrow> lg_names s p = None \<Longrightarrow>
   open_log_file p s = (Inr (lg_next s), s\<lparr>lg_names := (lg_names s)(p \<mapsto> lg_next s),
     lg_data := (lg_data s)(lg_next s := []), lg_next := Suc (lg_next s)\<rparr>)"
  by (simp add: open_log_file_def log_next_result_def)

definition shifted :: "string \<Rightarrow> (string \<rightharpoonup> nat) \<Rightarrow> string \<rightharpoonup> nat" where
  "shifted p names q =
     (if q = p @ ''.3'' then (if names (p @ ''.2'') = None then names (p @ ''.3'') else names (p @ ''.2''))
      else if q = p @ ''.2'' then names (p @ ''.1'')
      else if q = p @ ''.1'' then None
      else names q)"

lemma shifted_eq:
  "names (p @ ''.2'') = Some i \<Longrightarrow> names (p @ ''.1'') = Some j \<Longrightarrow>
     shifted p names = names(p @ ''.2'' := None, p @ ''.3'' \<mapsto> i, p @ ''.1'' := None, p @ ''.2'' \<mapsto> j)"
  "names (p @ ''.2'') = None \<Longrightarrow> names (p @ ''.1'') = Some j \<Longrightarrow>
     shifted p names = names(p @ ''.1'' := None, p @ ''.2'' \<mapsto> j)"
  "names (p @ ''.2'') = Some i \<Longrightarrow> names (p @ ''.1'') = None \<Longrightarrow>
     shifted p names = names(p @ ''.2'' := None, p @ ''.3'' \<mapsto> i)"
  "names (p @ ''.2'') = None \<Longrightarrow> names (p @ ''.1'') = None \<Longrightarrow> shifted p names = names"
  by (simp_all add: fun_eq_iff shifted_def)

lemma rotate_archives_ok:
  assumes "lg_results s = []"
  shows "rotate_archives (host_log_path env) [2, Suc 0] s =
    (Inr (), s\<lparr>lg_names := shifted (host_log_path env) (lg_names s)\<rparr>)"
  using assms
  by (cases "lg_names s (host_log_path env @ ''.2'')"; cases "lg_names s (host_log_path env @ ''.1'')")
     (simp_all add: archive_names log_rename_ok shifted_eq)

lemma rotate_ok:
  assumes "lg_results s = []" "lg_names s (host_log_path env) = Some i"
  shows "rotate_log_file (host_log_path env) s = (Inr (lg_next s), s\<lparr>
      lg_names := (shifted (host_log_path env) (lg_names s))
        (host_log_path env := None, host_log_path env @ ''.1'' \<mapsto> i, host_log_path env \<mapsto> lg_next s),
      lg_data := (lg_data s)(lg_next s := []), lg_next := Suc (lg_next s)\<rparr>)"
proof -
  have "shifted (host_log_path env) (lg_names s) (host_log_path env) = Some i"
    using assms(2) by (simp add: shifted_def)
  with assms(1) show ?thesis
    unfolding rotate_log_file_def history_indices
    by (simp add: rotate_archives_ok archive_names log_rename_ok open_log_file_new del: rotate_archives.simps)
qed

section \<open>A log that is in order\<close>

text \<open>No operation fails, and the logger writes to the file that has the log's name.\<close>

definition log_ok :: "string \<Rightarrow> log_state \<Rightarrow> bool" where
  "log_ok p s \<longleftrightarrow> lg_results s = [] \<and> lg_names s p = Some (lg_handle s) \<and> lg_handle s < lg_next s"

definition log_size :: "log_state \<Rightarrow> nat" where
  "log_size s = length (lg_data s (lg_handle s))"

lemma log_result_ok: "lg_results s = [] \<Longrightarrow> log_next_result s = (FsOk, s)"
  by (simp add: log_next_result_def)

lemma append_line_ok:
  "lg_results s = [] \<Longrightarrow>
   append_line line s = s\<lparr>lg_data := (lg_data s)(lg_handle s := lg_data s (lg_handle s) @ line @ [CHR 0x0a])\<rparr>"
  by (simp add: append_line_def log_result_ok)

lemma file_log_cases:
  assumes "log_ok (host_log_path env) s"
  obtains (disabled) "level_number (lg_level s) < level_number level" "file_log (host_log_path env) level line s = s"
  | (appended) "log_size s < MAX_LOG_FILE_BYTES" "file_log (host_log_path env) level line s = append_line line s"
  | (rotated) s1 where "MAX_LOG_FILE_BYTES \<le> log_size s" "rotate_log_file (host_log_path env) s = (Inr (lg_next s), s1)"
      "file_log (host_log_path env) level line s = append_line line (s1\<lparr>lg_handle := lg_next s\<rparr>)"
proof -
  have ok: "lg_results s = []" "lg_names s (host_log_path env) = Some (lg_handle s)"
    using assms by (simp_all add: log_ok_def)
  consider "level_number (lg_level s) < level_number level"
    | "\<not> level_number (lg_level s) < level_number level" "log_size s < MAX_LOG_FILE_BYTES"
    | "\<not> level_number (lg_level s) < level_number level" "MAX_LOG_FILE_BYTES \<le> log_size s"
    by linarith
  then show ?thesis
    by cases (use rotate_ok [OF ok] that in \<open>auto simp: file_log_def log_result_ok ok(1) log_size_def Let_def\<close>)
qed

lemma file_log_keeps:
  assumes "log_ok (host_log_path env) s" "length line < limit" "log_size s < MAX_LOG_FILE_BYTES + limit"
  shows "log_ok (host_log_path env) (file_log (host_log_path env) level line s) \<and>
    log_size (file_log (host_log_path env) level line s) < MAX_LOG_FILE_BYTES + limit"
  using assms(1)
proof (cases rule: file_log_cases [where level = level and line = line])
  case disabled
  with assms show ?thesis by simp
next
  case appended
  with assms show ?thesis by (simp add: log_ok_def append_line_ok log_size_def)
next
  case (rotated s1)
  with assms rotate_ok [of s env "lg_handle s"] show ?thesis
    by (auto simp: log_ok_def append_line_ok log_size_def MAX_LOG_FILE_BYTES_def)
qed

section \<open>A log file that is gone\<close>

lemma log_rename_absent: "lg_names s p = None \<Longrightarrow> \<exists>e s'. log_rename p q s = (Inl e, s') \<and> lg_names s' = lg_names s \<and> lg_handle s' = lg_handle s"
  by (auto simp: log_rename_def log_next_result_def split: list.splits fs_result.splits)

lemma rotate_archives_keeps:
  assumes "rotate_archives (host_log_path env) is s = (r, s')"
  shows "lg_names s' (host_log_path env) = lg_names s (host_log_path env) \<and> lg_handle s' = lg_handle s"
  using assms
proof (induction "is" arbitrary: s)
  case (Cons i "is")
  have neq: "log_archive_path (host_log_path env) k \<noteq> host_log_path env"
    "host_log_path env \<noteq> log_archive_path (host_log_path env) k" for k by (simp_all add: archive_path)
  have rename: "lg_names s1 (host_log_path env) = lg_names s (host_log_path env) \<and> lg_handle s1 = lg_handle s"
    if "log_rename (log_archive_path (host_log_path env) i) (log_archive_path (host_log_path env) (i + 1)) s = (r1, s1)" for r1 s1
    using that neq by (auto simp: log_rename_def log_next_result_def split: list.splits fs_result.splits option.splits)
  show ?case
  proof (cases "lg_names s (log_archive_path (host_log_path env) i) \<noteq> None")
    case True
    obtain r1 s1 where r1: "log_rename (log_archive_path (host_log_path env) i) (log_archive_path (host_log_path env) (i + 1)) s = (r1, s1)"
      by fastforce
    with True Cons rename [OF r1] show ?thesis by (cases r1) auto
  qed (use Cons in auto)
qed simp

lemma rotate_absent:
  assumes "lg_names s (host_log_path env) = None"
  shows "\<exists>e s'. rotate_log_file (host_log_path env) s = (Inl e, s') \<and> lg_names s' (host_log_path env) = None \<and> lg_handle s' = lg_handle s"
proof -
  obtain r1 s1 where r1: "rotate_archives (host_log_path env) (rev [1..<LOG_HISTORY_FILES]) s = (r1, s1)" by fastforce
  note kept = rotate_archives_keeps [OF r1]
  show ?thesis
  proof (cases r1)
    case (Inr u)
    obtain e s2 where "log_rename (host_log_path env) (log_archive_path (host_log_path env) 1) s1 = (Inl e, s2)"
      "lg_names s2 = lg_names s1" "lg_handle s2 = lg_handle s1"
      using log_rename_absent kept assms by metis
    with r1 Inr kept assms show ?thesis by (simp add: rotate_log_file_def)
  qed (use r1 kept assms in \<open>simp add: rotate_log_file_def\<close>)
qed

lemma append_line_keeps: "lg_names (append_line line s) = lg_names s" "lg_handle (append_line line s) = lg_handle s"
  by (auto simp: append_line_def log_next_result_def split: list.splits fs_result.splits)

lemma file_log_absent:
  assumes "lg_names s (host_log_path env) = None"
  shows "lg_names (file_log (host_log_path env) level line s) (host_log_path env) = None \<and>
    lg_handle (file_log (host_log_path env) level line s) = lg_handle s"
proof -
  obtain r s1 where r: "log_next_result s = (r, s1)" by fastforce
  then have s1: "lg_names s1 = lg_names s" "lg_handle s1 = lg_handle s" by (auto simp: log_next_result_def split: list.splits)
  then obtain e s2 where "rotate_log_file (host_log_path env) s1 = (Inl e, s2)" "lg_names s2 (host_log_path env) = None"
    "lg_handle s2 = lg_handle s"
    using rotate_absent [of s1 env] assms by auto
  with r s1 assms show ?thesis by (simp add: file_log_def Let_def append_line_keeps)
qed

section \<open>Properties\<close>

definition file_log_all :: "string \<Rightarrow> (LevelFilter \<times> string) list \<Rightarrow> log_state \<Rightarrow> log_state" where
  "file_log_all p = fold (\<lambda>(level, line). file_log p level line)"

definition sample_log :: "string \<Rightarrow> fs_result list \<Rightarrow> log_state" where
  "sample_log contents results = \<lparr>lg_names = [''fetchline-host.log'' \<mapsto> 0], lg_data = (\<lambda>_. contents), lg_next = 1,
     lg_results = results, lg_handle = 0, lg_level = LevelInfo\<rparr>"

lemma no_environment: "host_log_path Map.empty = ''fetchline-host.log''"
  by (simp add: host_log_path_def env_path_def)

text \<open>The log file stays small: as long as no file operation fails, no sequence of messages makes the log file
  larger than 5 MiB and one line.\<close>
theorem log_size_bounded:
  assumes "log_ok (host_log_path env) s" "log_size s < MAX_LOG_FILE_BYTES + limit"
    and "list_all (\<lambda>(_, line). length line < limit) lines"
  shows "log_size (file_log_all (host_log_path env) lines s) < MAX_LOG_FILE_BYTES + limit"
proof -
  have "log_ok (host_log_path env) (file_log_all (host_log_path env) lines s) \<and>
      log_size (file_log_all (host_log_path env) lines s) < MAX_LOG_FILE_BYTES + limit"
    using assms
  proof (induction lines arbitrary: s)
    case (Cons x lines)
    then show ?case
      using file_log_keeps [of env s "snd x" limit "fst x"] by (auto simp: file_log_all_def case_prod_beta)
  qed (simp add: file_log_all_def)
  then show ?thesis by simp
qed

theorem log_size_bounded_witness:
  "log_size (file_log_all ''fetchline-host.log'' [(LevelInfo, ''a''), (LevelDebug, ''b''), (LevelError, ''c'')] (sample_log [] []))
     < MAX_LOG_FILE_BYTES + 2"
  using log_size_bounded [of Map.empty "sample_log [] []" 2 "[(LevelInfo, ''a''), (LevelDebug, ''b''), (LevelError, ''c'')]"]
  by (simp add: no_environment sample_log_def log_ok_def log_size_def MAX_LOG_FILE_BYTES_def)

text \<open>A rotation keeps the history: when a message finds the log full and no operation fails, the message
  becomes the first line of a new log file, the full file becomes the first history file, each history
  file moves one place (only the third is given up), and no stored file is changed.\<close>
theorem rotation_keeps_history:
  assumes "log_ok (host_log_path env) s" "MAX_LOG_FILE_BYTES \<le> log_size s"
    and "level_number level \<le> level_number (lg_level s)"
  shows "let p = host_log_path env; s' = file_log p level line s in
    lg_names s' p = Some (lg_handle s') \<and> lg_data s' (lg_handle s') = line @ [CHR 0x0a] \<and>
    lg_names s' (p @ ''.1'') = lg_names s p \<and> lg_names s' (p @ ''.2'') = lg_names s (p @ ''.1'') \<and>
    lg_names s' (p @ ''.3'') = (if lg_names s (p @ ''.2'') = None then lg_names s (p @ ''.3'') else lg_names s (p @ ''.2'')) \<and>
    (\<forall>i < lg_next s. lg_data s' i = lg_data s i)"
  using assms(1)
proof (cases rule: file_log_cases [where level = level and line = line])
  case (rotated s1)
  with assms(1) rotate_ok [of s env "lg_handle s"] show ?thesis
    by (auto simp: log_ok_def append_line_ok shifted_def Let_def)
qed (use assms in auto)

theorem rotation_keeps_history_witness:
  "lg_data (file_log ''fetchline-host.log'' LevelWarn ''full'' (sample_log (replicate 5242880 CHR ''x'') [])) 0 =
     replicate 5242880 CHR ''x''"
  using rotation_keeps_history [of Map.empty "sample_log (replicate 5242880 CHR ''x'') []" LevelWarn "''full''"]
  by (simp add: no_environment sample_log_def log_ok_def log_size_def MAX_LOG_FILE_BYTES_def Let_def)

text \<open>C39. A log file that has gone is never opened again: once the log's name has no file (a rotation whose
  reopening failed leaves it so, and so does removing the file), every later message is written to the file
  the logger already had, whatever its size and however the operations end, and the name stays without a
  file until the process ends.\<close>
theorem lost_log_never_reopened:
  assumes "lg_names s (host_log_path env) = None"
  shows "lg_names (file_log_all (host_log_path env) lines s) (host_log_path env) = None \<and>
    lg_handle (file_log_all (host_log_path env) lines s) = lg_handle s"
  using assms
proof (induction lines arbitrary: s)
  case (Cons x lines)
  then show ?case using file_log_absent [of s env "fst x" "snd x"] by (auto simp: file_log_all_def case_prod_beta)
qed (simp add: file_log_all_def)

theorem lost_log_never_reopened_witness:
  "\<exists>s. s = file_log ''fetchline-host.log'' LevelInfo ''a''
       (sample_log (replicate 5242880 CHR ''x'') [FsOk, FsOk, FsFailed ''too many open files'' None]) \<and>
     lg_names s ''fetchline-host.log'' = None \<and>
     lg_handle (file_log_all ''fetchline-host.log'' [(LevelInfo, ''b''), (LevelInfo, ''c'')] s) = 0"
proof -
  let ?s = "file_log ''fetchline-host.log'' LevelInfo ''a''
       (sample_log (replicate 5242880 CHR ''x'') [FsOk, FsOk, FsFailed ''too many open files'' None])"
  let ?s1 = "sample_log (replicate 5242880 CHR ''x'') [FsOk, FsFailed ''too many open files'' None]"
  have "\<exists>e s2. rotate_log_file ''fetchline-host.log'' ?s1 = (Inl e, s2) \<and>
      lg_names s2 ''fetchline-host.log'' = None \<and> lg_handle s2 = 0"
    using archive_names [of Map.empty, unfolded no_environment]
    unfolding rotate_log_file_def history_indices
    by (simp add: sample_log_def log_next_result_def log_rename_def try_then_def open_log_file_def)
  then obtain e s2 where "rotate_log_file ''fetchline-host.log'' ?s1 = (Inl e, s2)"
    "lg_names s2 ''fetchline-host.log'' = None" "lg_handle s2 = 0" by blast
  then have "lg_names ?s ''fetchline-host.log'' = None \<and> lg_handle ?s = 0"
    by (simp add: file_log_def log_next_result_def sample_log_def MAX_LOG_FILE_BYTES_def Let_def append_line_keeps)
  with lost_log_never_reopened [of ?s Map.empty "[(LevelInfo, ''b''), (LevelInfo, ''c'')]"] show ?thesis
    by (simp add: no_environment)
qed

end
