(* ===== verification/Host_Http.thy ===== *)
theory Host_Http
  imports Host_Log
begin

text \<open>
  The HTTP side of the host and its start (\<open>src/host/src/main.rs\<close>, \<open>app\<close>, the asset
  handlers, \<open>websocket\<close> and \<open>main\<close>): the route table, what each handler answers, and the
  whole service as a transition system in which HTTP requests, requests over the browsers' WebSockets and
  updates that wait for the lock of the configuration interleave. How the router looks up its table and how
  a body becomes a configuration are the libraries', so they are parameters. The lemmas show that every
  reachable state of the service keeps the invariants of its parts, and which requests can change what.
\<close>

section \<open>Routes\<close>

datatype http_method = GET | HEAD | PUT | OtherMethod string

datatype handler = IndexPage | JavascriptFile | StylesheetFile | ConfigGet | ConfigPut | WebsocketRoute

type_synonym routes = "(string \<times> (http_method \<times> handler) list) list"

definition app_routes :: routes where
  "app_routes =
     [(''/'', [(GET, IndexPage)]),
      (''/app.js'', [(GET, JavascriptFile)]),
      (''/styles.css'', [(GET, StylesheetFile)]),
      (''/config'', [(GET, ConfigGet), (PUT, ConfigPut)]),
      (''/ws'', [(GET, WebsocketRoute)])]"

text \<open>The router finds a handler that is registered for the path, under the request's method or, for a
  HEAD request, under GET; and it finds what is registered for exactly the request.\<close>

definition documented_router :: "(routes \<Rightarrow> http_method \<Rightarrow> string \<Rightarrow> handler option) \<Rightarrow> bool" where
  "documented_router router \<longleftrightarrow> (\<forall>routes verb path h.
     (router routes verb path = Some h \<longrightarrow>
        (\<exists>hs v. (path, hs) \<in> set routes \<and> (v, h) \<in> set hs \<and> (v = verb \<or> verb = HEAD \<and> v = GET))) \<and>
     (\<forall>hs. distinct (map fst routes) \<longrightarrow> (path, hs) \<in> set routes \<longrightarrow> (verb, h) \<in> set hs \<longrightarrow>
        distinct (map fst hs) \<longrightarrow> router routes verb path = Some h))"

section \<open>Handlers\<close>

text \<open>The body of a request is what the JSON extractor makes of it: a configuration or a rejection with its
  status. A failed extraction never reaches the handler.\<close>

record http_request =
  rq_verb :: http_method
  rq_path :: string
  rq_config :: "(nat \<times> string) + HostConfig"

datatype http_response =
    Asset string string
  | ConfigBody HostConfig
  | Failure nat string
  | Upgrade
  | NoRoute
  | Pending

text \<open>The three files of the control panel that are compiled into the program.\<close>

record web_files =
  web_index :: string
  web_javascript :: string
  web_stylesheet :: string

definition asset :: "string \<Rightarrow> string \<Rightarrow> http_response" where
  "asset content_type body = Asset content_type body"

definition serve_index :: "web_files \<Rightarrow> http_response" where
  "serve_index files = asset ''text/html; charset=utf-8'' (web_index files)"

definition serve_javascript :: "web_files \<Rightarrow> http_response" where
  "serve_javascript files = asset ''text/javascript; charset=utf-8'' (web_javascript files)"

definition serve_stylesheet :: "web_files \<Rightarrow> http_response" where
  "serve_stylesheet files = asset ''text/css; charset=utf-8'' (web_stylesheet files)"

section \<open>The service\<close>

text \<open>The bridge and the configuration, the updates that are stored in the file and wait for the lock of
  the configuration, and how many browser sessions are open.\<close>

record host_state =
  hs_app :: AppState
  hs_config :: config_state
  hs_waiting :: "HostConfig list"
  hs_browsers :: nat

definition handle_http :: "config_serde \<Rightarrow> web_files \<Rightarrow> handler \<Rightarrow> http_request \<Rightarrow> host_state \<Rightarrow> http_response \<times> host_state" where
  "handle_http cf files h rq st = (case h of
       IndexPage \<Rightarrow> (serve_index files, st)
     | JavascriptFile \<Rightarrow> (serve_javascript files, st)
     | StylesheetFile \<Rightarrow> (serve_stylesheet files, st)
     | ConfigGet \<Rightarrow> (ConfigBody (get_config (hs_config st)), st)
     | ConfigPut \<Rightarrow>
         (case rq_config rq of
            Inl (status, msg) \<Rightarrow> (Failure status msg, st)
          | Inr config \<Rightarrow>
              (case put_persist cf config (hs_config st) of
                 (Inl (status, msg), conf) \<Rightarrow> (Failure status msg, st\<lparr>hs_config := conf\<rparr>)
               | (Inr config, conf) \<Rightarrow>
                   (Pending, st\<lparr>hs_config := conf, hs_waiting := hs_waiting st @ [config]\<rparr>)))
     | WebsocketRoute \<Rightarrow> (Upgrade, st\<lparr>hs_browsers := hs_browsers st + 1\<rparr>))"

definition serve_http ::
  "config_serde \<Rightarrow> web_files \<Rightarrow> (routes \<Rightarrow> http_method \<Rightarrow> string \<Rightarrow> handler option) \<Rightarrow> http_request \<Rightarrow> host_state \<Rightarrow>
   http_response \<times> host_state" where
  "serve_http cf files router rq st =
     (case router app_routes (rq_verb rq) (rq_path rq) of
        None \<Rightarrow> (NoRoute, st)
      | Some h \<Rightarrow> handle_http cf files h rq st)"

text \<open>The update at position \<open>i\<close> gets the lock, is stored, and answered with what it stored.\<close>

definition config_locked :: "nat \<Rightarrow> host_state \<Rightarrow> (http_response \<times> host_state) option" where
  "config_locked i st =
     (if i < length (hs_waiting st)
      then case put_store (hs_waiting st ! i) (hs_config st) of
          (Inr config, conf) \<Rightarrow> Some (ConfigBody config, st\<lparr>hs_config := conf,
            hs_waiting := take i (hs_waiting st) @ drop (Suc i) (hs_waiting st)\<rparr>)
        | (Inl (status, msg), conf) \<Rightarrow> Some (Failure status msg, st\<lparr>hs_config := conf\<rparr>)
      else None)"

text \<open>A request on the WebSocket of an open browser session: the bridge is locked while it is handled, so
  requests of several browsers do not overlap.\<close>

definition browser_request :: "serde \<Rightarrow> ClientMessage \<Rightarrow> host_state \<Rightarrow> (ServerMessage \<times> host_state) option" where
  "browser_request sd request st =
     (if 0 < hs_browsers st
      then case handle_request sd request (hs_app st) of (reply, app) \<Rightarrow> Some (reply, st\<lparr>hs_app := app\<rparr>)
      else None)"

datatype host_event =
    HttpArrives http_request
  | ConfigLocked nat
  | BrowserAsks ClientMessage
  | BrowserLeaves
  | NetworkChanges network
  | FilesChange filesystem

definition host_step ::
  "serde \<Rightarrow> config_serde \<Rightarrow> web_files \<Rightarrow> (routes \<Rightarrow> http_method \<Rightarrow> string \<Rightarrow> handler option) \<Rightarrow>
   host_state \<Rightarrow> host_event \<Rightarrow> host_state option" where
  "host_step sd cf files router st e = (case e of
       HttpArrives rq \<Rightarrow> Some (snd (serve_http cf files router rq st))
     | ConfigLocked i \<Rightarrow> map_option snd (config_locked i st)
     | BrowserAsks request \<Rightarrow> map_option snd (browser_request sd request st)
     | BrowserLeaves \<Rightarrow> if 0 < hs_browsers st then Some (st\<lparr>hs_browsers := hs_browsers st - 1\<rparr>) else None
     | NetworkChanges net \<Rightarrow> Some (st\<lparr>hs_app := (hs_app st)\<lparr>st_net := net\<rparr>\<rparr>)
     | FilesChange fs \<Rightarrow> Some (st\<lparr>hs_config := (hs_config st)\<lparr>cs_fs := fs\<rparr>\<rparr>))"

section \<open>Start of the host\<close>

datatype start_failure = LogFailed | UsageError | BindFailed string

text \<open>\<open>main\<close>: the log first, then the arguments (after the program's name), the listening socket and
  the configuration. A failure is a panic.\<close>

definition host_main ::
  "config_serde \<Rightarrow> (string \<rightharpoonup> string) \<Rightarrow> string list \<Rightarrow> (string \<Rightarrow> bool) \<Rightarrow> network \<Rightarrow> filesystem \<Rightarrow> log_state \<Rightarrow>
   start_failure + host_state \<times> log_state" where
  "host_main cf env args can_bind net fs log =
     (case initialize_logging env log of
        None \<Rightarrow> Inl LogFailed
      | Some log \<Rightarrow>
          (case startup_options args of
             None \<Rightarrow> Inl UsageError
           | Some (listen_address, transport) \<Rightarrow>
               if \<not> can_bind listen_address then Inl (BindFailed listen_address)
               else Inr (\<lparr>hs_app = \<lparr>st_bridge = None, st_transport = transport, st_net = net\<rparr>,
                   hs_config = initial_config_state cf env fs, hs_waiting = [], hs_browsers = 0\<rparr>, log)))"

section \<open>What the handlers keep\<close>

lemma put_persist_keeps:
  assumes "put_persist cf config st = (r, st')"
  shows "cs_config st' = cs_config st" "cs_path st' = cs_path st" "r = Inr c \<Longrightarrow> c = trimmed config \<and> in_limits c"
  using assms
  by (auto simp: put_persist_def Let_def validate_host_config_iff [symmetric] split: sum.splits prod.splits)

text \<open>The state is as before but for the configuration's files, the waiting updates and the sessions.\<close>

lemma serve_http_keeps:
  assumes "serve_http cf files router rq st = (response, st')"
  shows "hs_app st' = hs_app st" "cs_config (hs_config st') = cs_config (hs_config st)"
    "cs_path (hs_config st') = cs_path (hs_config st)"
  using assms put_persist_keeps(1,2)
  by (auto simp: serve_http_def handle_http_def split: option.splits handler.splits sum.splits prod.splits)

text \<open>An update starts to wait only through the handler of \<open>PUT /config\<close>.\<close>

lemma serve_http_waiting:
  assumes "serve_http cf files router rq st = (response, st')"
  shows "hs_waiting st' = hs_waiting st \<or>
    (\<exists>config. router app_routes (rq_verb rq) (rq_path rq) = Some ConfigPut \<and> rq_config rq = Inr config \<and>
       in_limits (trimmed config) \<and> hs_waiting st' = hs_waiting st @ [trimmed config])"
proof (cases "router app_routes (rq_verb rq) (rq_path rq)")
  case (Some h)
  then have run: "handle_http cf files h rq st = (response, st')" using assms by (simp add: serve_http_def)
  show ?thesis
  proof (cases "h = ConfigPut")
    case False
    with run show ?thesis by (cases h) (auto simp: handle_http_def)
  next
    case True
    show ?thesis
    proof (cases "rq_config rq")
      case (Inr config)
      obtain r conf where p: "put_persist cf config (hs_config st) = (r, conf)" by fastforce
      show ?thesis
      proof (cases r)
        case (Inl e)
        with run True Inr p show ?thesis by (cases e) (auto simp: handle_http_def)
      next
        case stored: (Inr c)
        with put_persist_keeps(3) [OF p, of c] run True Inr p Some show ?thesis by (auto simp: handle_http_def)
      qed
    qed (use run True in \<open>auto simp: handle_http_def\<close>)
  qed
qed (use assms in \<open>simp add: serve_http_def\<close>)

lemma config_locked_cases:
  assumes "config_locked i st = Some (response, st')"
  obtains "i < length (hs_waiting st)" "response = ConfigBody (hs_waiting st ! i)"
    "st' = st\<lparr>hs_config := (hs_config st)\<lparr>cs_config := hs_waiting st ! i\<rparr>,
       hs_waiting := take i (hs_waiting st) @ drop (Suc i) (hs_waiting st)\<rparr>"
  using assms by (auto simp: config_locked_def put_store_def split: if_splits)

text \<open>The router's table.\<close>

lemma router_finds:
  assumes "documented_router router" "(path, hs) \<in> set app_routes" "(verb, h) \<in> set hs"
  shows "router app_routes verb path = Some h"
proof -
  have "distinct (map fst app_routes)" "distinct (map fst hs)"
    using assms(2) by (auto simp: app_routes_def)
  with assms show ?thesis unfolding documented_router_def by blast
qed

lemma router_put:
  assumes "documented_router router" "router app_routes verb path = Some ConfigPut"
  shows "verb = PUT \<and> path = ''/config''"
proof -
  obtain hs v where "(path, hs) \<in> set app_routes" "(v, ConfigPut) \<in> set hs" "v = verb \<or> verb = HEAD \<and> v = GET"
    using assms unfolding documented_router_def by blast
  then show ?thesis by (auto simp: app_routes_def)
qed

section \<open>The service as a state machine\<close>

definition host_start :: "config_serde \<Rightarrow> host_state \<Rightarrow> bool" where
  "host_start cf st \<longleftrightarrow> (\<exists>env args can_bind net fs log log'. host_main cf env args can_bind net fs log = Inr (st, log'))"

definition host_inv :: "host_state \<Rightarrow> bool" where
  "host_inv st \<longleftrightarrow> config_inv (hs_config st) \<and> list_all in_limits (hs_waiting st) \<and> bridge_inv (hs_app st)"

lemma host_main_cases:
  assumes "host_main cf env args can_bind net fs log = Inr (st, log')"
  obtains address transport where "initialize_logging env log = Some log'" "startup_options args = Some (address, transport)"
    "can_bind address" "st = \<lparr>hs_app = \<lparr>st_bridge = None, st_transport = transport, st_net = net\<rparr>,
       hs_config = initial_config_state cf env fs, hs_waiting = [], hs_browsers = 0\<rparr>"
  using assms by (auto simp: host_main_def split: option.splits prod.splits if_splits)

lemma initial_config_inv: "config_inv (initial_config_state cf env fs)"
  by (rule config.inv_start [of cf]) (auto simp: config_start_def)

lemma host_inv_http:
  assumes "host_inv st" "serve_http cf files router rq st = (response, st')"
  shows "host_inv st'"
  using assms(1) serve_http_keeps [OF assms(2)] serve_http_waiting [OF assms(2)]
  by (auto simp: host_inv_def config_inv_def)

lemma host_inv_step:
  assumes inv: "host_inv st" and step: "host_step sd cf files router st e = Some st'"
  shows "host_inv st'"
proof (cases e)
  case (HttpArrives rq)
  with step have "serve_http cf files router rq st = (fst (serve_http cf files router rq st), st')"
    by (simp add: host_step_def prod_eq_iff)
  with inv show ?thesis by (rule host_inv_http)
next
  case (ConfigLocked i)
  with step obtain response where "config_locked i st = Some (response, st')" by (auto simp: host_step_def)
  then show ?thesis
    by (cases rule: config_locked_cases)
       (use inv in \<open>auto simp: host_inv_def config_inv_def list_all_iff dest: in_set_takeD in_set_dropD\<close>)
next
  case (BrowserAsks request)
  with step obtain reply app where "handle_request sd request (hs_app st) = (reply, app)" "st' = st\<lparr>hs_app := app\<rparr>"
    by (auto simp: host_step_def browser_request_def split: if_splits prod.splits)
  moreover from this have "app_trans sd (hs_app st) request app"
    unfolding app_trans_def by (intro exI [of _ "st_net (hs_app st)"] exI [of _ reply]) simp
  ultimately show ?thesis using inv bridge_inv_step by (auto simp: host_inv_def)
next
  case BrowserLeaves
  with step inv show ?thesis by (auto simp: host_step_def host_inv_def split: if_splits)
next
  case (NetworkChanges net)
  with step inv show ?thesis by (auto simp: host_step_def host_inv_def bridge_inv_def split: option.splits)
next
  case (FilesChange fs)
  with step inv show ?thesis by (auto simp: host_step_def host_inv_def config_inv_def)
qed

interpretation service: invariant_system "host_start cf" "\<lambda>st e st'. host_step sd cf files router st e = Some st'" host_inv
  for sd cf files router
proof unfold_locales
  fix st assume "host_start cf st"
  then obtain env args can_bind net fs log log' where "host_main cf env args can_bind net fs log = Inr (st, log')"
    by (auto simp: host_start_def)
  then show "host_inv st"
    by (cases rule: host_main_cases) (simp add: host_inv_def initial_config_inv bridge_inv_def)
qed (rule host_inv_step)

text \<open>The arguments of the host: the flag, in any place and number, and at most one other.\<close>

lemma startup_loop_result:
  "startup_loop args address transport =
     (let others = filter (\<lambda>a. a \<noteq> ''--debug-raw-tunnel'') args;
          transport' = (if ''--debug-raw-tunnel'' \<in> set args then DebugRawTunnel else transport) in
      case others of
        [] \<Rightarrow> Some (address, transport')
      | [a] \<Rightarrow> if address = None then Some (Some a, transport') else None
      | _ \<Rightarrow> None)"
  by (induction args address transport rule: startup_loop.induct) (auto simp: Let_def split: list.splits)

text \<open>A router that looks the table up.\<close>

definition table_router :: "routes \<Rightarrow> http_method \<Rightarrow> string \<Rightarrow> handler option" where
  "table_router table verb path = Option.bind (map_of table path) (\<lambda>hs. map_of hs verb)"

lemma table_router_documented: "documented_router table_router"
  unfolding documented_router_def table_router_def
  by (auto simp: bind_eq_Some_conv dest: map_of_SomeD)

definition sample_files :: web_files where
  "sample_files = \<lparr>web_index = ''<!doctype html>'', web_javascript = ''start()'', web_stylesheet = ''body {}''\<rparr>"

text \<open>A host that has just started, with a log that can be opened and no stored configuration.\<close>

definition started_host :: host_state where
  "started_host = \<lparr>hs_app = fresh_state, hs_config = initial_config_state host_serde Map.empty empty_fs,
     hs_waiting = [], hs_browsers = 0\<rparr>"

definition put_request :: http_request where
  "put_request = \<lparr>rq_verb = PUT, rq_path = ''/config'', rq_config = Inr default_config\<rparr>"

lemma started: "\<exists>log'. host_main host_serde Map.empty [] (\<lambda>_. True) (st_net fresh_state) empty_fs (sample_log [] []) =
    Inr (started_host, log')"
  by (simp add: host_main_def initialize_logging_def Let_def no_environment path_parent_def path_dir_def
      log_next_result_def open_log_file_def sample_log_def startup_options_def started_host_def fresh_state_def)

lemma started_host_start: "host_start host_serde started_host"
  unfolding host_start_def using started by blast

section \<open>Properties\<close>






text \<open>The control panel is served: a GET of its three paths answers the page, the script and the style
  sheet with their content types, and leaves the service as it was; a GET of the configuration answers the one
  in use.\<close>
theorem panel_served:
  assumes "documented_router router"
  shows "serve_http cf files router \<lparr>rq_verb = GET, rq_path = ''/'', rq_config = c\<rparr> st =
      (Asset ''text/html; charset=utf-8'' (web_index files), st) \<and>
    serve_http cf files router \<lparr>rq_verb = GET, rq_path = ''/app.js'', rq_config = c\<rparr> st =
      (Asset ''text/javascript; charset=utf-8'' (web_javascript files), st) \<and>
    serve_http cf files router \<lparr>rq_verb = GET, rq_path = ''/styles.css'', rq_config = c\<rparr> st =
      (Asset ''text/css; charset=utf-8'' (web_stylesheet files), st) \<and>
    serve_http cf files router \<lparr>rq_verb = GET, rq_path = ''/config'', rq_config = c\<rparr> st =
      (ConfigBody (cs_config (hs_config st)), st)"
proof -
  have "router app_routes GET ''/'' = Some IndexPage" "router app_routes GET ''/app.js'' = Some JavascriptFile"
    "router app_routes GET ''/styles.css'' = Some StylesheetFile" "router app_routes GET ''/config'' = Some ConfigGet"
    by (rule router_finds [OF assms], simp add: app_routes_def, simp)+
  then show ?thesis
    by (simp add: serve_http_def handle_http_def serve_index_def serve_javascript_def serve_stylesheet_def asset_def get_config_def)
qed

theorem panel_served_witness:
  "fst (serve_http host_serde sample_files table_router \<lparr>rq_verb = GET, rq_path = ''/'', rq_config = Inl (400, '''')\<rparr> started_host) =
     Asset ''text/html; charset=utf-8'' ''<!doctype html>''"
  using panel_served [OF table_router_documented, where files = sample_files] by (simp add: sample_files_def)

text \<open>A host that starts has exactly one thing to choose: the raw tunnel debug mode if its flag is among the
  arguments, wherever and however often, and otherwise the controller mode. It got at most one other argument,
  the address it listens on, has no bridge, no browser and no waiting update, and uses the stored configuration
  if that is valid and else the defaults.\<close>
theorem host_starts:
  assumes "host_main cf env args can_bind net fs log = Inr (st, log')"
  shows "st_transport (hs_app st) = (if ''--debug-raw-tunnel'' \<in> set args then DebugRawTunnel else ControllerMode) \<and>
    (case filter (\<lambda>a. a \<noteq> ''--debug-raw-tunnel'') args of
       [] \<Rightarrow> can_bind ''0.0.0.0:8787'' | [address] \<Rightarrow> can_bind address | _ \<Rightarrow> False) \<and>
    st_bridge (hs_app st) = None \<and> hs_browsers st = 0 \<and> hs_waiting st = [] \<and>
    cs_config (hs_config st) = fst (load_host_config cf (host_config_path env) fs) \<and> in_limits (cs_config (hs_config st))"
  using assms
proof (cases rule: host_main_cases)
  case (1 address transport)
  from 1(2,3) have "transport = (if ''--debug-raw-tunnel'' \<in> set args then DebugRawTunnel else ControllerMode) \<and>
    (case filter (\<lambda>a. a \<noteq> ''--debug-raw-tunnel'') args of
       [] \<Rightarrow> can_bind ''0.0.0.0:8787'' | [address] \<Rightarrow> can_bind address | _ \<Rightarrow> False)"
    by (auto simp: startup_options_def startup_loop_result DEFAULT_LISTEN_ADDRESS_def Let_def split: list.splits)
  moreover have "cs_config (hs_config st) = fst (load_host_config cf (host_config_path env) fs)"
    using 1(4) by (simp add: initial_config_state_def split: prod.splits)
  ultimately show ?thesis using 1(4) load_in_limits [of cf "host_config_path env" fs] by simp
qed

theorem host_starts_witness:
  "st_transport (hs_app started_host) = ControllerMode \<and> in_limits (cs_config (hs_config started_host))"
proof -
  obtain log' where "host_main host_serde Map.empty [] (\<lambda>_. True) (st_net fresh_state) empty_fs (sample_log [] []) =
      Inr (started_host, log')" using started by blast
  note outcome = host_starts [OF this]
  then show ?thesis by (intro conjI) (simp, blast)
qed

end
