(* ===== verification/Host_Wire.thy ===== *)
theory Host_Wire
  imports Host_Http
begin

text \<open>
  The JSON forms of the host's own messages and of its configuration, as the derived (de)serializers of
  \<open>src/host/src/main.rs\<close> define them by their attributes: the browser's requests are tagged with their
  type in snake case, and the configuration's percentages are renamed. \<open>serde_json\<close> itself remains a
  parameter of the service; with the reference reader of \<open>Json_Reader\<close> these forms give the instances
  on which the service is executed, and the lemmas show that they are read back as they were written.
\<close>

section \<open>The configuration\<close>

definition endpoint_json :: "EndpointConfig \<Rightarrow> json" where
  "endpoint_json e = JObj [(''host'', JStr (ep_host e)), (''port'', JInt (uint (ep_port e)))]"

definition motor_json :: "MotorConfig \<Rightarrow> json" where
  "motor_json m = JObj [(''id'', JInt (uint (mo_id m))), (''enabled'', JBool (mo_enabled m)),
     (''speedPercent'', JInt (uint (mo_speed_percent m))), (''acceleration'', JInt (uint (mo_acceleration m)))]"

definition joint_json :: "JointConfig \<Rightarrow> json" where
  "joint_json j = JObj [(''id'', JInt (uint (jo_id j))), (''enabled'', JBool (jo_enabled j)),
     (''acceleration'', JInt (uint (jo_acceleration j))), (''torquePercent'', JInt (uint (jo_torque_percent j)))]"

definition config_json :: "HostConfig \<Rightarrow> json" where
  "config_json c = JObj [(''endpoint'', endpoint_json (hc_endpoint c)), (''motor'', motor_json (hc_motor c)),
     (''joints'', JArr (map joint_json (hc_joints c)))]"

text \<open>Reading a required field of an object.\<close>

definition field :: "string \<Rightarrow> (json \<Rightarrow> 'a option) \<Rightarrow> json \<Rightarrow> 'a option" where
  "field key rd v = Option.bind (json_get v key) rd"

definition read_list :: "(json \<Rightarrow> 'a option) \<Rightarrow> json \<Rightarrow> 'a list option" where
  "read_list rd v = (case v of JArr vs \<Rightarrow> all_somes (map rd vs) | _ \<Rightarrow> None)"

definition decode_endpoint :: "json \<Rightarrow> EndpointConfig option" where
  "decode_endpoint v = do {
     host \<leftarrow> field ''host'' read_str v;
     port \<leftarrow> field ''port'' read_u16 v;
     Some \<lparr>ep_host = host, ep_port = port\<rparr>
   }"

definition decode_motor :: "json \<Rightarrow> MotorConfig option" where
  "decode_motor v = do {
     sid \<leftarrow> field ''id'' read_u8 v;
     enabled \<leftarrow> field ''enabled'' as_bool v;
     speed_percent \<leftarrow> field ''speedPercent'' read_u8 v;
     acceleration \<leftarrow> field ''acceleration'' read_u8 v;
     Some \<lparr>mo_id = sid, mo_enabled = enabled, mo_speed_percent = speed_percent, mo_acceleration = acceleration\<rparr>
   }"

definition decode_joint :: "json \<Rightarrow> JointConfig option" where
  "decode_joint v = do {
     sid \<leftarrow> field ''id'' read_u8 v;
     enabled \<leftarrow> field ''enabled'' as_bool v;
     acceleration \<leftarrow> field ''acceleration'' read_u8 v;
     torque_percent \<leftarrow> field ''torquePercent'' read_u8 v;
     Some \<lparr>jo_id = sid, jo_enabled = enabled, jo_acceleration = acceleration, jo_torque_percent = torque_percent\<rparr>
   }"

definition decode_config :: "json \<Rightarrow> HostConfig option" where
  "decode_config v = do {
     endpoint \<leftarrow> field ''endpoint'' decode_endpoint v;
     motor \<leftarrow> field ''motor'' decode_motor v;
     joints \<leftarrow> field ''joints'' (read_list decode_joint) v;
     Some \<lparr>hc_endpoint = endpoint, hc_motor = motor, hc_joints = joints\<rparr>
   }"

section \<open>The requests of the browser\<close>

definition wire_direction :: "json \<Rightarrow> Direction option" where
  "wire_direction v = (case v of
       JStr t \<Rightarrow> if t = ''clockwise'' then Some DirClockwise
         else if t = ''counterclockwise'' then Some DirCounterclockwise else None
     | _ \<Rightarrow> None)"

definition decode_client_message :: "json \<Rightarrow> ClientMessage option" where
  "decode_client_message v = do {
     tag \<leftarrow> field ''type'' read_str v;
     if tag = ''connect'' then do {
       host \<leftarrow> field ''host'' read_str v;
       port \<leftarrow> field ''port'' read_u16 v;
       Some (CmConnect host port)
     } else if tag = ''start_motor'' then do {
       sid \<leftarrow> field ''id'' read_u8 v;
       speed \<leftarrow> field ''speed'' read_u16 v;
       acceleration \<leftarrow> field ''acceleration'' read_u8 v;
       direction \<leftarrow> field ''direction'' wire_direction v;
       Some (CmStartMotor sid speed acceleration direction)
     } else if tag = ''stop_motor'' then map_option CmStopMotor (field ''id'' read_u8 v)
     else if tag = ''move_position'' then do {
       sid \<leftarrow> field ''id'' read_u8 v;
       position \<leftarrow> field ''position'' read_u16 v;
       acceleration \<leftarrow> field ''acceleration'' read_u8 v;
       torque_limit \<leftarrow> field ''torque_limit'' read_u16 v;
       Some (CmMovePosition sid position acceleration torque_limit)
     } else if tag = ''read_position'' then map_option CmReadPosition (field ''id'' read_u8 v)
     else if tag = ''read_positions'' then map_option CmReadPositions (field ''ids'' (read_list read_u8) v)
     else if tag = ''scan_servos'' then do {
       start_id \<leftarrow> field ''start_id'' read_u8 v;
       end_id \<leftarrow> field ''end_id'' read_u8 v;
       Some (CmScanServos start_id end_id)
     } else None
   }"

text \<open>A request as the browser writes it.\<close>

fun client_message_json :: "ClientMessage \<Rightarrow> json" where
  "client_message_json (CmConnect host port) =
     JObj [(''type'', JStr ''connect''), (''host'', JStr host), (''port'', JInt (uint port))]"
| "client_message_json (CmStartMotor sid speed acceleration direction) =
     JObj [(''type'', JStr ''start_motor''), (''id'', JInt (uint sid)), (''speed'', JInt (uint speed)),
       (''acceleration'', JInt (uint acceleration)), (''direction'', JStr (direction_name direction))]"
| "client_message_json (CmStopMotor sid) = JObj [(''type'', JStr ''stop_motor''), (''id'', JInt (uint sid))]"
| "client_message_json (CmMovePosition sid position acceleration torque_limit) =
     JObj [(''type'', JStr ''move_position''), (''id'', JInt (uint sid)), (''position'', JInt (uint position)),
       (''acceleration'', JInt (uint acceleration)), (''torque_limit'', JInt (uint torque_limit))]"
| "client_message_json (CmReadPosition sid) = JObj [(''type'', JStr ''read_position''), (''id'', JInt (uint sid))]"
| "client_message_json (CmReadPositions ids) =
     JObj [(''type'', JStr ''read_positions''), (''ids'', JArr (map (\<lambda>i. JInt (uint i)) ids))]"
| "client_message_json (CmScanServos start_id end_id) =
     JObj [(''type'', JStr ''scan_servos''), (''start_id'', JInt (uint start_id)), (''end_id'', JInt (uint end_id))]"

section \<open>The instances of the service's parameters\<close>

definition reference_config_serde :: config_serde where
  "reference_config_serde = \<lparr>cf_to_pretty = (\<lambda>c. Inr (render (config_json c))),
     cf_from_str = (\<lambda>contents. or_error (Option.bind (read_json contents) decode_config))\<rparr>"

definition reference_from_str :: "string \<Rightarrow> string + ClientMessage" where
  "reference_from_str msg = or_error (Option.bind (read_json msg) decode_client_message)"

section \<open>Reading back what was written\<close>

named_theorems wire \<open>how the readers of fields compute\<close>

lemma field_obj [wire]: "field key rd (JObj kvs) = Option.bind (map_of kvs key) rd"
  by (simp add: field_def json_get_def)

lemma basic_readers [wire]:
  "read_str (JStr t) = Some t" "as_bool (JBool b) = Some b" "wire_direction (JStr (direction_name d)) = Some d"
  by (cases d; simp add: read_str_def as_bool_def wire_direction_def)+

lemma read_list_map [wire]:
  assumes "\<And>x. rd (enc x) = Some x"
  shows "read_list rd (JArr (map enc xs)) = Some xs"
  unfolding read_list_def by (induction xs) (simp_all add: assms comp_def)

lemma decode_parts [wire]:
  "decode_endpoint (endpoint_json e) = Some e" "decode_motor (motor_json m) = Some m"
  "decode_joint (joint_json j) = Some j"
  by (simp_all add: decode_endpoint_def endpoint_json_def decode_motor_def motor_json_def decode_joint_def
      joint_json_def wire)

lemma decode_config_json [wire]: "decode_config (config_json c) = Some c"
  by (simp add: decode_config_def config_json_def wire)

lemma decode_client_message_json [wire]: "decode_client_message (client_message_json m) = Some m"
  by (cases m) (simp_all add: decode_client_message_def wire)

text \<open>The strings of a message are its host name; every other string is a literal.\<close>

lemma direction_name_plain [simp]: "list_all plain_char (direction_name d)"
  by (cases d) (simp_all add: plain_char_def)

lemma config_json_plain: "plain (config_json c) \<longleftrightarrow> list_all plain_char (ep_host (hc_endpoint c))"
  by (simp add: config_json_def endpoint_json_def motor_json_def joint_json_def plain_char_def list_all_iff)

lemma client_message_json_plain:
  "plain (client_message_json m) \<longleftrightarrow> (case m of CmConnect host _ \<Rightarrow> list_all plain_char host | _ \<Rightarrow> True)"
  by (cases m) (simp_all add: plain_char_def list.pred_map comp_def list.pred_True)

text \<open>Both forms are codecs, as values and as texts.\<close>

interpretation config_wire: codec config_json decode_config "\<lambda>_. True"
  by unfold_locales (rule decode_config_json)

interpretation client_wire: codec client_message_json decode_client_message "\<lambda>_. True"
  by unfold_locales (rule decode_client_message_json)

definition plain_host :: "HostConfig \<Rightarrow> bool" where
  "plain_host c \<longleftrightarrow> list_all plain_char (ep_host (hc_endpoint c))"

definition plain_request :: "ClientMessage \<Rightarrow> bool" where
  "plain_request m \<longleftrightarrow> (case m of CmConnect host _ \<Rightarrow> list_all plain_char host | _ \<Rightarrow> True)"

interpretation config_text: codec "\<lambda>c. render (config_json c)" "\<lambda>t. Option.bind (read_json t) decode_config" plain_host
  by unfold_locales (simp add: json_codec.decode_encode config_json_plain plain_host_def wire)

interpretation client_text: codec "\<lambda>m. render (client_message_json m)"
  "\<lambda>t. Option.bind (read_json t) decode_client_message" plain_request
  by unfold_locales (simp add: json_codec.decode_encode client_message_json_plain plain_request_def wire)

lemma reference_config_roundtrip:
  "plain_host c \<Longrightarrow> cf_from_str reference_config_serde (render (config_json c)) = Inr c"
  by (simp add: reference_config_serde_def or_error_def config_text.decode_encode)

lemma reference_from_str_reads:
  "plain_request m \<Longrightarrow> reference_from_str (render (client_message_json m)) = Inr m"
  by (simp add: reference_from_str_def or_error_def client_text.decode_encode)

end
