(* ===== verification/Raw_Tunnel.thy ===== *)
theory Raw_Tunnel
  imports Fetchline_Prelude "HOL-Library.Sublist"
begin

text \<open>
  The raw UART debug tunnel of the firmware (\<open>src/src/bin/main.rs\<close>): the switch
  \<open>RawTunnelControl\<close> that the JSON-RPC handlers flip, and the task
  \<open>raw_tunnel_service\<close> with \<open>raw_client_session\<close>, which listens on the raw port
  while the switch is on and copies bytes between one TCP client and the UART. The task is a state
  machine: its phases are the suspension points of the two functions, an event is what completes the
  wait there, and a step runs the code up to the next suspension point. The handlers' calls of
  \<open>enable\<close> and \<open>disable\<close> are events too, so every interleaving is covered.
\<close>

section \<open>The switch\<close>

datatype RawTunnelCommand = Enable | Disable

text \<open>The signal holds at most one command: signalling overwrites one not yet taken.\<close>

record RawTunnelControl =
  rt_enabled :: bool
  rt_command :: "RawTunnelCommand option"

definition raw_new :: RawTunnelControl where
  "raw_new = \<lparr>rt_enabled = False, rt_command = None\<rparr>"

definition raw_is_enabled :: "RawTunnelControl \<Rightarrow> bool" where
  "raw_is_enabled c = rt_enabled c"

definition raw_enable :: "RawTunnelControl \<Rightarrow> RawTunnelControl" where
  "raw_enable c =
     (let changed = \<not> rt_enabled c; c = c\<lparr>rt_enabled := True\<rparr> in
      if changed then c\<lparr>rt_command := Some Enable\<rparr> else c)"

definition raw_disable :: "RawTunnelControl \<Rightarrow> RawTunnelControl" where
  "raw_disable c =
     (let changed = rt_enabled c; c = c\<lparr>rt_enabled := False\<rparr> in
      if changed then c\<lparr>rt_command := Some Disable\<rparr> else c)"

section \<open>The task\<close>

datatype RawClientExit = ClientClosed | Disabled | NetworkError

definition COPY_BUFFER_SIZE :: nat where "COPY_BUFFER_SIZE = 512"

text \<open>
  The suspension points: waiting for a command while switched off; for the network configuration;
  for a command or a client; for one of command, client data and UART data (with the count of
  consecutive UART errors); for a write to the UART or to the client; for the pause after a UART
  error; for the reset of the socket to be sent (and whether a pause follows); for that pause.
\<close>

datatype raw_phase =
    WaitCommand
  | WaitConfig
  | Listening
  | Copying u32
  | WritingUart u32 "u8 list"
  | WritingNet u32 "u8 list"
  | ReadPause u32
  | Releasing bool
  | AcceptPause

record raw_state =
  raw_ctl :: RawTunnelControl
  raw_phase :: raw_phase
  net_in :: "u8 list"
  uart_out :: "u8 list"
  uart_in :: "u8 list"
  net_out :: "u8 list"

text \<open>\<open>WriteFailed n\<close> is a write that fails after \<open>n\<close> bytes went out.\<close>

datatype raw_event =
    RpcEnable
  | RpcDisable
  | CommandReady
  | ConfigUp
  | AcceptDone bool
  | NetRead "u8 list option"
  | UartRead "u8 list option"
  | WriteDone
  | WriteFailed nat
  | TimerDone
  | FlushDone

definition saturating_succ :: "u32 \<Rightarrow> u32" where
  "saturating_succ n = (if n = - 1 then n else n + 1)"

text \<open>The top of the service loop, which runs without suspension.\<close>

definition service_top :: "raw_state \<Rightarrow> raw_state" where
  "service_top s =
     (if \<not> raw_is_enabled (raw_ctl s) then s\<lparr>raw_phase := WaitCommand\<rparr> else s\<lparr>raw_phase := WaitConfig\<rparr>)"

definition take_command :: "raw_state \<Rightarrow> (RawTunnelCommand \<times> raw_state) option" where
  "take_command s = (case rt_command (raw_ctl s) of
       Some c \<Rightarrow> Some (c, s\<lparr>raw_ctl := (raw_ctl s)\<lparr>rt_command := None\<rparr>\<rparr>)
     | None \<Rightarrow> None)"

text \<open>The session ended: every exit releases the socket.\<close>

definition session_exit :: "RawClientExit \<Rightarrow> raw_state \<Rightarrow> raw_state" where
  "session_exit _ s = s\<lparr>raw_phase := Releasing False\<rparr>"

text \<open>One turn of \<open>raw_client_session\<close>. The futures of a \<open>select\<close> are polled
  in order, so client or UART data is taken only when no command is pending.\<close>

fun client_session_step :: "u32 \<Rightarrow> raw_event \<Rightarrow> raw_state \<Rightarrow> raw_state option" where
  "client_session_step errors CommandReady s =
     (case take_command s of
        None \<Rightarrow> None
      | Some (Disable, s') \<Rightarrow> Some (session_exit Disabled s')
      | Some (Enable, s') \<Rightarrow> Some s')"
| "client_session_step errors (NetRead result) s =
     (if rt_command (raw_ctl s) \<noteq> None then None
      else case result of
          None \<Rightarrow> Some (session_exit NetworkError s)
        | Some bytes \<Rightarrow>
            if length bytes > COPY_BUFFER_SIZE then None
            else if bytes = [] then Some (session_exit ClientClosed s)
            else Some (s\<lparr>raw_phase := WritingUart errors bytes, net_in := net_in s @ bytes\<rparr>))"
| "client_session_step errors (UartRead result) s =
     (if rt_command (raw_ctl s) \<noteq> None then None
      else case result of
          None \<Rightarrow> Some (s\<lparr>raw_phase := ReadPause (saturating_succ errors)\<rparr>)
        | Some bytes \<Rightarrow>
            if length bytes > COPY_BUFFER_SIZE then None
            else if bytes = [] then Some s
            else Some (s\<lparr>raw_phase := WritingNet 0 bytes, uart_in := uart_in s @ bytes\<rparr>))"
| "client_session_step errors _ s = None"

definition listening_step :: "raw_event \<Rightarrow> raw_state \<Rightarrow> raw_state option" where
  "listening_step e s =
     (case e of
        CommandReady \<Rightarrow> map_option (\<lambda>(_, s'). s'\<lparr>raw_phase := Releasing False\<rparr>) (take_command s)
      | AcceptDone ok \<Rightarrow>
          if rt_command (raw_ctl s) \<noteq> None then None
          else if ok then
            Some (s\<lparr>raw_phase := Copying 0, net_in := [], uart_out := [], uart_in := [], net_out := []\<rparr>)
          else Some (s\<lparr>raw_phase := Releasing True\<rparr>)
      | _ \<Rightarrow> None)"

text \<open>One step of the whole: a handler flips the switch, or the task moves.\<close>

definition raw_step :: "raw_state \<Rightarrow> raw_event \<Rightarrow> raw_state option" where
  "raw_step s e =
     (case e of
        RpcEnable \<Rightarrow> Some (s\<lparr>raw_ctl := raw_enable (raw_ctl s)\<rparr>)
      | RpcDisable \<Rightarrow> Some (s\<lparr>raw_ctl := raw_disable (raw_ctl s)\<rparr>)
      | _ \<Rightarrow>
        (case raw_phase s of
           WaitCommand \<Rightarrow>
             (if e = CommandReady then map_option (\<lambda>(_, s'). service_top s') (take_command s) else None)
         | WaitConfig \<Rightarrow> (if e = ConfigUp then Some (s\<lparr>raw_phase := Listening\<rparr>) else None)
         | Listening \<Rightarrow> listening_step e s
         | Copying errors \<Rightarrow> client_session_step errors e s
         | WritingUart errors bytes \<Rightarrow>
             (case e of
                WriteDone \<Rightarrow> Some (s\<lparr>raw_phase := Copying errors, uart_out := uart_out s @ bytes\<rparr>)
              | WriteFailed n \<Rightarrow> Some (session_exit NetworkError (s\<lparr>uart_out := uart_out s @ take n bytes\<rparr>))
              | _ \<Rightarrow> None)
         | WritingNet errors bytes \<Rightarrow>
             (case e of
                WriteDone \<Rightarrow> Some (s\<lparr>raw_phase := Copying errors, net_out := net_out s @ bytes\<rparr>)
              | WriteFailed n \<Rightarrow> Some (session_exit NetworkError (s\<lparr>net_out := net_out s @ take n bytes\<rparr>))
              | _ \<Rightarrow> None)
         | ReadPause errors \<Rightarrow> (if e = TimerDone then Some (s\<lparr>raw_phase := Copying errors\<rparr>) else None)
         | Releasing pause \<Rightarrow>
             (if e = FlushDone then Some (if pause then s\<lparr>raw_phase := AcceptPause\<rparr> else service_top s) else None)
         | AcceptPause \<Rightarrow> (if e = TimerDone then Some (service_top s) else None)))"

definition raw_start :: "raw_state \<Rightarrow> bool" where
  "raw_start s \<longleftrightarrow> s = service_top \<lparr>raw_ctl = raw_new, raw_phase = WaitCommand,
     net_in = [], uart_out = [], uart_in = [], net_out = []\<rparr>"

definition raw_trans :: "raw_state \<Rightarrow> raw_event \<Rightarrow> raw_state \<Rightarrow> bool" where
  "raw_trans s e t \<longleftrightarrow> raw_step s e = Some t"

section \<open>The invariant\<close>

text \<open>A phase in which the raw port is open or being served.\<close>

fun serving :: "raw_phase \<Rightarrow> bool" where
  "serving WaitConfig = True"
| "serving Listening = True"
| "serving (Copying _) = True"
| "serving (WritingUart _ _) = True"
| "serving (WritingNet _ _) = True"
| "serving (ReadPause _) = True"
| "serving _ = False"

definition switch_inv :: "raw_state \<Rightarrow> bool" where
  "switch_inv s \<longleftrightarrow>
     (case rt_command (raw_ctl s) of
        Some c \<Rightarrow> (c = Enable) = rt_enabled (raw_ctl s)
      | None \<Rightarrow> (raw_phase s = WaitCommand \<longrightarrow> \<not> rt_enabled (raw_ctl s)) \<and>
                (serving (raw_phase s) \<longrightarrow> rt_enabled (raw_ctl s)))"

fun in_flight_uart :: "raw_phase \<Rightarrow> u8 list" where
  "in_flight_uart (WritingUart _ bs) = bs"
| "in_flight_uart _ = []"

fun in_flight_net :: "raw_phase \<Rightarrow> u8 list" where
  "in_flight_net (WritingNet _ bs) = bs"
| "in_flight_net _ = []"

definition copy_inv :: "raw_state \<Rightarrow> bool" where
  "copy_inv s \<longleftrightarrow>
     prefix (uart_out s) (net_in s) \<and> prefix (net_out s) (uart_in s) \<and>
     (serving (raw_phase s) \<longrightarrow> raw_phase s \<noteq> WaitConfig \<longrightarrow> raw_phase s \<noteq> Listening \<longrightarrow>
        net_in s = uart_out s @ in_flight_uart (raw_phase s) \<and>
        uart_in s = net_out s @ in_flight_net (raw_phase s))"

lemmas raw_step_defs = raw_step_def service_top_def take_command_def session_exit_def listening_step_def
  raw_enable_def raw_disable_def raw_is_enabled_def raw_new_def Let_def

lemma client_session_step_cases:
  assumes "client_session_step errors e s = Some t"
  obtains (disabled) "rt_command (raw_ctl s) = Some Disable"
      "t = s\<lparr>raw_ctl := (raw_ctl s)\<lparr>rt_command := None\<rparr>, raw_phase := Releasing False\<rparr>"
  | (enabled) "rt_command (raw_ctl s) = Some Enable" "t = s\<lparr>raw_ctl := (raw_ctl s)\<lparr>rt_command := None\<rparr>\<rparr>"
  | (closed) "rt_command (raw_ctl s) = None" "t = s\<lparr>raw_phase := Releasing False\<rparr>"
  | (net) bytes where "rt_command (raw_ctl s) = None" "e = NetRead (Some bytes)" "bytes \<noteq> []"
      "length bytes \<le> 512" "t = s\<lparr>raw_phase := WritingUart errors bytes, net_in := net_in s @ bytes\<rparr>"
  | (pause) "rt_command (raw_ctl s) = None" "t = s\<lparr>raw_phase := ReadPause (saturating_succ errors)\<rparr>"
  | (idle) "rt_command (raw_ctl s) = None" "t = s"
  | (uart) bytes where "rt_command (raw_ctl s) = None" "e = UartRead (Some bytes)" "bytes \<noteq> []"
      "length bytes \<le> 512" "t = s\<lparr>raw_phase := WritingNet 0 bytes, uart_in := uart_in s @ bytes\<rparr>"
  using assms
  by (cases "(errors, e, s)" rule: client_session_step.cases)
     (auto simp: take_command_def session_exit_def COPY_BUFFER_SIZE_def
       split: option.splits RawTunnelCommand.splits if_splits)

interpretation switch: invariant_system raw_start raw_trans switch_inv
proof unfold_locales
  fix s assume "raw_start s"
  then show "switch_inv s" by (simp add: raw_start_def switch_inv_def raw_step_defs)
next
  fix s e t assume inv: "switch_inv s" and "raw_trans s e t"
  then have step: "raw_step s e = Some t" by (simp add: raw_trans_def)
  show "switch_inv t"
  proof (cases "\<exists>n. raw_phase s = Copying n \<and> e \<noteq> RpcEnable \<and> e \<noteq> RpcDisable")
    case True
    then obtain n where phase: "raw_phase s = Copying n" and "client_session_step n e s = Some t"
      using step by (auto simp: raw_step_def split: raw_event.splits)
    from this(2) show ?thesis
      using inv phase by (cases rule: client_session_step_cases) (auto simp: switch_inv_def)
  next
    case False
    with inv step show ?thesis
      by (auto simp: switch_inv_def raw_step_defs
          split: raw_event.splits raw_phase.splits option.splits RawTunnelCommand.splits if_splits)
  qed
qed

interpretation copying: invariant_system raw_start raw_trans copy_inv
proof unfold_locales
  fix s assume "raw_start s"
  then show "copy_inv s" by (simp add: raw_start_def copy_inv_def raw_step_defs)
next
  fix s e t assume inv: "copy_inv s" and "raw_trans s e t"
  then have step: "raw_step s e = Some t" by (simp add: raw_trans_def)
  show "copy_inv t"
  proof (cases "\<exists>n. raw_phase s = Copying n \<and> e \<noteq> RpcEnable \<and> e \<noteq> RpcDisable")
    case True
    then obtain n where phase: "raw_phase s = Copying n" and "client_session_step n e s = Some t"
      using step by (auto simp: raw_step_def split: raw_event.splits)
    from this(2) show ?thesis
      using inv phase by (cases rule: client_session_step_cases) (auto simp: copy_inv_def)
  next
    case False
    with inv step show ?thesis
      by (auto simp: copy_inv_def raw_step_defs take_is_prefix
          split: raw_event.splits raw_phase.splits option.splits RawTunnelCommand.splits if_splits)
  qed
qed

text \<open>Concrete executions.\<close>

definition raw_initial :: raw_state where
  "raw_initial = \<lparr>raw_ctl = raw_new, raw_phase = WaitCommand,
     net_in = [], uart_out = [], uart_in = [], net_out = []\<rparr>"

lemma raw_run_reachable: "run raw_step raw_initial es = Some s \<Longrightarrow> reachable raw_start raw_trans s"
  by (rule run_reachable [of raw_step raw_trans raw_start raw_initial])
     (auto simp: raw_trans_def raw_start_def raw_initial_def raw_step_defs intro!: reachable_start)

section \<open>Properties\<close>

text \<open>C18. Switching the tunnel is never lost, however the handlers' calls interleave with the task: in every
  reachable state, if the tunnel is switched on while the task waits for a command, an Enable command
  is pending that will wake it, and if it is switched off while the task serves the raw port, a
  Disable command is pending that will end the service.\<close>
theorem raw_tunnel_no_lost_wakeup:
  assumes "reachable raw_start raw_trans s"
  shows "if rt_enabled (raw_ctl s)
    then raw_phase s = WaitCommand \<longrightarrow> rt_command (raw_ctl s) = Some Enable
    else serving (raw_phase s) \<longrightarrow> rt_command (raw_ctl s) = Some Disable"
  using switch.inv_reachable [OF assms]
  by (cases "rt_command (raw_ctl s)") (auto simp: switch_inv_def intro: RawTunnelCommand.exhaust)

theorem raw_tunnel_no_lost_wakeup_witness:
  "\<exists>s. run raw_step raw_initial [RpcEnable, RpcDisable, RpcEnable] = Some s \<and>
     raw_phase s = WaitCommand \<and> rt_enabled (raw_ctl s) \<and> rt_command (raw_ctl s) = Some Enable"
proof -
  obtain s where s: "run raw_step raw_initial [RpcEnable, RpcDisable, RpcEnable] = Some s"
    "raw_phase s = WaitCommand" "rt_enabled (raw_ctl s)"
    by (simp add: raw_initial_def raw_step_defs)
  with raw_tunnel_no_lost_wakeup [OF raw_run_reachable [OF s(1)]] show ?thesis by auto
qed

text \<open>The raw tunnel starts to forward client bytes to the servo bus only while it is switched on: in
  every reachable state, a step that takes a chunk from the client for the UART happens with the
  switch on, and the chunk is non-empty and fits the copy buffer.\<close>
theorem raw_forwards_only_when_enabled:
  assumes "reachable raw_start raw_trans s" "raw_trans s e t" "raw_phase t = WritingUart n bs"
    and "raw_phase s \<noteq> WritingUart n bs"
  shows "rt_enabled (raw_ctl s) \<and> e = NetRead (Some bs) \<and> bs \<noteq> [] \<and> length bs \<le> 512"
proof -
  from assms(2-4) obtain m where phase: "raw_phase s = Copying m" and "client_session_step m e s = Some t"
    by (auto simp: raw_trans_def raw_step_defs split: raw_event.splits raw_phase.splits option.splits if_splits)
  from this(2) show ?thesis
    using switch.inv_reachable [OF assms(1)] phase assms(3)
    by (cases rule: client_session_step_cases) (auto simp: switch_inv_def)
qed

theorem raw_forwards_only_when_enabled_witness:
  "\<exists>s t. run raw_step raw_initial [RpcEnable, CommandReady, ConfigUp, AcceptDone True] = Some s \<and>
     raw_trans s (NetRead (Some [7, 8])) t \<and> raw_phase t = WritingUart 0 [7, 8] \<and> rt_enabled (raw_ctl s)"
proof -
  obtain s t where s: "run raw_step raw_initial [RpcEnable, CommandReady, ConfigUp, AcceptDone True] = Some s"
    "raw_trans s (NetRead (Some [7, 8])) t" "raw_phase t = WritingUart 0 [7, 8]" "raw_phase s \<noteq> WritingUart 0 [7, 8]"
    by (simp add: raw_trans_def raw_initial_def raw_step_defs COPY_BUFFER_SIZE_def)
  with raw_forwards_only_when_enabled [OF raw_run_reachable [OF s(1)] s(2-4)] show ?thesis by auto
qed

text \<open>C29. The tunnel is transparent: in every reachable state the bytes written to the UART in the current
  session are a prefix of the bytes read from the client, and the bytes written to the client a prefix
  of those read from the UART; while the session is between two copies both are complete. Nothing is
  reordered, duplicated or invented.\<close>
theorem raw_tunnel_transparent:
  assumes "reachable raw_start raw_trans s"
  shows "prefix (uart_out s) (net_in s) \<and> prefix (net_out s) (uart_in s) \<and>
    (\<forall>n. raw_phase s = Copying n \<longrightarrow> uart_out s = net_in s \<and> net_out s = uart_in s)"
  using copying.inv_reachable [OF assms] by (auto simp: copy_inv_def)

theorem raw_tunnel_transparent_witness:
  "\<exists>s. run raw_step raw_initial
       [RpcEnable, CommandReady, ConfigUp, AcceptDone True, NetRead (Some [7, 8]), WriteDone] = Some s \<and>
     raw_phase s = Copying 0 \<and> net_in s = [7, 8] \<and> uart_out s = net_in s"
proof -
  obtain s where s: "run raw_step raw_initial
       [RpcEnable, CommandReady, ConfigUp, AcceptDone True, NetRead (Some [7, 8]), WriteDone] = Some s"
    "raw_phase s = Copying 0" "net_in s = [7, 8]"
    by (simp add: raw_initial_def raw_step_defs COPY_BUFFER_SIZE_def)
  with raw_tunnel_transparent [OF raw_run_reachable [OF s(1)]] show ?thesis by auto
qed

end
