(* ===== verification/Controller_Rpc.thy ===== *)
theory Controller_Rpc
  imports Sts_Bus Raw_Tunnel Json Protocol
begin

text \<open>
  The JSON-RPC layer of the firmware (\<open>src/src/bin/main.rs\<close>): the request and response
  types with their serialization, the table of failures, \<open>command_from_request\<close> and the
  whole handler \<open>handle_json_rpc\<close>, over the state it works on: both halves of the UART and
  the raw-tunnel switch. The deserializer and the serializer of \<open>serde_json_core\<close> are
  parameters. The lemmas say when the servo bus is touched, which response answers which request,
  and that every response fits the response buffer.
\<close>

section \<open>Requests\<close>

datatype MotorDirection = Clockwise | Counterclockwise

record JsonRpcParams =
  p_id :: "u8 option"
  p_speed :: "u16 option"
  p_acceleration :: "u8 option"
  p_direction :: "MotorDirection option"
  p_position :: "u16 option"
  p_torque_limit :: "u16 option"
  p_ids :: "u8 list option"
  p_start_id :: "u8 option"
  p_end_id :: "u8 option"

definition default_params :: JsonRpcParams where
  "default_params = \<lparr>p_id = None, p_speed = None, p_acceleration = None, p_direction = None,
     p_position = None, p_torque_limit = None, p_ids = None, p_start_id = None, p_end_id = None\<rparr>"

record JsonRpcRequest =
  rq_jsonrpc :: string
  rq_method :: string
  rq_params :: JsonRpcParams
  rq_id :: "u32 option"

section \<open>Failures and responses\<close>

record RpcFailure =
  rf_code :: int
  rf_message :: string

definition PARSE_ERROR :: RpcFailure where
  "PARSE_ERROR = \<lparr>rf_code = - 32700, rf_message = ''Parse error''\<rparr>"
definition INVALID_REQUEST :: RpcFailure where
  "INVALID_REQUEST = \<lparr>rf_code = - 32600, rf_message = ''Invalid Request''\<rparr>"
definition METHOD_NOT_FOUND :: RpcFailure where
  "METHOD_NOT_FOUND = \<lparr>rf_code = - 32601, rf_message = ''Method not found''\<rparr>"
definition INVALID_PARAMS :: RpcFailure where
  "INVALID_PARAMS = \<lparr>rf_code = - 32602, rf_message = ''Invalid params''\<rparr>"
definition RAW_TUNNEL_ACTIVE :: RpcFailure where
  "RAW_TUNNEL_ACTIVE = \<lparr>rf_code = - 32010, rf_message = ''Raw tunnel is active''\<rparr>"
definition SERVO_TIMEOUT :: RpcFailure where
  "SERVO_TIMEOUT = \<lparr>rf_code = - 32001, rf_message = ''STS servo timeout''\<rparr>"
definition SERVO_REPLY :: RpcFailure where
  "SERVO_REPLY = \<lparr>rf_code = - 32002, rf_message = ''Invalid STS servo reply''\<rparr>"
definition SERVO_REPORTED_ERROR :: RpcFailure where
  "SERVO_REPORTED_ERROR = \<lparr>rf_code = - 32003, rf_message = ''Servo reported STS error''\<rparr>"
definition SERVO_TRANSPORT :: RpcFailure where
  "SERVO_TRANSPORT = \<lparr>rf_code = - 32004, rf_message = ''STS UART transport failure''\<rparr>"

fun rpc_failure :: "ServoFailure \<Rightarrow> RpcFailure" where
  "rpc_failure InvalidServoId = INVALID_PARAMS"
| "rpc_failure InvalidArgument = INVALID_PARAMS"
| "rpc_failure Timeout = SERVO_TIMEOUT"
| "rpc_failure InvalidReply = SERVO_REPLY"
| "rpc_failure ReportedError = SERVO_REPORTED_ERROR"
| "rpc_failure Transport = SERVO_TRANSPORT"

definition serialize_position :: "PositionResult \<Rightarrow> json" where
  "serialize_position p =
     JObj [(''id'', JInt (uint (pr_id p))), (''position'', JInt (sint (pr_position p)))]"

fun serialize_result :: "ControllerResult \<Rightarrow> json" where
  "serialize_result Ready = JObj [(''ready'', JBool True)]"
| "serialize_result Accepted = JObj [(''accepted'', JBool True)]"
| "serialize_result (Position p) = serialize_position p"
| "serialize_result (Positions ps) = JObj [(''positions'', JArr (map serialize_position ps))]"
| "serialize_result (Servos ids) = JObj [(''ids'', JArr (map (\<lambda>i. JInt (uint i)) ids))]"
| "serialize_result (RawTunnel active) =
     (if active then JObj [(''port'', JInt (uint RAW_TUNNEL_TCP_PORT)), (''active'', JBool active)]
      else JObj [(''active'', JBool active)])"

definition success_json :: "u32 \<Rightarrow> ControllerResult \<Rightarrow> json" where
  "success_json rid res =
     JObj [(''jsonrpc'', JStr ''2.0''), (''result'', serialize_result res), (''id'', JInt (uint rid))]"

definition error_json :: "u32 option \<Rightarrow> RpcFailure \<Rightarrow> json" where
  "error_json rid failure =
     JObj [(''jsonrpc'', JStr ''2.0''),
           (''error'', JObj [(''code'', JInt (rf_code failure)), (''message'', JStr (rf_message failure))]),
           (''id'', case rid of Some i \<Rightarrow> JInt (uint i) | None \<Rightarrow> JNull)]"

definition encode_success :: "serializer \<Rightarrow> nat \<Rightarrow> u32 \<Rightarrow> ControllerResult \<Rightarrow> string option" where
  "encode_success ser buffer rid res = ser (success_json rid res) buffer"

definition encode_error :: "serializer \<Rightarrow> nat \<Rightarrow> u32 option \<Rightarrow> RpcFailure \<Rightarrow> string option" where
  "encode_error ser buffer rid failure = ser (error_json rid failure) buffer"

section \<open>The handler\<close>

definition ok_or_invalid :: "'a option \<Rightarrow> RpcFailure + 'a" where
  "ok_or_invalid x = (case x of Some a \<Rightarrow> Inr a | None \<Rightarrow> Inl INVALID_PARAMS)"

definition and_then :: "'e + 'a \<Rightarrow> ('a \<Rightarrow> 'e + 'b) \<Rightarrow> 'e + 'b" where
  "and_then m k = (case m of Inl e \<Rightarrow> Inl e | Inr a \<Rightarrow> k a)"

definition command_from_request :: "string \<Rightarrow> JsonRpcParams \<Rightarrow> RpcFailure + ControllerCommand" where
  "command_from_request method params =
     (if method = ''motor.start'' then
        and_then (ok_or_invalid (p_id params)) (\<lambda>sid.
        and_then (ok_or_invalid (p_direction params)) (\<lambda>direction.
        and_then (ok_or_invalid (p_speed params)) (\<lambda>speed.
        and_then (ok_or_invalid (p_acceleration params)) (\<lambda>acceleration.
          Inr (StartMotor sid (direction = Counterclockwise) speed acceleration)))))
      else if method = ''motor.stop'' then
        and_then (ok_or_invalid (p_id params)) (\<lambda>sid. Inr (StopMotor sid))
      else if method = ''servo.setPosition'' then
        and_then (ok_or_invalid (p_id params)) (\<lambda>sid.
        and_then (ok_or_invalid (p_position params)) (\<lambda>position.
        and_then (ok_or_invalid (p_acceleration params)) (\<lambda>acceleration.
        and_then (ok_or_invalid (p_torque_limit params)) (\<lambda>torque_limit.
          Inr (SetPosition sid position acceleration torque_limit)))))
      else if method = ''servo.getPosition'' then
        and_then (ok_or_invalid (p_id params)) (\<lambda>sid. Inr (GetPosition sid))
      else if method = ''servo.getPositions'' then
        and_then (ok_or_invalid (p_ids params)) (\<lambda>ids. Inr (GetPositions ids))
      else if method = ''servo.scan'' then
        and_then (ok_or_invalid (p_start_id params)) (\<lambda>start_id.
        and_then (ok_or_invalid (p_end_id params)) (\<lambda>end_id. Inr (ScanServos start_id end_id)))
      else Inl METHOD_NOT_FOUND)"

text \<open>What the handler works on: the two shared UART halves and the raw-tunnel switch.\<close>

record mcu =
  mcu_uart :: uart
  mcu_raw :: RawTunnelControl

definition rpc_result :: "JsonRpcRequest \<Rightarrow> (mcu, RpcFailure, ControllerResult) action" where
  "rpc_result request = (\<lambda>s.
     if rq_method request = ''system.ping'' then (Inr Ready, s)
     else if rq_method request = ''debug.enableRawTunnel'' then
       (Inr (RawTunnel True), s\<lparr>mcu_raw := raw_enable (mcu_raw s)\<rparr>)
     else if rq_method request = ''debug.disableRawTunnel'' then
       (Inr (RawTunnel False), s\<lparr>mcu_raw := raw_disable (mcu_raw s)\<rparr>)
     else if raw_is_enabled (mcu_raw s) then (Inl RAW_TUNNEL_ACTIVE, s)
     else case command_from_request (rq_method request) (rq_params request) of
         Inl e \<Rightarrow> (Inl e, s)
       | Inr command \<Rightarrow>
           (case execute_command command (mcu_uart s) of
              (Inr r, u) \<Rightarrow> (Inr r, s\<lparr>mcu_uart := u\<rparr>)
            | (Inl e, u) \<Rightarrow> (Inl (rpc_failure e), s\<lparr>mcu_uart := u\<rparr>)))"

text \<open>The response text, or \<open>None\<close> when there is nothing to send.\<close>

definition handle_json_rpc ::
  "(string \<Rightarrow> JsonRpcRequest option) \<Rightarrow> serializer \<Rightarrow> string \<Rightarrow> nat \<Rightarrow> mcu \<Rightarrow> string option \<times> mcu" where
  "handle_json_rpc from_slice ser msg buffer s =
     (case from_slice msg of
        None \<Rightarrow> (encode_error ser buffer None PARSE_ERROR, s)
      | Some request \<Rightarrow>
          if rq_jsonrpc request \<noteq> ''2.0'' then (encode_error ser buffer (rq_id request) INVALID_REQUEST, s)
          else
            (case rpc_result request s of
               (res, s') \<Rightarrow>
                 (case rq_id request of
                    None \<Rightarrow> (None, s')
                  | Some rid \<Rightarrow>
                      (case res of
                         Inr r \<Rightarrow> (encode_success ser buffer rid r, s')
                       | Inl e \<Rightarrow> (encode_error ser buffer (Some rid) e, s')))))"

definition JSON_RPC_BUFFER_SIZE :: nat where "JSON_RPC_BUFFER_SIZE = 1024"

section \<open>Commands from requests\<close>

lemmas command_from_request_simps = command_from_request_def and_then_def ok_or_invalid_def

lemma rpc_result_uart:
  assumes "rpc_result request s = (res, s')" "mcu_uart s' \<noteq> mcu_uart s"
  shows "\<not> rt_enabled (mcu_raw s) \<and>
    (\<exists>command. command_from_request (rq_method request) (rq_params request) = Inr command \<and>
       mcu_uart s' = snd (execute_command command (mcu_uart s)) \<and> mcu_raw s' = mcu_raw s)"
  using assms
  by (auto simp: rpc_result_def raw_is_enabled_def split: if_splits sum.splits prod.splits)

section \<open>Every response fits\<close>

text \<open>The size of the results: what an executed command can return.\<close>

definition small_result :: "ControllerResult \<Rightarrow> bool" where
  "small_result r = (case r of
       Positions ps \<Rightarrow> length ps \<le> 6
     | Servos ids \<Rightarrow> distinct ids \<and> 0 \<notin> set ids \<and> list_all (\<lambda>i. i \<le> 253) ids
     | _ \<Rightarrow> True)"

lemma execute_command_small:
  assumes "execute_command command u = (Inr r, u')"
  shows "small_result r"
proof -
  from assms obtain v where d: "dispatch_command command u = (Inr r, v)"
    by (auto simp: execute_command_def split: prod.splits sum.splits)
  show ?thesis
  proof (cases command)
    case (GetPositions ids)
    with d obtain ps where "read_positions ids u = (Inr ps, v)" "r = Positions ps"
      by (cases rule: try_then_cases [of "read_positions ids" u]) (auto simp: return_ok_def)
    then show ?thesis
      using read_positions_loop_ok [of ids "[]" u ps v]
      by (cases ids) (auto simp: small_result_def read_positions_def MAX_POSITION_BATCH_def return_ok_def)
  next
    case (ScanServos lo hi)
    with d obtain ids where sc: "scan_servos lo hi u = (Inr ids, v)" "r = Servos ids"
      by (cases rule: try_then_cases [of "scan_servos lo hi" u]) (auto simp: return_ok_def)
    then show ?thesis
      using scan_servos_ok [OF sc(1)] strict_sorted_iff [of ids]
      by (auto simp: small_result_def list_all_iff word_le_nat_alt unat_eq_0 [symmetric])
  qed (use d in \<open>auto simp: small_result_def try_then_def return_ok_def split: prod.splits sum.splits\<close>)
qed

definition failures :: "RpcFailure list" where
  "failures = [PARSE_ERROR, INVALID_REQUEST, METHOD_NOT_FOUND, INVALID_PARAMS, RAW_TUNNEL_ACTIVE,
     SERVO_TIMEOUT, SERVO_REPLY, SERVO_REPORTED_ERROR, SERVO_TRANSPORT]"

lemmas failure_defs = PARSE_ERROR_def INVALID_REQUEST_def METHOD_NOT_FOUND_def INVALID_PARAMS_def
  RAW_TUNNEL_ACTIVE_def SERVO_TIMEOUT_def SERVO_REPLY_def SERVO_REPORTED_ERROR_def SERVO_TRANSPORT_def

lemma constants_listed:
  "PARSE_ERROR \<in> set failures" "INVALID_REQUEST \<in> set failures" "RAW_TUNNEL_ACTIVE \<in> set failures"
  by (simp_all add: failures_def)

lemma rpc_failure_listed: "rpc_failure e \<in> set failures"
  by (cases e) (simp_all add: failures_def)

lemma command_from_request_listed:
  "command_from_request method params = Inl e \<Longrightarrow> e \<in> set failures"
  by (auto simp: command_from_request_simps failures_def split: if_splits option.splits)

lemma rpc_result_bounds:
  assumes "rpc_result request s = (res, s')"
  shows "case res of Inr r \<Rightarrow> small_result r | Inl e \<Rightarrow> e \<in> set failures"
  using assms
  by (auto simp: rpc_result_def rpc_failure_listed small_result_def constants_listed
      dest: command_from_request_listed execute_command_small split: if_splits sum.splits prod.splits)

lemma error_json_fits:
  assumes "failure \<in> set failures"
  shows "length (render (error_json rid failure)) \<le> 200" "plain (error_json rid failure)"
proof -
  have "length (render_int (rf_code failure)) \<le> 6 \<and> length (rf_message failure) \<le> 30 \<and>
      list_all plain_char (rf_message failure)"
    using assms length_render_int(2) [of "rf_code failure" 4]
    by (auto simp: failures_def failure_defs plain_char_def)
  moreover have "length (render (case rid of Some i \<Rightarrow> JInt (uint i) | None \<Rightarrow> JNull)) \<le> 10"
    using length_render_word(2) [of "the rid"] by (cases rid) simp_all
  ultimately show "length (render (error_json rid failure)) \<le> 200"
    unfolding error_json_def render_obj_length by (simp add: render_obj_length del: render.simps(6))
  show "plain (error_json rid failure)"
    using assms by (auto simp: failures_def failure_defs plain_char_def error_json_def split: option.splits)
qed

lemma uint_u8_digits: "length (render_int (uint (i :: u8))) = length (decimal (unat i))"
  by (simp add: render_int_def)

lemma serialize_position_fits: "length (render (serialize_position p)) \<le> 30" "plain (serialize_position p)"
proof -
  have "\<bar>sint (pr_position p)\<bar> < 10 ^ Suc 4"
    using sint_range_size [of "pr_position p"] by (simp add: word_size abs_if)
  then have "length (render_int (sint (pr_position p))) \<le> 6"
    using length_render_int(2) [of "sint (pr_position p)" 4] by simp
  moreover have "length (render_int (uint (pr_id p))) \<le> 3" by (rule length_render_word)
  ultimately show "length (render (serialize_position p)) \<le> 30"
    unfolding serialize_position_def render_obj_length by simp
  show "plain (serialize_position p)" by (simp add: serialize_position_def plain_char_def)
qed

lemma serialize_result_fits:
  assumes "small_result r"
  shows "length (render (serialize_result r)) \<le> 913" "plain (serialize_result r)"
proof -
  show "plain (serialize_result r)"
    using serialize_position_fits(2)
    by (cases r) (auto simp: plain_char_def list_all_iff)
  show "length (render (serialize_result r)) \<le> 913"
  proof (cases r)
    case (Position p)
    then show ?thesis using serialize_position_fits(1) [of p] by simp
  next
    case (Positions ps)
    have "(\<Sum>v \<leftarrow> map serialize_position ps. length (render v)) \<le> 30 * length ps"
      using serialize_position_fits(1) by (induction ps) (simp_all add: add_mono)
    moreover have "length ps \<le> 6" using assms Positions by (simp add: small_result_def)
    ultimately show ?thesis
      using Positions by (simp add: render_obj_length render_arr_length del: render.simps(5,6))
  next
    case (Servos ids)
    with assms have ids: "distinct ids" "\<And>i. i \<in> set ids \<Longrightarrow> 1 \<le> unat i \<and> unat i < 254"
      by (auto simp: small_result_def list_all_iff word_le_nat_alt Suc_le_eq unat_gt_0)
    have unat_inj: "inj_on unat (set ids)" by (rule inj_onI) (simp add: word_unat_eq_iff)
    have len: "length ids \<le> 253"
    proof -
      have "card (set (map unat ids)) \<le> card {1..<254 :: nat}"
        using ids(2) by (intro card_mono) auto
      moreover have "distinct (map unat ids)" using ids(1) by (simp add: distinct_map unat_inj)
      ultimately show ?thesis using distinct_card [of "map unat ids"] by simp
    qed
    have "(\<Sum>v \<leftarrow> map (\<lambda>i. JInt (uint i)) ids. length (render v)) =
        (\<Sum>n \<leftarrow> map unat ids. length (decimal n))"
      by (simp add: comp_def uint_u8_digits)
    also have "\<dots> \<le> 651"
      using ids by (intro sum_lengths_distinct) (auto simp: distinct_map unat_inj)
    finally show ?thesis
      using Servos len by (simp add: render_obj_length render_arr_length del: render.simps(5,6))
  qed (simp_all add: RAW_TUNNEL_TCP_PORT_def render_int_def decimal.simps)
qed

lemma success_json_fits:
  assumes "small_result r"
  shows "length (render (success_json rid r)) \<le> 1024" "plain (success_json rid r)"
proof -
  have "length (render_int (uint rid)) \<le> 10" by (rule length_render_word)
  then show "length (render (success_json rid r)) \<le> 1024"
    using serialize_result_fits(1) [OF assms]
    unfolding success_json_def render_obj_length by simp
  show "plain (success_json rid r)"
    using serialize_result_fits(2) [OF assms] by (simp add: success_json_def plain_char_def)
qed

text \<open>A concrete serializer, and a concrete bus command.\<close>

definition compact_ser :: serializer where
  "compact_ser v n = (if length (render v) \<le> n then Some (render v) else None)"

lemma compact_ser: "compact_serializer compact_ser"
  by (simp add: compact_serializer_def compact_ser_def)

definition sent_request :: "string \<Rightarrow> JsonRpcParams \<Rightarrow> string \<Rightarrow> JsonRpcRequest option" where
  "sent_request method params _ =
     Some \<lparr>rq_jsonrpc = ''2.0'', rq_method = method, rq_params = params, rq_id = Some 7\<rparr>"

definition idle_mcu :: "bool \<Rightarrow> mcu" where
  "idle_mcu on = \<lparr>mcu_uart = \<lparr>rx_events = [], tx_results = [], tx_written = []\<rparr>,
     mcu_raw = \<lparr>rt_enabled = on, rt_command = None\<rparr>\<rparr>"

lemma stop_motor_sends:
  assumes "is_unicast_servo_id sid"
  shows "tx_written (snd (execute_command (StopMotor sid) u)) \<noteq> tx_written u"
proof -
  obtain r v where stop: "stop_motor sid u = (r, v)" by fastforce
  then have "write_plan write_register sid stop_plan u = (r, v)"
    using assms by (simp add: stop_motor_plan)
  from fw.plan_prefix [OF _ _ _ this] obtain n where
    "0 < n" "tx_written v = tx_written u @ take n (plan_packets sid stop_plan)" by auto
  then have "tx_written v \<noteq> tx_written u" by (simp add: plan_packets_def stop_plan_def)
  with stop show ?thesis
    by (cases r) (simp_all add: execute_command_def try_then_def return_ok_def)
qed

section \<open>Properties\<close>

text \<open>C11. While the raw tunnel is switched on the controller API keeps its hands off the servo bus: whatever
  message arrives, nothing is sent to or read from the UART, and a well-formed request for any method
  other than the ping and the two tunnel switches is answered with the error for an active tunnel.\<close>
theorem raw_tunnel_blocks_commands:
  assumes "rt_enabled (mcu_raw s)" "handle_json_rpc from_slice ser msg buffer s = (resp, s')"
  shows "mcu_uart s' = mcu_uart s \<and>
    (\<forall>request rid. from_slice msg = Some request \<longrightarrow> rq_jsonrpc request = ''2.0'' \<longrightarrow> rq_id request = Some rid \<longrightarrow>
       rq_method request \<notin> {''system.ping'', ''debug.enableRawTunnel'', ''debug.disableRawTunnel''} \<longrightarrow>
       resp = ser (error_json (Some rid) RAW_TUNNEL_ACTIVE) buffer)"
  using assms
  by (auto simp: handle_json_rpc_def rpc_result_def raw_is_enabled_def encode_error_def
      split: option.splits if_splits)

theorem raw_tunnel_blocks_commands_witness:
  "handle_json_rpc (sent_request ''motor.stop'' (default_params\<lparr>p_id := Some 1\<rparr>)) compact_ser ''m'' 1024 (idle_mcu True) =
     (Some (render (error_json (Some 7) RAW_TUNNEL_ACTIVE)), idle_mcu True)"
proof -
  let ?h = "handle_json_rpc (sent_request ''motor.stop'' (default_params\<lparr>p_id := Some 1\<rparr>)) compact_ser ''m'' 1024 (idle_mcu True)"
  have "fst ?h = compact_ser (error_json (Some 7) RAW_TUNNEL_ACTIVE) 1024 \<and> mcu_uart (snd ?h) = mcu_uart (idle_mcu True)"
    using raw_tunnel_blocks_commands [of "idle_mcu True" _ _ _ _ "fst ?h" "snd ?h"]
    by (simp add: idle_mcu_def sent_request_def)
  moreover have "mcu_raw (snd ?h) = mcu_raw (idle_mcu True)"
    by (simp add: handle_json_rpc_def sent_request_def rpc_result_def idle_mcu_def raw_is_enabled_def)
  moreover have "compact_ser (error_json (Some 7) RAW_TUNNEL_ACTIVE) 1024 =
      Some (render (error_json (Some 7) RAW_TUNNEL_ACTIVE))"
    using error_json_fits(1) [of RAW_TUNNEL_ACTIVE "Some 7"] by (simp add: compact_ser_def constants_listed)
  ultimately show ?thesis by (cases ?h) simp
qed

text \<open>C24. The servo bus is driven by well-formed requests only: when a message changes anything about the UART,
  it parsed as a JSON-RPC 2.0 request whose method is one of the six servo methods with all of its
  parameters present, the tunnel was off, and the change is exactly that of executing that command.\<close>
theorem bus_touched_only_by_commands:
  assumes "handle_json_rpc from_slice ser msg buffer s = (resp, s')" "mcu_uart s' \<noteq> mcu_uart s"
  shows "\<exists>request command. from_slice msg = Some request \<and> rq_jsonrpc request = ''2.0'' \<and>
    \<not> rt_enabled (mcu_raw s) \<and> command_from_request (rq_method request) (rq_params request) = Inr command \<and>
    mcu_uart s' = snd (execute_command command (mcu_uart s)) \<and> mcu_raw s' = mcu_raw s"
proof -
  obtain request where rq: "from_slice msg = Some request" "rq_jsonrpc request = ''2.0''"
    using assms by (auto simp: handle_json_rpc_def split: option.splits if_splits)
  moreover obtain res where "rpc_result request s = (res, s')"
    using assms rq by (auto simp: handle_json_rpc_def split: prod.splits option.splits sum.splits)
  ultimately show ?thesis using rpc_result_uart [of request s res s'] assms(2) by blast
qed

theorem bus_touched_only_by_commands_witness:
  "\<exists>resp s'. handle_json_rpc (sent_request ''motor.stop'' (default_params\<lparr>p_id := Some 1\<rparr>)) compact_ser ''m'' 1024
       (idle_mcu False) = (resp, s') \<and> mcu_raw s' = mcu_raw (idle_mcu False)"
proof -
  let ?h = "handle_json_rpc (sent_request ''motor.stop'' (default_params\<lparr>p_id := Some 1\<rparr>)) compact_ser ''m'' 1024 (idle_mcu False)"
  obtain resp s' where h: "?h = (resp, s')" by fastforce
  have "mcu_uart s' = snd (execute_command (StopMotor 1) (mcu_uart (idle_mcu False)))"
    using h by (auto simp: handle_json_rpc_def sent_request_def rpc_result_def idle_mcu_def raw_is_enabled_def
        command_from_request_simps default_params_def split: prod.splits sum.splits)
  then have "mcu_uart s' \<noteq> mcu_uart (idle_mcu False)"
    using stop_motor_sends [of 1 "mcu_uart (idle_mcu False)"]
    by (auto simp: is_unicast_servo_id_def servo_id_consts)
  with bus_touched_only_by_commands [OF h] h show ?thesis by auto
qed

text \<open>C30. Every request that asks for a response gets one: with a serializer that writes compact JSON and the
  1024-byte response buffer of the session, a message that does not parse or is not JSON-RPC 2.0 or
  carries an id is always answered, even by the list of all 253 servos with the largest id, and a
  notification never is.\<close>
theorem every_response_fits:
  assumes "compact_serializer ser" "handle_json_rpc from_slice ser msg JSON_RPC_BUFFER_SIZE s = (resp, s')"
  shows "case from_slice msg of
      None \<Rightarrow> resp = Some (render (error_json None PARSE_ERROR))
    | Some request \<Rightarrow>
        if rq_jsonrpc request \<noteq> ''2.0'' then resp = Some (render (error_json (rq_id request) INVALID_REQUEST))
        else case rq_id request of
            None \<Rightarrow> resp = None
          | Some rid \<Rightarrow> \<exists>v. resp = Some (render v) \<and> length (render v) \<le> 1024 \<and>
              v = (case fst (rpc_result request s) of Inr r \<Rightarrow> success_json rid r | Inl e \<Rightarrow> error_json (Some rid) e)"
proof -
  have err: "ser (error_json rid e) JSON_RPC_BUFFER_SIZE = Some (render (error_json rid e))"
    if "e \<in> set failures" for rid e
    using error_json_fits [OF that, of rid] assms(1)
    by (simp add: compact_serializer_def JSON_RPC_BUFFER_SIZE_def)
  have ok: "ser (success_json rid r) JSON_RPC_BUFFER_SIZE = Some (render (success_json rid r))"
    if "small_result r" for rid r
    using success_json_fits [OF that, of rid] assms(1)
    by (simp add: compact_serializer_def JSON_RPC_BUFFER_SIZE_def)
  have bound: "length (render (error_json rid e)) \<le> 1024" if "e \<in> set failures" for rid e
    using error_json_fits(1) [OF that, of rid] by simp
  show ?thesis
  proof (cases "from_slice msg")
    case None
    with assms(2) err show ?thesis by (auto simp: handle_json_rpc_def encode_error_def constants_listed)
  next
    case (Some request)
    obtain res s1 where res: "rpc_result request s = (res, s1)" by fastforce
    with rpc_result_bounds [OF res] Some assms(2) err ok bound success_json_fits(1) show ?thesis
      by (auto simp: handle_json_rpc_def encode_error_def encode_success_def constants_listed
          split: option.splits sum.splits if_splits)
  qed
qed

theorem every_response_fits_witness:
  "compact_serializer compact_ser \<and>
   fst (handle_json_rpc (sent_request ''system.ping'' default_params) compact_ser ''m'' JSON_RPC_BUFFER_SIZE (idle_mcu True)) =
     Some (render (success_json 7 Ready))"
  using every_response_fits [OF compact_ser, of "sent_request ''system.ping'' default_params" "''m''" "idle_mcu True"
      "fst (handle_json_rpc (sent_request ''system.ping'' default_params) compact_ser ''m'' JSON_RPC_BUFFER_SIZE (idle_mcu True))"
      "snd (handle_json_rpc (sent_request ''system.ping'' default_params) compact_ser ''m'' JSON_RPC_BUFFER_SIZE (idle_mcu True))"]
  by (simp add: sent_request_def rpc_result_def compact_ser)

end
