(* ===== verification/End_To_End.thy ===== *)
theory End_To_End
  imports Controller_Rpc Host_Service
begin

text \<open>
  The host and the firmware over one connection: the JSON of the host's requests is what the firmware's
  request type reads, the JSON of the firmware's responses is what the host's response type reads, and so
  a servo request of the browser comes out as the command it means and its result comes back. The JSON
  libraries of both sides are parameters; they are assumed to read the fields of the derived types from
  values written compactly, and the reference reader of \<open>Json_Reader\<close> does.
\<close>

section \<open>What the firmware relies on of serde_json_core\<close>

definition read_direction :: "json \<Rightarrow> MotorDirection option" where
  "read_direction v = (case v of
       JStr t \<Rightarrow> if t = ''clockwise'' then Some Clockwise else if t = ''counterclockwise'' then Some Counterclockwise else None
     | _ \<Rightarrow> None)"

text \<open>A batch of servo ids is read into a vector of fixed capacity.\<close>

definition read_ids :: "json \<Rightarrow> u8 list option" where
  "read_ids v = (case v of
       JArr vs \<Rightarrow> Option.bind (all_somes (map read_u8 vs)) (\<lambda>ids. if length ids \<le> MAX_POSITION_BATCH then Some ids else None)
     | _ \<Rightarrow> None)"

definition decode_params :: "json \<Rightarrow> JsonRpcParams option" where
  "decode_params v =
     Option.bind (optional_field read_u8 (json_get v ''id'')) (\<lambda>sid.
     Option.bind (optional_field read_u16 (json_get v ''speed'')) (\<lambda>speed.
     Option.bind (optional_field read_u8 (json_get v ''acceleration'')) (\<lambda>acceleration.
     Option.bind (optional_field read_direction (json_get v ''direction'')) (\<lambda>direction.
     Option.bind (optional_field read_u16 (json_get v ''position'')) (\<lambda>position.
     Option.bind (optional_field read_u16 (json_get v ''torqueLimit'')) (\<lambda>torque_limit.
     Option.bind (optional_field read_ids (json_get v ''ids'')) (\<lambda>ids.
     Option.bind (optional_field read_u8 (json_get v ''startId'')) (\<lambda>start_id.
     Option.bind (optional_field read_u8 (json_get v ''endId'')) (\<lambda>end_id.
       Some \<lparr>p_id = sid, p_speed = speed, p_acceleration = acceleration, p_direction = direction, p_position = position,
         p_torque_limit = torque_limit, p_ids = ids, p_start_id = start_id, p_end_id = end_id\<rparr>)))))))))"

definition decode_request :: "json \<Rightarrow> JsonRpcRequest option" where
  "decode_request v =
     Option.bind (Option.bind (json_get v ''jsonrpc'') read_str) (\<lambda>jsonrpc.
     Option.bind (Option.bind (json_get v ''method'') read_str) (\<lambda>method.
     Option.bind (case json_get v ''params'' of Some ps \<Rightarrow> decode_params ps | None \<Rightarrow> Some default_params) (\<lambda>params.
     Option.bind (optional_field read_u32 (json_get v ''id'')) (\<lambda>rid.
       Some \<lparr>rq_jsonrpc = jsonrpc, rq_method = method, rq_params = params, rq_id = rid\<rparr>))))"

definition reads_requests :: "(string \<Rightarrow> JsonRpcRequest option) \<Rightarrow> bool" where
  "reads_requests from_slice \<longleftrightarrow> (\<forall>v rq. plain v \<longrightarrow> decode_request v = Some rq \<longrightarrow> from_slice (render v) = Some rq)"

definition reference_from_slice :: "string \<Rightarrow> JsonRpcRequest option" where
  "reference_from_slice msg = Option.bind (read_json msg) decode_request"

lemma reads_reference: "reads_requests reference_from_slice"
  by (simp add: reads_requests_def reference_from_slice_def json_codec.decode_encode)

section \<open>Requests\<close>

lemma optional_field_int [simp]:
  "optional_field rd None = Some None" "optional_field rd (Some (JInt i)) = map_option Some (rd (JInt i))"
  "optional_field rd (Some (JStr t)) = map_option Some (rd (JStr t))"
  "optional_field rd (Some (JObj kvs)) = map_option Some (rd (JObj kvs))"
  by (simp_all add: optional_field_def)

lemma read_direction_name [simp]:
  "read_direction (JStr (direction_name d)) = Some (if d = DirCounterclockwise then Counterclockwise else Clockwise)"
  by (cases d) (simp_all add: read_direction_def)

text \<open>The method, the parameters and the meaning of each servo request of the browser that is one
  request of the controller.\<close>

fun wire_request :: "ClientMessage \<Rightarrow> (string \<times> json \<times> ControllerCommand) option" where
  "wire_request (CmStartMotor sid speed acceleration direction) =
     Some (''motor.start'', start_params sid speed acceleration direction,
       StartMotor sid (direction = DirCounterclockwise) speed acceleration)"
| "wire_request (CmStopMotor sid) = Some (''motor.stop'', id_params sid, StopMotor sid)"
| "wire_request (CmMovePosition sid position acceleration torque_limit) =
     Some (''servo.setPosition'', move_params sid position acceleration torque_limit,
       SetPosition sid position acceleration torque_limit)"
| "wire_request (CmReadPosition sid) = Some (''servo.getPosition'', id_params sid, GetPosition sid)"
| "wire_request (CmScanServos start_id end_id) =
     Some (''servo.scan'', scan_params start_id end_id, ScanServos start_id end_id)"
| "wire_request _ = None"

lemma plain_direction_name: "list_all plain_char (direction_name d)"
  by (cases d) (simp_all add: plain_char_def)

lemma plain_params:
  "wire_request request = Some (method, params, command) \<Longrightarrow> plain (request_json rid method params)"
  by (cases request) (auto simp: request_json_def start_params_def id_params_def move_params_def scan_params_def
      plain_direction_name plain_char_def)

lemma request_decodes:
  assumes "wire_request request = Some (method, params, command)"
  obtains rq where "decode_request (request_json rid method params) = Some rq" "rq_jsonrpc rq = ''2.0''"
    "rq_id rq = Some rid" "rq_method rq = method" "command_from_request method (rq_params rq) = Inr command"
    "method \<notin> {''system.ping'', ''debug.enableRawTunnel'', ''debug.disableRawTunnel''}"
  using assms
  by (cases request)
     (auto simp: decode_request_def request_json_def json_get_def read_str_def decode_params_def start_params_def id_params_def
       move_params_def scan_params_def command_from_request_simps)

section \<open>Responses\<close>

lemma decode_success:
  "decode_response (success_json rid r) =
     Some \<lparr>jr_jsonrpc = ''2.0'', jr_id = Some rid, jr_result = Some (serialize_result r), jr_error = None\<rparr>"
proof -
  have "uint rid < 4294967296" using uint_lt2p [of rid] by simp
  moreover have "\<exists>kvs. serialize_result r = JObj kvs" by (cases r) (simp_all add: serialize_position_def)
  ultimately show ?thesis
    by (auto simp: decode_response_def success_json_def json_get_def read_str_def read_int_in_def)
qed

lemma decode_failure:
  assumes "failure \<in> set failures"
  shows "decode_response (error_json (Some rid) failure) =
     Some \<lparr>jr_jsonrpc = ''2.0'', jr_id = Some rid, jr_result = None,
       jr_error = Some \<lparr>je_code = rf_code failure, je_message = rf_message failure\<rparr>\<rparr>"
proof -
  have "uint rid < 4294967296" using uint_lt2p [of rid] by simp
  moreover have "- 2147483648 \<le> rf_code failure" "rf_code failure < 2147483648"
    using assms by (auto simp: failures_def failure_defs)
  ultimately show ?thesis
    by (simp add: decode_response_def error_json_def json_get_def read_str_def read_int_in_def decode_error_def)
qed

section \<open>Results\<close>

text \<open>The reply to the browser for a result of the firmware.\<close>

fun reply_of :: "ClientMessage \<Rightarrow> ControllerResult \<Rightarrow> ServerMessage" where
  "reply_of (CmStartMotor _ _ _ _) _ = Complete ''motor_started''"
| "reply_of (CmStopMotor _) _ = Complete ''motor_stopped''"
| "reply_of (CmReadPosition sid) (Position p) = PositionMsg sid (pr_position p)"
| "reply_of (CmScanServos lo hi) (Servos ids) = ServoScan lo hi ids"
| "reply_of _ _ = Complete ''position_commanded''"

fun result_fits :: "ClientMessage \<Rightarrow> ControllerResult \<Rightarrow> bool" where
  "result_fits (CmReadPosition sid) r = (\<exists>p. r = Position \<lparr>pr_id = sid, pr_position = p\<rparr>)"
| "result_fits (CmScanServos lo hi) r = (\<exists>ids. r = Servos ids \<and> lo \<noteq> 0 \<and> hi \<le> 253 \<and> set ids \<subseteq> {lo..hi})"
| "result_fits _ r = (r = Accepted)"

lemma execute_command_fits:
  assumes "wire_request request = Some (method, params, command)" "execute_command command u = (Inr r, u')"
  shows "result_fits request r"
proof -
  from assms(2) obtain v where run: "dispatch_command command u = (Inr r, v)"
    by (auto simp: execute_command_def split: prod.splits sum.splits)
  show ?thesis
  proof (cases request)
    case (CmScanServos lo hi)
    with run assms(1) obtain ids where "scan_servos lo hi u = (Inr ids, v)" "r = Servos ids"
      by (auto simp: try_then_def return_ok_def split: prod.splits sum.splits)
    with scan_servos_ok [OF this(1)] CmScanServos show ?thesis by simp
  qed (use run assms(1) in \<open>auto simp: try_then_def return_ok_def split: prod.splits sum.splits\<close>)
qed

text \<open>How the host reads the result value of a request.\<close>

definition host_reads :: "serde \<Rightarrow> ClientMessage \<Rightarrow> json \<Rightarrow> string + ServerMessage" where
  "host_reads sd request v = (case request of
       CmReadPosition sid \<Rightarrow> map_sum id (PositionMsg sid) (checked_position sd sid v)
     | CmScanServos lo hi \<Rightarrow> checked_scan sd lo hi v
     | _ \<Rightarrow> map_sum id (\<lambda>_. reply_of request Accepted) (expect_controller_accepted v))"

definition request_timeout :: "ClientMessage \<Rightarrow> nat" where
  "request_timeout request = (case request of CmScanServos _ _ \<Rightarrow> SERVO_SCAN_TIMEOUT | _ \<Rightarrow> HOST_SERVO_TIMEOUT)"

lemma servo_request_controller:
  assumes "wire_request request = Some (method, params, command)" "\<not> out_of_range request" "is_controller c"
  shows "fst (servo_request sd request c) =
    (case fst (controller_request_with_timeout sd method params (request_timeout request) c) of
       Inl e \<Rightarrow> Inl e | Inr v \<Rightarrow> host_reads sd request v)"
  using assms unicast_range
  by (cases request)
     (auto simp: servo_request_def host_start_motor_def host_stop_motor_def host_move_position_def host_read_position_def
       host_scan_servos_def validate_id_def validate_scan_range_def accepted_request_def controller_request_def
       request_timeout_def host_reads_def try_then_def from_result_def return_ok_def return_err_def
       split: prod.splits sum.splits if_splits)

lemma read_signed [simp]: "read_int_in (- 32768) 32768 (JInt (sint (h :: i16))) = Some (sint h)"
  using sint_ge [of h] sint_lt [of h] by (simp add: read_int_in_def)

lemma all_somes_ids: "all_somes (map (read_int_in 0 256) (map (\<lambda>i. JInt (uint (i :: u8))) ids)) = Some (map uint ids)"
proof (induction ids)
  case (Cons i ids)
  have "read_int_in 0 256 (JInt (uint i)) = Some (uint i)" using uint_lt2p [of i] by (simp add: read_int_in_def)
  with Cons show ?case by simp
qed simp

lemma host_reads_result:
  assumes "faithful_serde sd" "result_fits request r" "wire_request request \<noteq> None"
  shows "host_reads sd request (serialize_result r) = Inr (reply_of request r)"
proof (cases request)
  case (CmReadPosition sid)
  with assms obtain p where p: "r = Position \<lparr>pr_id = sid, pr_position = p\<rparr>" by auto
  have "uint sid < 256" using uint_lt2p [of sid] by simp
  then have "decode_position (serialize_result r) = Some \<lparr>hp_id = sid, hp_position = p\<rparr>"
    by (simp add: p serialize_position_def decode_position_def json_get_def read_int_in_def [of 0])
  with assms(1) CmReadPosition p show ?thesis by (simp add: host_reads_def checked_position_def faithful_serde_def)
next
  case (CmScanServos lo hi)
  with assms obtain ids where ids: "r = Servos ids" "lo \<noteq> 0" "hi \<le> 253" "set ids \<subseteq> {lo..hi}" by auto
  have "decode_scan (serialize_result r) = Some ids"
    using all_somes_ids [of ids] by (simp add: ids decode_scan_def json_get_def comp_def)
  with assms(1) have scan: "sd_scan sd (serialize_result r) = Inr ids" by (simp add: faithful_serde_def)
  have "find (\<lambda>i. i < lo \<or> hi < i \<or> \<not> host_is_unicast_servo_id i) ids = None"
    using ids by (auto simp: find_None_iff host_is_unicast_servo_id_def not_less dest!: subsetD intro: order_trans)
  with scan CmScanServos ids show ?thesis by (simp add: host_reads_def checked_scan_def)
qed (use assms in \<open>auto simp: host_reads_def expect_controller_accepted_def json_get_def as_bool_def\<close>)

section \<open>The firmware's answer\<close>

definition outcome_json :: "u32 \<Rightarrow> ServoFailure + ControllerResult \<Rightarrow> json" where
  "outcome_json rid outcome = (case outcome of Inr r \<Rightarrow> success_json rid r | Inl e \<Rightarrow> error_json (Some rid) (rpc_failure e))"

lemma outcome_fits:
  assumes "fst (execute_command command u) = outcome"
  shows "plain (outcome_json rid outcome)" "length (render (outcome_json rid outcome)) \<le> 1024"
proof -
  obtain u' where run: "execute_command command u = (outcome, u')" using assms by (metis prod.collapse)
  have "plain (outcome_json rid outcome) \<and> length (render (outcome_json rid outcome)) \<le> 1024"
  proof (cases outcome)
    case (Inl e)
    then show ?thesis using error_json_fits [OF rpc_failure_listed, of "Some rid" e] by (simp add: outcome_json_def)
  next
    case (Inr r)
    with run have "small_result r" using execute_command_small by blast
    then show ?thesis using success_json_fits [of r rid] Inr by (simp add: outcome_json_def)
  qed
  then show "plain (outcome_json rid outcome)" "length (render (outcome_json rid outcome)) \<le> 1024" by simp_all
qed

lemma mcu_answers:
  assumes "reads_requests from_slice" "compact_serializer ser" "wire_request request = Some (method, params, command)"
    and "\<not> rt_enabled (mcu_raw m)"
  shows "handle_json_rpc from_slice ser (render (request_json rid method params)) JSON_RPC_BUFFER_SIZE m =
    (Some (render (outcome_json rid (fst (execute_command command (mcu_uart m))))),
     m\<lparr>mcu_uart := snd (execute_command command (mcu_uart m))\<rparr>)"
proof -
  obtain rq where rq: "decode_request (request_json rid method params) = Some rq" "rq_jsonrpc rq = ''2.0''"
    "rq_id rq = Some rid" "rq_method rq = method" "command_from_request method (rq_params rq) = Inr command"
    "method \<notin> {''system.ping'', ''debug.enableRawTunnel'', ''debug.disableRawTunnel''}"
    by (rule request_decodes [OF assms(3)])
  have read: "from_slice (render (request_json rid method params)) = Some rq"
    using assms(1) rq(1) plain_params [OF assms(3)] unfolding reads_requests_def by blast
  obtain outcome u' where run: "execute_command command (mcu_uart m) = (outcome, u')" by fastforce
  have ser: "ser (outcome_json rid outcome) JSON_RPC_BUFFER_SIZE = Some (render (outcome_json rid outcome))"
    using outcome_fits [of command "mcu_uart m" outcome rid] run assms(2)
    by (simp add: compact_serializer_def JSON_RPC_BUFFER_SIZE_def)
  have "rpc_result rq m = (case outcome of Inr r \<Rightarrow> Inr r | Inl e \<Rightarrow> Inl (rpc_failure e), m\<lparr>mcu_uart := u'\<rparr>)"
    using rq(4-6) assms(4) run by (auto simp: rpc_result_def raw_is_enabled_def split: sum.splits)
  with read rq run ser show ?thesis
    by (cases outcome) (auto simp: handle_json_rpc_def encode_success_def encode_error_def outcome_json_def)
qed

lemma host_understands:
  assumes "faithful_serde sd" "fst (execute_command command u) = outcome"
  shows "answers sd rid (WsText (render (outcome_json rid outcome)))
    \<lparr>jr_jsonrpc = ''2.0'', jr_id = Some rid,
      jr_result = (case outcome of Inr r \<Rightarrow> Some (serialize_result r) | Inl _ \<Rightarrow> None),
      jr_error = (case outcome of Inr _ \<Rightarrow> None | Inl e \<Rightarrow>
        Some \<lparr>je_code = rf_code (rpc_failure e), je_message = rf_message (rpc_failure e)\<rparr>)\<rparr>"
proof -
  have "decode_response (outcome_json rid outcome) = Some \<lparr>jr_jsonrpc = ''2.0'', jr_id = Some rid,
      jr_result = (case outcome of Inr r \<Rightarrow> Some (serialize_result r) | Inl _ \<Rightarrow> None),
      jr_error = (case outcome of Inr _ \<Rightarrow> None | Inl e \<Rightarrow>
        Some \<lparr>je_code = rf_code (rpc_failure e), je_message = rf_message (rpc_failure e)\<rparr>)\<rparr>"
    using decode_failure [OF rpc_failure_listed] by (cases outcome) (simp_all add: outcome_json_def decode_success)
  then show ?thesis
    using assms(1) outcome_fits(1) [OF assms(2), of rid] by (simp add: answers_def faithful_serde_def)
qed

end
