(* ===== verification/Handshakes.thy ===== *)
theory Handshakes
  imports End_To_End
begin

text \<open>
  The two handshakes of host and firmware together. Connecting: the host's attempts to reach the controller,
  its ping and the firmware's answer (\<open>connect\<close>, \<open>connect_controller\<close> and
  \<open>ping_controller\<close> of \<open>src/host/src/main.rs\<close>, \<open>handle_json_rpc\<close> of
  \<open>src/src/bin/main.rs\<close>). Switching to the raw tunnel: the host's request, the firmware that switches
  the tunnel on and names its port, and the attempts to reach that port (\<open>open_raw_tunnel\<close>,
  \<open>connect_raw_tunnel\<close>).
\<close>

section \<open>The firmware's part\<close>

text \<open>A request without parameters.\<close>

lemma bare_request_decodes:
  "decode_request (request_json rid name (JObj [])) =
     Some \<lparr>rq_jsonrpc = ''2.0'', rq_method = name, rq_params = default_params, rq_id = Some rid\<rparr>"
  by (simp add: decode_request_def request_json_def json_get_def read_str_def decode_params_def default_params_def)

lemma bare_request_plain: "list_all plain_char name \<Longrightarrow> plain (request_json rid name (JObj []))"
  by (simp add: request_json_def plain_char_def)

lemma names_plain: "list_all plain_char ''debug.enableRawTunnel''" "list_all plain_char ''system.ping''"
  by (simp_all add: plain_char_def)

lemma mcu_answers_bare:
  assumes "reads_requests from_slice" "compact_serializer ser" "list_all plain_char name"
    and "rpc_result \<lparr>rq_jsonrpc = ''2.0'', rq_method = name, rq_params = default_params, rq_id = Some rid\<rparr> m = (Inr r, m')"
    and "small_result r"
  shows "handle_json_rpc from_slice ser (render (request_json rid name (JObj []))) JSON_RPC_BUFFER_SIZE m =
    (Some (render (success_json rid r)), m')"
proof -
  have "from_slice (render (request_json rid name (JObj []))) =
      Some \<lparr>rq_jsonrpc = ''2.0'', rq_method = name, rq_params = default_params, rq_id = Some rid\<rparr>"
    using assms(1) bare_request_decodes bare_request_plain [OF assms(3)] unfolding reads_requests_def by blast
  moreover have "ser (success_json rid r) JSON_RPC_BUFFER_SIZE = Some (render (success_json rid r))"
    using success_json_fits [OF assms(5), of rid] assms(2) by (simp add: compact_serializer_def JSON_RPC_BUFFER_SIZE_def)
  ultimately show ?thesis using assms(4) by (simp add: handle_json_rpc_def encode_success_def)
qed

lemma small_answers: "small_result (RawTunnel True)" "small_result Ready"
  by (simp_all add: small_result_def)

lemma mcu_opens_tunnel:
  assumes "reads_requests from_slice" "compact_serializer ser"
  shows "handle_json_rpc from_slice ser (render (request_json rid ''debug.enableRawTunnel'' (JObj []))) JSON_RPC_BUFFER_SIZE m =
    (Some (render (success_json rid (RawTunnel True))), m\<lparr>mcu_raw := raw_enable (mcu_raw m)\<rparr>)"
  by (rule mcu_answers_bare [OF assms names_plain(1) _ small_answers(1)]) (simp add: rpc_result_def)

lemma mcu_answers_ping:
  assumes "reads_requests from_slice" "compact_serializer ser"
  shows "handle_json_rpc from_slice ser (render (request_json rid ''system.ping'' (JObj []))) JSON_RPC_BUFFER_SIZE m =
    (Some (render (success_json rid Ready)), m)"
  by (rule mcu_answers_bare [OF assms names_plain(2) _ small_answers(2)]) (simp add: rpc_result_def)

section \<open>The host's part\<close>

lemma success_understood:
  assumes "faithful_serde sd" "small_result r"
  shows "answers sd rid (WsText (render (success_json rid r)))
    \<lparr>jr_jsonrpc = ''2.0'', jr_id = Some rid, jr_result = Some (serialize_result r), jr_error = None\<rparr>"
  using assms(1) success_json_fits(2) [OF assms(2), of rid] decode_success [of rid r]
  by (simp add: answers_def faithful_serde_def)

text \<open>The host's request finds the firmware's answer behind what may be passed over.\<close>

lemma bare_request_answered:
  assumes "faithful_serde sd" "list_all plain_char name" "small_result r" "ws_of c = Some s" "sends_ok s"
    and "ws_in s = skipped @ (t, WsText (render (success_json (bc_next_request_id c) r))) # rest" "length skipped < 32"
    and "list_all (passed_over sd (bc_next_request_id c) HOST_SERVO_TIMEOUT) skipped" "t \<le> HOST_SERVO_TIMEOUT"
  shows "fst (controller_request sd name (JObj []) c) = Inr (serialize_result r)"
proof -
  let ?rid = "bc_next_request_id c"
  have sent: "sd_to_string sd (request_json ?rid name (JObj [])) = Inr (render (request_json ?rid name (JObj [])))"
    using assms(1) bare_request_plain [OF assms(2)] by (simp add: faithful_serde_def)
  from controller_request_finds [OF assms(4,5) sent assms(6-9) success_understood [OF assms(1,3)]]
  show ?thesis by (simp add: controller_request_def response_outcome_def)
qed

lemma named_port:
  "json_get (serialize_result (RawTunnel True)) ''port'' = Some (JInt 3334)"
  "as_u64 (JInt 3334) = Some 3334" "u16_try_from 3334 = Some RAW_TUNNEL_TCP_PORT"
  by (simp_all add: json_get_def as_u64_def u16_try_from_def RAW_TUNNEL_TCP_PORT_def)

text \<open>Refusals that come quickly are followed by another attempt.\<close>

lemma raw_loop_connects:
  assumes "list_all (\<lambda>(t, d). t \<le> 100 \<and> (\<exists>e. d = RawRefused e)) fails" "elapsed + attempts_time 25 fails \<le> 650" "t \<le> 100"
  shows "connect_raw_loop peer elapsed (fails @ (t, RawOpened stream None) # rest) =
    (Inr stream, elapsed + attempts_time 25 fails + t, rest)"
  using assms(1,2)
proof (induction fails arbitrary: elapsed)
  case Nil
  then show ?case using assms(3)
    by (subst connect_raw_loop.simps) (simp add: HOST_SERVO_TIMEOUT_def Let_def)
next
  case (Cons x fails)
  obtain t1 e where x: "x = (t1, RawRefused e)" "t1 \<le> 100" using Cons.prems(1) by auto
  with Cons.prems have "connect_raw_loop peer elapsed ((x # fails) @ (t, RawOpened stream None) # rest) =
      connect_raw_loop peer (elapsed + t1 + 25) (fails @ (t, RawOpened stream None) # rest)"
    by (subst connect_raw_loop.simps) (simp add: HOST_SERVO_TIMEOUT_def Let_def)
  also have "\<dots> = (Inr stream, elapsed + t1 + 25 + attempts_time 25 fails + t, rest)"
    using Cons x by (intro Cons.IH) simp_all
  finally show ?case using x by simp
qed

section \<open>Properties\<close>


text \<open>A connection whose first response is the firmware's, and a raw port that refuses once.\<close>

definition tunnel_connection :: BridgeConnection where
  "tunnel_connection = \<lparr>bc_peer = ''mcu:3333'', bc_transport = Controller
     \<lparr>ws_in = [(4, WsText (render (success_json 2 (RawTunnel True))))], ws_outcomes = [], ws_out = [], ws_waited = 0\<rparr>,
     bc_next_request_id = 2\<rparr>"

definition raw_stream :: tcp_stream where
  "raw_stream = \<lparr>ts_rx = [], ts_tx_outcomes = [], ts_tx = []\<rparr>"

definition raw_port :: network where
  "raw_port = \<lparr>net_dials = [], net_raw_dials = [(3, RawRefused ''refused''), (5, RawOpened raw_stream None)]\<rparr>"



definition pinged_stream :: ws_stream where
  "pinged_stream = \<lparr>ws_in = [(4, WsText (render (success_json 1 Ready)))], ws_outcomes = [], ws_out = [], ws_waited = 0\<rparr>"

definition waiting_state :: AppState where
  "waiting_state = \<lparr>st_bridge = None, st_transport = ControllerMode,
     st_net = \<lparr>net_dials = [(900, UpgradeElapsed), (3, DialOpened pinged_stream)], net_raw_dials = []\<rparr>\<rparr>"


end
