(* ===== verification/Conversation.thy ===== *)
theory Conversation
  imports Host_Wire Handshakes
begin

text \<open>
  Host and firmware in a whole conversation: the browser's servo requests one after another, the requests
  that the host sends for them (a batch of positions is one request per servo), the firmware that handles
  those texts in order (\<open>handle_json_rpc\<close> of \<open>src/src/bin/main.rs\<close>), and its answers on the
  way back. The specification is a service that sits directly on the servo bus, without a network, without
  JSON and without request numbers; the lemmas show that host, connection and firmware together are that
  service.
\<close>

section \<open>The specification: a service on the bus\<close>

text \<open>Why the host refuses a request that is out of range.\<close>

fun refusal :: "ClientMessage \<Rightarrow> string" where
  "refusal (CmStartMotor sid _ _ _) = (if sid \<in> {1..253} then ''Motor speed must be between 0 and 4095''
     else ''Servo ID must be between 1 and 253'')"
| "refusal (CmMovePosition sid position _ _) = (if sid \<notin> {1..253} then ''Servo ID must be between 1 and 253''
     else if 4095 < position then ''Position must be between 0 and 4095''
     else ''Torque limit must be between 0 and 1000'')"
| "refusal (CmReadPositions _) = ''At most six position servos can be read at once''"
| "refusal (CmScanServos _ _) =
     ''Servo search IDs must be between 1 and 253, with a start no greater than the end''"
| "refusal _ = ''Servo ID must be between 1 and 253''"

definition failure_text :: "ServoFailure \<Rightarrow> string" where
  "failure_text e = ''MCU JSON-RPC error '' @ render_int (rf_code (rpc_failure e)) @ '': '' @ rf_message (rpc_failure e)"

text \<open>The servos of a batch are read one after another; a servo that fails adds an error and the batch
  goes on.\<close>

definition read_one :: "u8 \<Rightarrow> uart \<Rightarrow> (string + i16) \<times> uart" where
  "read_one sid u =
     (if sid \<notin> {1..253} then (Inl ''Servo ID must be between 1 and 253'', u)
      else case read_position sid u of
          (Inr p, u) \<Rightarrow> (Inr p, u)
        | (Inl e, u) \<Rightarrow> (Inl (failure_text e), resynchronize_uart u))"

fun read_batch :: "u8 list \<Rightarrow> host_position list \<Rightarrow> string list \<Rightarrow> uart \<Rightarrow> ServerMessage \<times> uart" where
  "read_batch [] ps es u = (PositionsMsg ps es, u)"
| "read_batch (sid # ids) ps es u = (case read_one sid u of
       (Inr p, u) \<Rightarrow> read_batch ids (ps @ [\<lparr>hp_id = sid, hp_position = p\<rparr>]) es u
     | (Inl e, u) \<Rightarrow> read_batch ids ps (es @ [''Servo '' @ decimal (unat sid) @ '': '' @ e]) u)"


definition on_bus :: "ClientMessage \<Rightarrow> uart \<Rightarrow> ServerMessage \<times> uart" where
  "on_bus request u =
     (if out_of_range request then (ErrorMsg (refusal request) True, u)
      else case request of
          CmReadPositions ids \<Rightarrow> read_batch ids [] [] u
        | _ \<Rightarrow> (case wire_request request of
              Some (_, _, command) \<Rightarrow>
                (case execute_command command u of
                   (Inr r, u) \<Rightarrow> (reply_of request r, u)
                 | (Inl e, u) \<Rightarrow> (ErrorMsg (failure_text e) True, u))
            | None \<Rightarrow> (ErrorMsg [] True, u)))"

fun bus_run :: "ClientMessage list \<Rightarrow> uart \<Rightarrow> ServerMessage list \<times> uart" where
  "bus_run [] u = ([], u)"
| "bus_run (request # requests) u =
     (let (reply, u) = on_bus request u; (replies, u) = bus_run requests u in (reply # replies, u))"

section \<open>The conversation\<close>

text \<open>The host handles the browser's requests in order.\<close>

fun host_run :: "serde \<Rightarrow> ClientMessage list \<Rightarrow> AppState \<Rightarrow> ServerMessage list \<times> AppState" where
  "host_run sd [] st = ([], st)"
| "host_run sd (request # requests) st =
     (let (reply, st) = handle_request sd request st; (replies, st) = host_run sd requests st in (reply # replies, st))"

text \<open>The firmware handles the texts of the host in order; the answers it sends.\<close>

fun mcu_run :: "(string \<Rightarrow> JsonRpcRequest option) \<Rightarrow> serializer \<Rightarrow> string list \<Rightarrow> mcu \<Rightarrow> string list \<times> mcu" where
  "mcu_run from_slice ser [] m = ([], m)"
| "mcu_run from_slice ser (t # ts) m =
     (let (answer, m) = handle_json_rpc from_slice ser t JSON_RPC_BUFFER_SIZE m;
          (later, m) = mcu_run from_slice ser ts m
      in (case answer of Some a \<Rightarrow> a # later | None \<Rightarrow> later, m))"

text \<open>What the host asks the firmware for a request of the browser, and the texts it sends for that.\<close>

definition position_requests :: "u8 list \<Rightarrow> (string \<times> json) list" where
  "position_requests ids = map (\<lambda>sid. (''servo.getPosition'', id_params sid)) (filter (\<lambda>sid. sid \<in> {1..253}) ids)"

definition controller_requests :: "ClientMessage \<Rightarrow> (string \<times> json) list" where
  "controller_requests request =
     (if out_of_range request then []
      else case request of
          CmReadPositions ids \<Rightarrow> position_requests ids
        | _ \<Rightarrow> (case wire_request request of Some (method, params, _) \<Rightarrow> [(method, params)] | None \<Rightarrow> []))"

fun numbered :: "u32 \<Rightarrow> (string \<times> json) list \<Rightarrow> string list" where
  "numbered rid [] = []"
| "numbered rid ((method, params) # rs) = render (request_json rid method params) # numbered (rid + 1) rs"

text \<open>A controller connection that delivers these messages and on which these were sent.\<close>

definition linked :: "string \<Rightarrow> u32 \<Rightarrow> (nat \<times> ws_incoming) list \<Rightarrow> ws_outgoing list \<Rightarrow> nat \<Rightarrow> BridgeConnection" where
  "linked peer rid arrivals sent w = \<lparr>bc_peer = peer,
     bc_transport = Controller \<lparr>ws_in = arrivals, ws_outcomes = [], ws_out = sent, ws_waited = w\<rparr>,
     bc_next_request_id = rid\<rparr>"

lemma linked_simps [simp]:
  "is_controller (linked peer rid arrivals sent w)" "bc_next_request_id (linked peer rid arrivals sent w) = rid"
  "bc_peer (linked peer rid arrivals sent w) = peer"
  by (simp_all add: linked_def is_controller_def)

section \<open>One request of the controller\<close>

lemma linked_answered:
  assumes "sd_to_string sd (request_json rid method params) = Inr request" "answers sd rid answer response" "t \<le> d"
  shows "controller_request_with_timeout sd method params d (linked peer rid ((t, answer) # arrivals) sent w) =
    (response_outcome response, linked peer (rid + 1) arrivals (sent @ [SentText request]) (w + t))"
proof -
  obtain n where n: "MAX_STALE_CONTROLLER_RESPONSES = Suc n" by (simp add: MAX_STALE_CONTROLLER_RESPONSES_def)
  from assms show ?thesis
    by (simp add: controller_request_with_timeout_def linked_def send_command_def ws_sent_def try_then_def n
        response_loop_answers [OF _ assms(3,2)] del: response_loop.simps)
qed

text \<open>The libraries of both sides.\<close>

definition libraries :: "serde \<Rightarrow> (string \<Rightarrow> JsonRpcRequest option) \<Rightarrow> serializer \<Rightarrow> bool" where
  "libraries sd from_slice ser \<longleftrightarrow> faithful_serde sd \<and> reads_requests from_slice \<and> compact_serializer ser"

text \<open>A request that the firmware answers: the text goes out, the answer comes in, the host knows the outcome.\<close>

lemma exchange:
  assumes "libraries sd from_slice ser" "wire_request request = Some (method, params, command)"
    and "\<not> rt_enabled (mcu_raw m)" "execute_command command (mcu_uart m) = (outcome, u')"
  obtains answer where
    "handle_json_rpc from_slice ser (render (request_json rid method params)) JSON_RPC_BUFFER_SIZE m =
      (Some answer, m\<lparr>mcu_uart := u'\<rparr>)"
    "\<And>peer t d arrivals sent w. t \<le> d \<Longrightarrow> controller_request_with_timeout sd method params d
        (linked peer rid ((t, WsText answer) # arrivals) sent w) =
      (case outcome of Inr r \<Rightarrow> Inr (serialize_result r) | Inl e \<Rightarrow> Inl (failure_text e),
       linked peer (rid + 1) arrivals (sent @ [SentText (render (request_json rid method params))]) (w + t))"
proof -
  let ?answer = "render (outcome_json rid outcome)"
  have lib: "faithful_serde sd" "reads_requests from_slice" "compact_serializer ser"
    using assms(1) by (simp_all add: libraries_def)
  have sent: "sd_to_string sd (request_json rid method params) = Inr (render (request_json rid method params))"
    using lib(1) plain_params [OF assms(2)] by (simp add: faithful_serde_def)
  have "handle_json_rpc from_slice ser (render (request_json rid method params)) JSON_RPC_BUFFER_SIZE m =
      (Some ?answer, m\<lparr>mcu_uart := u'\<rparr>)"
    using mcu_answers [OF lib(2,3) assms(2,3), of rid] assms(4) by simp
  moreover have "controller_request_with_timeout sd method params d (linked peer rid ((t, WsText ?answer) # arrivals) sent w) =
      (case outcome of Inr r \<Rightarrow> Inr (serialize_result r) | Inl e \<Rightarrow> Inl (failure_text e),
       linked peer (rid + 1) arrivals (sent @ [SentText (render (request_json rid method params))]) (w + t))"
    if "t \<le> d" for peer t d arrivals sent w
  proof -
    have "fst (execute_command command (mcu_uart m)) = outcome" using assms(4) by simp
    from linked_answered [OF sent host_understands [OF lib(1) this] that] show ?thesis
      by (simp add: response_outcome_def failure_text_def split: sum.split)
  qed
  ultimately show thesis by (rule that)
qed

section \<open>One request of the browser\<close>

lemma servo_request_result:
  assumes "wire_request request = Some (method, params, command)" "\<not> out_of_range request" "is_controller c"
    and "controller_request_with_timeout sd method params (request_timeout request) c = (x, c')"
  shows "servo_request sd request c = (case x of Inl e \<Rightarrow> Inl e | Inr v \<Rightarrow> host_reads sd request v, c')"
  using assms unicast_range
  by (cases request)
     (auto simp: servo_request_def host_start_motor_def host_stop_motor_def host_move_position_def host_read_position_def
       host_scan_servos_def validate_id_def validate_scan_range_def accepted_request_def controller_request_def
       request_timeout_def host_reads_def try_then_def from_result_def return_ok_def return_err_def
       split: prod.splits sum.splits if_splits)

lemma failure_usable: "connection_is_usable_after (failure_text e)"
  by (simp add: failure_text_def usable_after_iff BROKEN_CONNECTION_PREFIXES_def)

lemma refusals_usable:
  "connection_is_usable_after (refusal request)"
  "connection_is_usable_after ''Servo ID must be between 1 and 253''"
  by (cases request rule: refusal.cases) (auto simp: usable_after_iff BROKEN_CONNECTION_PREFIXES_def)

text \<open>Responses that arrive within the time of an ordinary request, one after another.\<close>

definition in_time :: "(nat \<times> ws_incoming) list \<Rightarrow> string list \<Rightarrow> bool" where
  "in_time arrivals texts \<longleftrightarrow> map snd arrivals = map WsText texts \<and> list_all (\<lambda>(t, _). t \<le> HOST_SERVO_TIMEOUT) arrivals"

lemma in_time_simps [simp]:
  "in_time [] texts \<longleftrightarrow> texts = []" "in_time arrivals [] \<longleftrightarrow> arrivals = []"
  by (auto simp: in_time_def)

lemma in_time_ConsE:
  assumes "in_time arrivals (a # texts)"
  obtains t later where "arrivals = (t, WsText a) # later" "t \<le> HOST_SERVO_TIMEOUT" "in_time later texts"
  using assms by (cases arrivals) (auto simp: in_time_def)

lemma in_time_appendE:
  assumes "in_time arrivals (as @ bs)"
  obtains xs ys where "arrivals = xs @ ys" "in_time xs as" "in_time ys bs"
proof
  let ?n = "length as"
  have "map snd (take ?n arrivals) = map WsText as" "map snd (drop ?n arrivals) = map WsText bs"
    using assms by (simp_all add: in_time_def flip: take_map drop_map)
  with assms show "in_time (take ?n arrivals) as" "in_time (drop ?n arrivals) bs"
    by (auto simp: in_time_def list_all_iff dest: in_set_takeD in_set_dropD)
qed simp

lemma execute_get_position:
  "execute_command (GetPosition sid) u = (case read_position sid u of
     (Inr p, u) \<Rightarrow> (Inr (Position \<lparr>pr_id = sid, pr_position = p\<rparr>), u) | (Inl e, u) \<Rightarrow> (Inl e, resynchronize_uart u))"
  by (simp add: execute_command_def try_then_def return_ok_def split: prod.split sum.split)

lemma wire_get_position: "wire_request (CmReadPosition sid) = Some (''servo.getPosition'', id_params sid, GetPosition sid)"
  by simp

lemma read_position_linked:
  assumes "libraries sd from_slice ser" "\<not> rt_enabled (mcu_raw m)" "sid \<in> {1..253}" "read_one sid (mcu_uart m) = (r, u')"
  obtains answer where
    "handle_json_rpc from_slice ser (render (request_json rid ''servo.getPosition'' (id_params sid))) JSON_RPC_BUFFER_SIZE m =
      (Some answer, m\<lparr>mcu_uart := u'\<rparr>)"
    "\<And>peer t arrivals sent w. t \<le> HOST_SERVO_TIMEOUT \<Longrightarrow>
      host_read_position sd sid (linked peer rid ((t, WsText answer) # arrivals) sent w) =
        (r, linked peer (rid + 1) arrivals (sent @ [SentText (render (request_json rid ''servo.getPosition'' (id_params sid)))]) (w + t))"
proof -
  obtain outcome v where run: "execute_command (GetPosition sid) (mcu_uart m) = (outcome, v)" by fastforce
  have outcome: "v = u'" "case outcome of Inl e \<Rightarrow> r = Inl (failure_text e)
      | Inr x \<Rightarrow> \<exists>p. x = Position \<lparr>pr_id = sid, pr_position = p\<rparr> \<and> r = Inr p"
    using assms(3,4) run by (auto simp: read_one_def execute_get_position split: prod.splits sum.splits)
  obtain answer where answer:
    "handle_json_rpc from_slice ser (render (request_json rid ''servo.getPosition'' (id_params sid))) JSON_RPC_BUFFER_SIZE m =
      (Some answer, m\<lparr>mcu_uart := v\<rparr>)"
    "\<And>peer t d arrivals sent w. t \<le> d \<Longrightarrow> controller_request_with_timeout sd ''servo.getPosition'' (id_params sid) d
        (linked peer rid ((t, WsText answer) # arrivals) sent w) =
      (case outcome of Inr r \<Rightarrow> Inr (serialize_result r) | Inl e \<Rightarrow> Inl (failure_text e),
       linked peer (rid + 1) arrivals (sent @ [SentText (render (request_json rid ''servo.getPosition'' (id_params sid)))]) (w + t))"
    by (rule exchange [where rid = rid, OF assms(1) wire_get_position assms(2) run]) (rule that, assumption+)
  have valid: "validate_id sid = Inr ()" using assms(3) unicast_range by (simp add: validate_id_def)
  have checked: "checked_position sd sid (serialize_result (Position \<lparr>pr_id = sid, pr_position = p\<rparr>)) = Inr p" for p
  proof -
    have "uint sid < 256" using uint_lt2p [of sid] by simp
    then have "decode_position (serialize_result (Position \<lparr>pr_id = sid, pr_position = p\<rparr>)) = Some \<lparr>hp_id = sid, hp_position = p\<rparr>"
      by (simp add: serialize_position_def decode_position_def json_get_def read_int_in_def [of 0])
    with assms(1) show ?thesis by (simp add: checked_position_def libraries_def faithful_serde_def)
  qed
  have "host_read_position sd sid (linked peer rid ((t, WsText answer) # arrivals) sent w) =
      (r, linked peer (rid + 1) arrivals (sent @ [SentText (render (request_json rid ''servo.getPosition'' (id_params sid)))]) (w + t))"
    if "t \<le> HOST_SERVO_TIMEOUT" for peer t arrivals sent w
    using answer(2) [OF that] outcome(2) checked
    by (cases outcome) (auto simp: host_read_position_def valid from_result_def try_then_def controller_request_def
        simp del: serialize_result.simps)
  with answer(1) outcome(1) show thesis by (intro that) simp_all
qed

lemma position_requests_simps [simp]:
  "position_requests [] = []"
  "sid \<in> {1..253} \<Longrightarrow> position_requests (sid # ids) = (''servo.getPosition'', id_params sid) # position_requests ids"
  "sid \<notin> {1..253} \<Longrightarrow> position_requests (sid # ids) = position_requests ids"
  by (simp_all add: position_requests_def)

text \<open>A batch of positions goes out as requests one after another and comes back as one reply.\<close>

lemma batch_linked:
  assumes "libraries sd from_slice ser" "\<not> rt_enabled (mcu_raw m)"
    and "mcu_run from_slice ser (numbered rid (position_requests ids)) m = (texts, m')" "in_time arrivals texts"
    and "read_batch ids ps es (mcu_uart m) = (reply, u')"
  shows "m' = m\<lparr>mcu_uart := u'\<rparr> \<and>
    (\<exists>w'. host_read_positions_loop sd ids ps es (linked peer rid (arrivals @ later) sent w) =
      (Inr reply, linked peer (rid + of_nat (length (position_requests ids))) later
        (sent @ map SentText (numbered rid (position_requests ids))) w'))"
  using assms(2-)
proof (induction ids arbitrary: m rid texts arrivals ps es sent w)
  case Nil
  then show ?case by auto
next
  case (Cons sid ids)
  obtain r u1 where one: "read_one sid (mcu_uart m) = (r, u1)" by fastforce
  show ?case
  proof (cases "sid \<in> {1..253}")
    case False
    have r: "r = Inl ''Servo ID must be between 1 and 253''" "u1 = mcu_uart m"
      using one False by (simp_all add: read_one_def)
    have refused: "host_read_position sd sid c = (r, c)" for c
      using False unicast_range r by (simp add: host_read_position_def validate_id_def from_result_def try_then_def)
    have "read_batch ids ps (es @ [''Servo '' @ decimal (unat sid) @ '': '' @ ''Servo ID must be between 1 and 253'']) (mcu_uart m) = (reply, u')"
      using Cons.prems(4) one r by simp
    with Cons.IH [of m rid texts arrivals ps _ sent w] Cons.prems(1-3) False refused r refusals_usable(2)
    show ?thesis by simp
  next
    case True
    let ?text = "render (request_json rid ''servo.getPosition'' (id_params sid))"
    obtain answer where mcu: "handle_json_rpc from_slice ser ?text JSON_RPC_BUFFER_SIZE m = (Some answer, m\<lparr>mcu_uart := u1\<rparr>)"
      and host: "\<And>peer t arrivals sent w. t \<le> HOST_SERVO_TIMEOUT \<Longrightarrow>
        host_read_position sd sid (linked peer rid ((t, WsText answer) # arrivals) sent w) =
          (r, linked peer (rid + 1) arrivals (sent @ [SentText ?text]) (w + t))"
      using read_position_linked [OF assms(1) Cons.prems(1) True one] by blast
    obtain texts1 where texts: "texts = answer # texts1"
        "mcu_run from_slice ser (numbered (rid + 1) (position_requests ids)) (m\<lparr>mcu_uart := u1\<rparr>) = (texts1, m')"
      using Cons.prems(2) mcu True by (auto simp: Let_def split: prod.splits)
    obtain t arrivals1 where arr: "arrivals = (t, WsText answer) # arrivals1" "t \<le> HOST_SERVO_TIMEOUT" "in_time arrivals1 texts1"
      using Cons.prems(3) unfolding texts(1) by (rule in_time_ConsE)
    define ps1 where "ps1 = (case r of Inr p \<Rightarrow> ps @ [\<lparr>hp_id = sid, hp_position = p\<rparr>] | Inl _ \<Rightarrow> ps)"
    define es1 where "es1 = (case r of Inl e \<Rightarrow> es @ [''Servo '' @ decimal (unat sid) @ '': '' @ e] | Inr _ \<Rightarrow> es)"
    have rest: "read_batch ids ps1 es1 u1 = (reply, u')"
      using Cons.prems(4) one by (simp add: ps1_def es1_def split: sum.splits)
    have usable: "connection_is_usable_after e" if "r = Inl e" for e
      using one True that failure_usable by (auto simp: read_one_def split: prod.splits sum.splits)
    have "host_read_positions_loop sd (sid # ids) ps es (linked peer rid (arrivals @ later) sent w) =
        host_read_positions_loop sd ids ps1 es1 (linked peer (rid + 1) (arrivals1 @ later) (sent @ [SentText ?text]) (w + t))"
      using host [OF arr(2)] usable by (cases r) (simp_all add: arr(1) ps1_def es1_def)
    with Cons.IH [OF _ texts(2) arr(3), of ps1 es1 "sent @ [SentText ?text]" "w + t"] rest Cons.prems(1) True
    show ?thesis by (simp add: add.assoc)
  qed
qed

section \<open>Every request of the browser\<close>

definition servo_message :: "ClientMessage \<Rightarrow> bool" where
  "servo_message request \<longleftrightarrow> (case request of CmConnect _ _ \<Rightarrow> False | _ \<Rightarrow> True)"

lemma servo_handled:
  assumes "servo_message request" "st_bridge st = Some c" "servo_request sd request c = (x, c')"
    and "\<And>e. x = Inl e \<Longrightarrow> connection_is_usable_after e"
  shows "handle_request sd request st =
    (case x of Inr reply \<Rightarrow> reply | Inl e \<Rightarrow> ErrorMsg e True, st\<lparr>st_bridge := Some c'\<rparr>)"
  using assms by (cases request; cases x) (auto simp: servo_message_def handle_request_def Let_def)

lemma refused_unsent:
  assumes "out_of_range request" "servo_message request"
  shows "servo_request sd request c = (Inl (refusal request), c)"
  using assms unicast_range
  by (cases request)
     (auto simp: servo_message_def servo_request_def host_start_motor_def host_stop_motor_def host_move_position_def
       host_read_position_def host_read_positions_def host_scan_servos_def validate_id_def validate_scan_range_def
       from_result_def return_err_def try_then_def)

lemma request_linked:
  assumes "libraries sd from_slice ser" "\<not> rt_enabled (mcu_raw m)" "servo_message request"
    and "mcu_run from_slice ser (numbered rid (controller_requests request)) m = (texts, m')" "in_time arrivals texts"
    and "on_bus request (mcu_uart m) = (reply, u')"
    and "st_bridge st = Some (linked peer rid (arrivals @ later) sent w)"
  shows "m' = m\<lparr>mcu_uart := u'\<rparr> \<and> (\<exists>w'. handle_request sd request st =
    (reply, st\<lparr>st_bridge := Some (linked peer (rid + of_nat (length (controller_requests request))) later
      (sent @ map SentText (numbered rid (controller_requests request))) w')\<rparr>))"
proof (cases "out_of_range request")
  case True
  with assms show ?thesis
    using servo_handled [OF assms(3,7) refused_unsent [OF True assms(3)]] refusals_usable(1)
    by (auto simp: controller_requests_def on_bus_def)
next
  case inside: False
  show ?thesis
  proof (cases "\<exists>ids. request = CmReadPositions ids")
    case True
    then obtain ids where ids: "request = CmReadPositions ids" by blast
    with inside have cr: "controller_requests request = position_requests ids" "\<not> 6 < length ids"
      by (simp_all add: controller_requests_def)
    obtain w' where "m' = m\<lparr>mcu_uart := u'\<rparr>"
      "host_read_positions_loop sd ids [] [] (linked peer rid (arrivals @ later) sent w) =
        (Inr reply, linked peer (rid + of_nat (length (position_requests ids))) later
          (sent @ map SentText (numbered rid (position_requests ids))) w')"
      using batch_linked [OF assms(1,2) assms(4) [unfolded cr] assms(5), of "[]" "[]" reply u' peer later sent w]
        assms(6) inside ids by (auto simp: on_bus_def)
    with servo_handled [OF assms(3,7), of sd "Inr reply"] cr ids show ?thesis
      by (auto simp: servo_request_def host_read_positions_def)
  next
    case False
    with inside assms(3) obtain verb params command where wire: "wire_request request = Some (verb, params, command)"
      and cr: "controller_requests request = [(verb, params)]"
      by (cases request) (auto simp: servo_message_def controller_requests_def)
    obtain outcome v where run: "execute_command command (mcu_uart m) = (outcome, v)" by fastforce
    obtain answer where mcu: "handle_json_rpc from_slice ser (render (request_json rid verb params)) JSON_RPC_BUFFER_SIZE m =
        (Some answer, m\<lparr>mcu_uart := v\<rparr>)"
      and host: "\<And>peer t d arrivals sent w. t \<le> d \<Longrightarrow> controller_request_with_timeout sd verb params d
          (linked peer rid ((t, WsText answer) # arrivals) sent w) =
        (case outcome of Inr r \<Rightarrow> Inr (serialize_result r) | Inl e \<Rightarrow> Inl (failure_text e),
         linked peer (rid + 1) arrivals (sent @ [SentText (render (request_json rid verb params))]) (w + t))"
      by (rule exchange [where rid = rid, OF assms(1) wire assms(2) run]) (rule that, assumption+)
    have out: "m' = m\<lparr>mcu_uart := v\<rparr>" "texts = [answer]" using assms(4) mcu by (simp_all add: cr)
    obtain t where t: "arrivals = [(t, WsText answer)]" "t \<le> HOST_SERVO_TIMEOUT"
      using assms(5) unfolding out(2) by (elim in_time_ConsE) auto
    then have "t \<le> request_timeout request"
      by (auto simp: request_timeout_def HOST_SERVO_TIMEOUT_def SERVO_SCAN_TIMEOUT_def split: ClientMessage.split)
    from servo_request_result [OF wire inside linked_simps(1) host [OF this]]
    have servo: "servo_request sd request (linked peer rid (arrivals @ later) sent w) =
        (case outcome of Inr r \<Rightarrow> host_reads sd request (serialize_result r) | Inl e \<Rightarrow> Inl (failure_text e),
         linked peer (rid + 1) later (sent @ [SentText (render (request_json rid verb params))]) (w + t))"
      by (cases outcome) (simp_all add: t(1))
    have bus: "v = u'" "reply = (case outcome of Inr r \<Rightarrow> reply_of request r | Inl e \<Rightarrow> ErrorMsg (failure_text e) True)"
      using assms(6) inside False wire run by (cases request; cases outcome; auto simp: on_bus_def)+
    have reads: "host_reads sd request (serialize_result r) = Inr (reply_of request r)" if "outcome = Inr r" for r
      using host_reads_result [of sd request r] execute_command_fits [OF wire] run that assms(1) wire
      by (auto simp: libraries_def)
    show ?thesis
      using servo_handled [OF assms(3,7) servo] failure_usable reads out(1) bus
      by (cases outcome) (auto simp: cr)
  qed
qed

section \<open>The whole conversation\<close>

lemma numbered_append: "numbered rid (xs @ ys) = numbered rid xs @ numbered (rid + of_nat (length xs)) ys"
  by (induction rid xs rule: numbered.induct) (simp_all add: add.assoc)

lemma mcu_run_append:
  "mcu_run from_slice ser (xs @ ys) m = (case mcu_run from_slice ser xs m of (as, m1) \<Rightarrow>
     case mcu_run from_slice ser ys m1 of (bs, m2) \<Rightarrow> (as @ bs, m2))"
  by (induction xs arbitrary: m) (simp_all add: Let_def split: prod.splits option.splits)

text \<open>Everything the host asks in a conversation.\<close>

definition conversation_requests :: "ClientMessage list \<Rightarrow> (string \<times> json) list" where
  "conversation_requests requests = concat (map controller_requests requests)"

lemma conversation_linked:
  assumes "libraries sd from_slice ser" "\<not> rt_enabled (mcu_raw m)" "list_all servo_message requests"
    and "mcu_run from_slice ser (numbered rid (conversation_requests requests)) m = (texts, m')" "in_time arrivals texts"
    and "bus_run requests (mcu_uart m) = (replies, u')" "st_bridge st = Some (linked peer rid arrivals sent w)"
  shows "m' = m\<lparr>mcu_uart := u'\<rparr> \<and> (\<exists>w'. host_run sd requests st = (replies, st\<lparr>st_bridge :=
    Some (linked peer (rid + of_nat (length (conversation_requests requests))) []
      (sent @ map SentText (numbered rid (conversation_requests requests))) w')\<rparr>))"
  using assms(2-)
proof (induction requests arbitrary: m rid texts arrivals replies st sent w)
  case Nil
  then show ?case by (cases st) (auto simp: conversation_requests_def)
next
  case (Cons request requests)
  let ?n = "of_nat (length (controller_requests request)) :: u32"
  have requests: "conversation_requests (request # requests) = controller_requests request @ conversation_requests requests"
    by (simp add: conversation_requests_def)
  obtain texts1 m1 where mcu1: "mcu_run from_slice ser (numbered rid (controller_requests request)) m = (texts1, m1)"
    by fastforce
  obtain texts2 where mcu2: "mcu_run from_slice ser (numbered (rid + ?n) (conversation_requests requests)) m1 = (texts2, m')"
    and texts: "texts = texts1 @ texts2"
    using Cons.prems(3) mcu1 by (auto simp: requests numbered_append mcu_run_append split: prod.splits)
  obtain arrivals1 arrivals2 where arr: "arrivals = arrivals1 @ arrivals2" "in_time arrivals1 texts1" "in_time arrivals2 texts2"
    using Cons.prems(4) unfolding texts by (rule in_time_appendE)
  obtain reply u1 where bus1: "on_bus request (mcu_uart m) = (reply, u1)" by fastforce
  obtain replies1 where bus2: "bus_run requests u1 = (replies1, u')" "replies = reply # replies1"
    using Cons.prems(5) bus1 by (auto simp: Let_def split: prod.splits)
  obtain w1 where m1: "m1 = m\<lparr>mcu_uart := u1\<rparr>" and host1: "handle_request sd request st =
      (reply, st\<lparr>st_bridge := Some (linked peer (rid + ?n) arrivals2
        (sent @ map SentText (numbered rid (controller_requests request))) w1)\<rparr>)"
    using request_linked [OF assms(1) Cons.prems(1) _ mcu1 arr(2) bus1, of st peer arrivals2 sent w] Cons.prems(2,6)
    by (auto simp: arr(1))
  let ?st = "st\<lparr>st_bridge := Some (linked peer (rid + ?n) arrivals2
        (sent @ map SentText (numbered rid (controller_requests request))) w1)\<rparr>"
  have "m' = m1\<lparr>mcu_uart := u'\<rparr> \<and> (\<exists>w'. host_run sd requests ?st = (replies1, ?st\<lparr>st_bridge :=
      Some (linked peer (rid + ?n + of_nat (length (conversation_requests requests))) []
        ((sent @ map SentText (numbered rid (controller_requests request))) @
          map SentText (numbered (rid + ?n) (conversation_requests requests))) w')\<rparr>))"
    using Cons.prems(1,2) m1 bus2(1) by (intro Cons.IH [OF _ _ mcu2 arr(3)]) simp_all
  then show ?case
    using host1 by (auto simp: m1 requests numbered_append bus2(2) add.assoc)
qed

section \<open>Properties\<close>

text \<open>C1. Host, connection and firmware together are the service on the bus: when the browser sends any sequence
  of servo requests, valid or not, and the connection delivers the firmware's answers to the texts that
  the host sends, each within the time of an ordinary request, then the browser gets exactly the replies, in
  order, of a service that carries out the same requests directly on the servo bus, and the bus is left in exactly
  the same state. The texts that the firmware answered are those the host sent, numbered in order; all answers
  are used up and the bridge is kept.\<close>
theorem browser_drives_the_bus:
  assumes "faithful_serde sd" "reads_requests from_slice" "compact_serializer ser"
    and "list_all servo_message requests" "\<not> rt_enabled (mcu_raw m)"
    and "st_bridge st = Some (linked peer rid arrivals [] 0)"
    and "mcu_run from_slice ser (numbered rid (conversation_requests requests)) m = (texts, m')"
    and "map snd arrivals = map WsText texts" "list_all (\<lambda>(t, _). t \<le> HOST_SERVO_TIMEOUT) arrivals"
  shows "mcu_uart m' = snd (bus_run requests (mcu_uart m)) \<and>
    (\<exists>w. host_run sd requests st = (fst (bus_run requests (mcu_uart m)), st\<lparr>st_bridge :=
      Some (linked peer (rid + of_nat (length (conversation_requests requests))) []
        (map SentText (numbered rid (conversation_requests requests))) w)\<rparr>))"
proof -
  have "libraries sd from_slice ser" using assms(1-3) by (simp add: libraries_def)
  moreover have "in_time arrivals texts" using assms(8,9) by (simp add: in_time_def)
  ultimately show ?thesis
    using conversation_linked [OF _ assms(5,4,7) _ _ assms(6), of sd "fst (bus_run requests (mcu_uart m))"
        "snd (bus_run requests (mcu_uart m))"] by auto
qed

text \<open>A stop for the broadcast address is refused, then servo 2 answers one reading.\<close>

definition reading_mcu :: mcu where
  "reading_mcu = \<lparr>mcu_uart = \<lparr>rx_events = reply_events 2 [1, 0x80], tx_results = [], tx_written = []\<rparr>, mcu_raw = raw_new\<rparr>"

definition asked :: "ClientMessage list" where
  "asked = [CmStopMotor 254, CmReadPosition 2]"

definition answer_texts :: "string list" where
  "answer_texts = fst (mcu_run reference_from_slice compact_ser (numbered 1 (conversation_requests asked)) reading_mcu)"

definition linked_state :: AppState where
  "linked_state = \<lparr>st_bridge = Some (linked ''mcu:3333'' 1 (map (\<lambda>t. (20, WsText t)) answer_texts) [] 0),
     st_transport = ControllerMode, st_net = \<lparr>net_dials = [], net_raw_dials = []\<rparr>\<rparr>"

theorem browser_drives_the_bus_witness:
  "fst (host_run reference_serde asked linked_state) =
     [ErrorMsg ''Servo ID must be between 1 and 253'' True, PositionMsg 2 (- 1)]"
proof -
  obtain m' where mcu: "mcu_run reference_from_slice compact_ser (numbered 1 (conversation_requests asked)) reading_mcu =
      (answer_texts, m')"
    unfolding answer_texts_def by (metis prod.collapse)
  have "fst (execute_command (GetPosition 2) (mcu_uart reading_mcu)) = Inr (Position \<lparr>pr_id = 2, pr_position = - 1\<rparr>)"
    using sample_reading unfolding reading_mcu_def
    by (simp add: execute_command_def try_then_ok [where m = "read_position 2"] return_ok_def split: prod.splits)
  then have bus: "fst (bus_run asked (mcu_uart reading_mcu)) =
      [ErrorMsg ''Servo ID must be between 1 and 253'' True, PositionMsg 2 (- 1)]"
    by (auto simp: asked_def on_bus_def Let_def split: prod.splits)
  have "\<exists>w. host_run reference_serde asked linked_state = (fst (bus_run asked (mcu_uart reading_mcu)), linked_state\<lparr>st_bridge :=
      Some (linked ''mcu:3333'' (1 + of_nat (length (conversation_requests asked))) []
        (map SentText (numbered 1 (conversation_requests asked))) w)\<rparr>)"
    by (rule conjunct2 [OF browser_drives_the_bus [where peer = "''mcu:3333''" and
        arrivals = "map (\<lambda>t. (20, WsText t)) answer_texts", OF faithful_reference reads_reference compact_ser _ _ _ mcu]])
       (simp_all add: asked_def servo_message_def reading_mcu_def raw_new_def linked_state_def list_all_iff
         HOST_SERVO_TIMEOUT_def comp_def)
  then show ?thesis using bus by auto
qed

end
