(* ===== verification/Mode_Equivalence.thy ===== *)
theory Mode_Equivalence
  imports End_To_End
begin

text \<open>
  The two ways from a servo request to the servo: in controller mode the firmware carries it out on its
  UART (\<open>src/src/bin/main.rs\<close>), in the debug mode the host itself does, through the raw tunnel
  (\<open>src/host/src/main.rs\<close>). Both drivers are instances of one interface, a register bus whose writes
  are acknowledged by replies in a stream of bytes; what such a bus sends for a plan and when it
  succeeds is proved once. On the same incoming bytes both then send the same packets and succeed with
  the same reply.
\<close>

section \<open>Plans over an acknowledged bus\<close>

text \<open>The packets of a plan that go out when these bytes come in, and whether all are acknowledged.\<close>

fun sent_for :: "u8 \<Rightarrow> plan \<Rightarrow> u8 list \<Rightarrow> u8 list list" where
  "sent_for sid [] bs = []"
| "sent_for sid ((a, d) # plan) bs = instruction_packet sid 3 (a # d) #
     (case reply_in_stream sid bs of Reply [] rest \<Rightarrow> sent_for sid plan rest | _ \<Rightarrow> [])"

fun acknowledged :: "u8 \<Rightarrow> plan \<Rightarrow> u8 list \<Rightarrow> bool" where
  "acknowledged sid [] bs \<longleftrightarrow> True"
| "acknowledged sid (_ # plan) bs \<longleftrightarrow>
     (case reply_in_stream sid bs of Reply [] rest \<Rightarrow> acknowledged sid plan rest | _ \<Rightarrow> False)"

locale acknowledged_bus = register_bus wr written usable
  for wr :: "u8 \<Rightarrow> u8 \<Rightarrow> u8 list \<Rightarrow> ('s, 'e, unit) action" and written and usable +
  fixes pending :: "'s \<Rightarrow> u8 list"
  assumes wr_acknowledged: "usable s \<Longrightarrow> length d \<le> 7 \<Longrightarrow> wr sid a d s = (r, s') \<Longrightarrow>
      r = Inr () \<longleftrightarrow> (\<exists>rest. reply_in_stream sid (pending s) = Reply [] rest)"
    and wr_consumes: "usable s \<Longrightarrow> length d \<le> 7 \<Longrightarrow> wr sid a d s = (Inr (), s') \<Longrightarrow>
      reply_in_stream sid (pending s) = Reply [] rest \<Longrightarrow> pending s' = rest"
begin

lemma write_plan_Cons: "write_plan wr sid ((a, d) # plan) s = try_then (wr sid a d) (\<lambda>_. write_plan wr sid plan) s"
  by (cases plan) (simp_all add: try_then_def return_ok_def split: prod.split sum.split)

lemma plan_result:
  assumes "usable s" "short_plan plan" "write_plan wr sid plan s = (r, s')"
  shows "(r = Inr () \<longleftrightarrow> acknowledged sid plan (pending s)) \<and> written s' = written s @ sent_for sid plan (pending s)"
  using assms
proof (induction plan arbitrary: s)
  case Nil
  then show ?case by (auto simp: return_ok_def)
next
  case (Cons ad plan)
  obtain a d where ad: "ad = (a, d)" by (cases ad)
  have d: "length d \<le> 7" "short_plan plan" using Cons.prems(2) by (simp_all add: ad short_plan_def)
  obtain r1 s1 where w: "wr sid a d s = (r1, s1)" by fastforce
  note one = wr_one_packet [OF Cons.prems(1) d(1) w] and ack = wr_acknowledged [OF Cons.prems(1) d(1) w]
  have run: "try_then (wr sid a d) (\<lambda>_. write_plan wr sid plan) s = (r, s')"
    using Cons.prems(3) by (simp only: ad write_plan_Cons)
  show ?case
  proof (cases r1)
    case (Inl e)
    with w run have "r = Inl e" "s' = s1" by simp_all
    with Inl ack one show ?thesis by (auto simp: ad split: stream_reply.split list.split)
  next
    case (Inr x)
    with ack obtain rest where rest: "reply_in_stream sid (pending s) = Reply [] rest" by auto
    from Inr w have "wr sid a d s = (Inr (), s1)" by simp
    from wr_consumes [OF Cons.prems(1) d(1) this rest] have "pending s1 = rest" .
    moreover have "write_plan wr sid plan s1 = (r, s')" using w run Inr by simp
    ultimately show ?thesis using Cons.IH [of s1] one d(2) rest by (simp add: ad)
  qed
qed

end

section \<open>The firmware's UART\<close>

definition keeps_tx :: "(uart, 'e, 'a) action \<Rightarrow> bool" where
  "keeps_tx m \<longleftrightarrow> (\<forall>u. tx_results (snd (m u)) = tx_results u)"

named_theorems keeps_tx_intro \<open>actions that leave the outcomes of the coming writes alone\<close>

lemma keeps_tx_basic [keeps_tx_intro]:
  "keeps_tx (return_ok a)" "keeps_tx (return_err e)" "keeps_tx read_uart_byte"
  by (auto simp: keeps_tx_def return_ok_def return_err_def read_uart_byte_def split: prod.splits option.splits)

lemma keeps_tx_try_then [keeps_tx_intro]:
  assumes "keeps_tx m" "\<And>a. keeps_tx (k a)"
  shows "keeps_tx (try_then m k)"
  unfolding keeps_tx_def
proof
  fix u
  show "tx_results (snd (try_then m k u)) = tx_results u"
    by (cases rule: try_then_cases [of m u k]) (use assms in \<open>auto simp: keeps_tx_def dest: spec [of _ u]\<close>)
qed

lemma keeps_tx_search_header [keeps_tx_intro]: "keeps_tx (search_header n previous)"
  by (induction n arbitrary: previous) (auto intro!: keeps_tx_intro)

lemma keeps_tx_read_uart_bytes [keeps_tx_intro]: "keeps_tx (read_uart_bytes n)"
  by (induction n) (auto intro!: keeps_tx_intro)

lemma keeps_tx_read_sts_status: "keeps_tx (read_sts_status sid)"
  unfolding read_sts_status_def Let_def by (auto intro!: keeps_tx_intro split: sum.splits)

text \<open>What a successful transaction leaves unread.\<close>

lemma read_sts_status_rest:
  assumes "reply_in_stream sid (arriving (rx_events u)) = Reply ps rest"
  shows "\<exists>u'. read_sts_status sid u = (Inr (padded_status ps), u') \<and> arriving (rx_events u') = rest"
proof -
  obtain b0 b1 bs st where hdr: "header_in 128 0 (arriving (rx_events u)) = HeaderAt (b0 # b1 # bs)"
    and len: "2 \<le> unat b1" "unat b1 \<le> 66" "unat b1 \<le> length bs"
    and dec: "the (decode_status_packet ([b0, b1] @ take (unat b1) bs) sid) = Inr st"
    and st: "sp_error st = 0" "ps = sp_parameters st" "rest = drop (unat b1) bs"
    using assms by (auto simp: reply_in_stream_def split: header_search.splits list.splits if_splits sum.splits)
  obtain u1 where u1: "search_header 128 0 u = (Inr True, u1)" "arriving (rx_events u1) = b0 # b1 # bs"
    using search_header_arriving [of 128 0 u] hdr by auto
  obtain u2 where u2: "read_uart_byte u1 = (Inr b0, u2)" "arriving (rx_events u2) = b1 # bs"
    by (cases u1 rule: read_uart_byte_cases) (use u1(2) in auto)
  obtain u3 where u3: "read_uart_byte u2 = (Inr b1, u3)" "arriving (rx_events u3) = bs"
    by (cases u2 rule: read_uart_byte_cases) (use u2(2) in auto)
  obtain u4 where u4: "read_uart_bytes (unat b1) u3 = (Inr (take (unat b1) bs), u4)" "arriving (rx_events u4) = rest"
    using read_uart_bytes_arriving [of u3 "unat b1"] u3(2) len(3) st(3) by auto
  have small: "length (sp_parameters st) \<le> 64"
    using dec decode_status_packet_okD(1) [of "[b0, b1] @ take (unat b1) bs" sid st] by (simp add: decode_status_packet_alt)
  have "read_sts_status sid u = (Inr (padded_status ps), u4)"
    unfolding read_sts_status_def Let_def
    using u1 u2 u3 u4(1) len dec st small by (simp add: return_ok_def copy_into_payload)
  with u4(2) show ?thesis by blast
qed

definition uart_usable :: "uart \<Rightarrow> bool" where
  "uart_usable u \<longleftrightarrow> tx_results u = []"

definition uart_pending :: "uart \<Rightarrow> u8 list" where
  "uart_pending u = arriving (rx_events u)"

lemma send_sts_packet_usable:
  assumes "uart_usable u" "length ps \<le> 10" "send_sts_packet sid ins ps u = (r, u')"
  shows "uart_usable u'" "r = status_result (reply_in_stream sid (uart_pending u))"
    "tx_written u' = tx_written u @ [instruction_packet sid ins ps]"
    "reply_in_stream sid (uart_pending u) = Reply qs rest \<Longrightarrow> uart_pending u' = rest"
proof -
  let ?v = "u\<lparr>tx_written := tx_written u @ [instruction_packet sid ins ps]\<rparr>"
  have run: "with_response_timeout (read_sts_status sid) ?v = (r, u')"
    using assms by (simp add: send_sts_packet_outcome uart_write_all_def uart_usable_def)
  have "tx_results (snd (read_sts_status sid ?v)) = tx_results ?v"
    using keeps_tx_read_sts_status by (simp only: keeps_tx_def)
  with run assms(1) show "uart_usable u'"
    by (auto simp: with_response_timeout_def uart_usable_def split: prod.splits sum.splits interrupted.splits)
  show "r = status_result (reply_in_stream sid (uart_pending u))"
    using send_sts_packet_result [of sid ins ps u] assms by (simp add: uart_usable_def uart_pending_def)
  show "tx_written u' = tx_written u @ [instruction_packet sid ins ps]"
    using send_sts_packet_written [of sid ins ps u] assms by simp
  show "uart_pending u' = rest" if reply: "reply_in_stream sid (uart_pending u) = Reply qs rest"
    using read_sts_status_rest [of sid ?v qs rest] reply run
    by (auto simp: with_response_timeout_def uart_pending_def)
qed

interpretation firmware: acknowledged_bus write_register tx_written uart_usable uart_pending
proof unfold_locales
  fix s s' :: uart and d sid a r
  assume u: "uart_usable s" and d: "length (d :: u8 list) \<le> 7" and w: "write_register sid a d s = (r, s')"
  obtain r1 where run: "send_sts_packet sid STS_INSTRUCTION_WRITE (a # d) s = (r1, s')"
    and r: "r = (case r1 of Inl e \<Rightarrow> Inl e | Inr st \<Rightarrow> if payload_len st = 0 then Inr () else Inl InvalidReply)"
    using w d by (cases "send_sts_packet sid STS_INSTRUCTION_WRITE (a # d) s")
      (auto simp: write_register_alt try_then_def return_ok_def return_err_def split: sum.splits if_splits)
  have short: "length (a # d) \<le> 10" using d by simp
  note sent = send_sts_packet_usable [OF u short run]
  show "tx_written s' = tx_written s @ [instruction_packet sid 3 (a # d)] \<and> uart_usable s'"
    using sent(1,3) by (simp add: STS_INSTRUCTION_WRITE_def)
  show "r = Inr () \<longleftrightarrow> (\<exists>rest. reply_in_stream sid (uart_pending s) = Reply [] rest)"
    using r sent(2) by (cases "reply_in_stream sid (uart_pending s)") (auto simp: padded_status_def)
next
  fix s s' :: uart and d sid a rest
  assume u: "uart_usable s" and d: "length (d :: u8 list) \<le> 7" and w: "write_register sid a d s = (Inr (), s')"
    and reply: "reply_in_stream sid (uart_pending s) = Reply [] rest"
  obtain r1 where run: "send_sts_packet sid STS_INSTRUCTION_WRITE (a # d) s = (r1, s')"
    using w d by (cases "send_sts_packet sid STS_INSTRUCTION_WRITE (a # d) s")
      (auto simp: write_register_alt try_then_def return_ok_def return_err_def split: sum.splits if_splits)
  have short: "length (a # d) \<le> 10" using d by simp
  from send_sts_packet_usable(4) [OF u short run reply] show "uart_pending s' = rest" .
qed

section \<open>The host's raw connection\<close>

definition reads_only :: "(tcp_stream, string, 'a) action \<Rightarrow> bool" where
  "reads_only m \<longleftrightarrow> (\<forall>s. \<exists>es. snd (m s) = s\<lparr>ts_rx := es\<rparr>)"

named_theorems reads_only_intro \<open>actions that only take from what the stream delivers\<close>

lemma reads_only_basic [reads_only_intro]:
  "reads_only (return_ok a)" "reads_only (return_err e)" "reads_only (read_exact_with_timeout n)"
  unfolding reads_only_def return_ok_def return_err_def read_exact_with_timeout_def
  by (metis snd_conv tcp_stream.surjective tcp_stream.update_convs(1), metis snd_conv tcp_stream.surjective
      tcp_stream.update_convs(1)) (auto split: prod.split)

lemma reads_only_try_then [reads_only_intro]:
  assumes "reads_only m" "\<And>a. reads_only (k a)"
  shows "reads_only (try_then m k)"
  unfolding reads_only_def
proof
  fix s
  show "\<exists>es. snd (try_then m k s) = s\<lparr>ts_rx := es\<rparr>"
  proof (cases rule: try_then_cases [of m s k])
    case (err e s')
    with assms(1) show ?thesis unfolding reads_only_def by (metis snd_conv)
  next
    case (ok a s')
    from assms(1) ok(1) obtain es where "s' = s\<lparr>ts_rx := es\<rparr>" unfolding reads_only_def by (metis snd_conv)
    moreover obtain es' where "snd (k a s') = s'\<lparr>ts_rx := es'\<rparr>" using assms(2) by (auto simp: reads_only_def)
    ultimately show ?thesis using ok(2) by auto
  qed
qed

lemma reads_only_if [reads_only_intro]: "reads_only m \<Longrightarrow> reads_only m' \<Longrightarrow> reads_only (if b then m else m')"
  by simp

lemma reads_only_find_header [reads_only_intro]: "reads_only (find_header_loop n previous)"
  by (induction n arbitrary: previous) (auto intro!: reads_only_intro)

lemma reads_only_read_status: "reads_only (read_status_stream sid n)"
  unfolding read_status_stream_def find_header_def status_body_checked_def Let_def
  by (intro reads_only_intro)

text \<open>The bytes the tunnel delivers before it stalls.\<close>

fun tcp_pending :: "tcp_event list \<Rightarrow> u8 list" where
  "tcp_pending (TcpByte b # es) = b # tcp_pending es"
| "tcp_pending _ = []"

lemma tcp_pending_bytes: "stalled es \<Longrightarrow> tcp_pending (map TcpByte bs @ es) = bs"
  by (induction bs) (auto elim: stalled.elims)

lemma tcp_pending_split: "\<exists>rest. es = map TcpByte (tcp_pending es) @ rest \<and> stalled rest"
  by (induction es rule: tcp_pending.induct) auto

definition raw_usable :: "BridgeConnection \<Rightarrow> bool" where
  "raw_usable c \<longleftrightarrow> (case bc_transport c of DebugRaw s \<Rightarrow> ts_tx_outcomes s = [] | Controller _ \<Rightarrow> False)"

definition raw_pending :: "BridgeConnection \<Rightarrow> u8 list" where
  "raw_pending c = (case bc_transport c of DebugRaw s \<Rightarrow> tcp_pending (ts_rx s) | Controller _ \<Rightarrow> [])"

lemma raw_transaction:
  assumes "raw_usable c" "length ps \<le> 253" "try_then (write_packet sid ins ps) (\<lambda>_. read_status sid n) c = (r, c')"
  shows "raw_usable c'" "raw_written c' = raw_written c @ [instruction_packet sid ins ps]"
    "r = Inr qs \<longleftrightarrow> length qs = n \<and> (\<exists>rest. reply_in_stream sid (raw_pending c) = Reply qs rest)"
    "r = Inr qs \<Longrightarrow> reply_in_stream sid (raw_pending c) = Reply qs rest \<Longrightarrow> raw_pending c' = rest"
proof -
  obtain s where s: "bc_transport c = DebugRaw s" "ts_tx_outcomes s = []"
    using assms(1) by (auto simp: raw_usable_def split: BridgeTransport.splits)
  let ?s = "s\<lparr>ts_tx := ts_tx s @ [instruction_packet sid ins ps]\<rparr>"
  have w: "write_packet sid ins ps c = (Inr (), c\<lparr>bc_transport := DebugRaw ?s\<rparr>)"
    using write_packet_raw [OF s(1) assms(2)] s(2) by (simp add: write_with_timeout_def Let_def)
  obtain s' where run: "read_status_stream sid n ?s = (r, s')" "c' = c\<lparr>bc_transport := DebugRaw s'\<rparr>"
    using assms(3) w by (auto simp: read_status_def raw_stream_mut_def split: prod.splits)
  obtain es where es: "s' = ?s\<lparr>ts_rx := es\<rparr>"
    using reads_only_read_status [of sid n] run(1) unfolding reads_only_def by (metis snd_conv)
  show "raw_usable c'" using es s(2) run(2) by (simp add: raw_usable_def)
  show "raw_written c' = raw_written c @ [instruction_packet sid ins ps]"
    using es run(2) s(1) by (simp add: raw_written_def)
  obtain quiet where quiet: "ts_rx ?s = map TcpByte (tcp_pending (ts_rx s)) @ quiet" "stalled quiet"
    using tcp_pending_split [of "ts_rx s"] by auto
  have agrees: "r = Inr qs \<longleftrightarrow> length qs = n \<and>
      (\<exists>rest. reply_in_stream sid (raw_pending c) = Reply qs rest \<and> s' = ?s\<lparr>ts_rx := map TcpByte rest @ quiet\<rparr>)" for qs
    using read_status_agrees [OF quiet, of sid n qs s'] run(1) by (simp add: raw_pending_def s(1))
  show "r = Inr qs \<longleftrightarrow> length qs = n \<and> (\<exists>rest. reply_in_stream sid (raw_pending c) = Reply qs rest)"
  proof
    assume "length qs = n \<and> (\<exists>rest. reply_in_stream sid (raw_pending c) = Reply qs rest)"
    then obtain rest where "length qs = n" "reply_in_stream sid (raw_pending c) = Reply qs rest" by blast
    then have "read_status_stream sid n ?s = (Inr qs, ?s\<lparr>ts_rx := map TcpByte rest @ quiet\<rparr>)"
      using read_status_agrees [OF quiet] by (simp add: raw_pending_def s(1))
    with run(1) show "r = Inr qs" by simp
  qed (use agrees in blast)
  show "raw_pending c' = rest" if "r = Inr qs" "reply_in_stream sid (raw_pending c) = Reply qs rest"
    using agrees [of qs] that run(2) quiet(2) by (auto simp: raw_pending_def tcp_pending_bytes)
qed

lemma host_write_cases:
  assumes "raw_usable c" "length d \<le> 7" "host_write_register sid a d c = (r, c')"
  obtains r1 where "try_then (write_packet sid 3 (a # d)) (\<lambda>_. read_status sid 0) c = (r1, c')" "r = Inr () \<longleftrightarrow> r1 = Inr []"
proof -
  let ?t = "try_then (write_packet sid 3 (a # d)) (\<lambda>_. read_status sid 0)"
  obtain r1 c1 where run: "?t c = (r1, c1)" by fastforce
  have "host_write_register sid a d = try_then ?t (\<lambda>_. return_ok ())"
    by (simp add: host_write_register_def try_then_assoc)
  then have "c1 = c'" "r = Inr () \<longleftrightarrow> (\<exists>qs. r1 = Inr qs)"
    using run assms(3) by (cases r1; auto simp: return_ok_def)+
  moreover have "qs = []" if "r1 = Inr qs" for qs
    using raw_transaction(3) [OF assms(1) _ run, of qs] that assms(2) by simp
  ultimately show thesis using run by (intro that) auto
qed

interpretation tunnel: acknowledged_bus host_write_register raw_written raw_usable raw_pending
proof unfold_locales
  fix c c' :: BridgeConnection and d sid a r
  assume c: "raw_usable c" and d: "length (d :: u8 list) \<le> 7" and w: "host_write_register sid a d c = (r, c')"
  obtain r1 where run: "try_then (write_packet sid 3 (a # d)) (\<lambda>_. read_status sid 0) c = (r1, c')"
    and r: "r = Inr () \<longleftrightarrow> r1 = Inr []"
    using host_write_cases [OF c d w] .
  have short: "length (a # d) \<le> 253" using d by simp
  note sent = raw_transaction [OF c short run]
  show "raw_written c' = raw_written c @ [instruction_packet sid 3 (a # d)] \<and> raw_usable c'"
    using sent(1,2) by simp
  show "r = Inr () \<longleftrightarrow> (\<exists>rest. reply_in_stream sid (raw_pending c) = Reply [] rest)"
    using r sent(3) [of "[]"] by simp
next
  fix c c' :: BridgeConnection and d sid a rest
  assume c: "raw_usable c" and d: "length (d :: u8 list) \<le> 7" and w: "host_write_register sid a d c = (Inr (), c')"
    and reply: "reply_in_stream sid (raw_pending c) = Reply [] rest"
  obtain r1 where run: "try_then (write_packet sid 3 (a # d)) (\<lambda>_. read_status sid 0) c = (r1, c')"
    and r: "r1 = Inr []"
    using host_write_cases [OF c d w] by auto
  have short: "length (a # d) \<le> 253" using d by simp
  from raw_transaction(4) [OF c short run r reply] show "raw_pending c' = rest" .
qed

section \<open>Commands in both modes\<close>

text \<open>The writes of each motion request.\<close>

fun request_plan :: "ClientMessage \<Rightarrow> (u8 \<times> plan) option" where
  "request_plan (CmStartMotor sid speed acceleration direction) =
     Some (sid, start_plan (direction = DirCounterclockwise) speed acceleration)"
| "request_plan (CmStopMotor sid) = Some (sid, stop_plan)"
| "request_plan (CmMovePosition sid position acceleration torque_limit) =
     Some (sid, move_plan position acceleration torque_limit)"
| "request_plan _ = None"

lemma unicast_ids: "is_unicast_servo_id sid \<longleftrightarrow> sid \<in> {1..253}"
  by (auto simp: is_unicast_servo_id_def MAX_SERVO_ID_def STS_BROADCAST_ID_def word_le_nat_alt Suc_le_eq unat_gt_0)

lemma firmware_plan:
  assumes "request_plan request = Some (sid, plan)" "\<not> out_of_range request" "wire_request request = Some (verb, params, command)"
  shows "dispatch_command command = try_then (write_plan write_register sid plan) (\<lambda>_. return_ok Accepted)" "short_plan plan"
  using assms
  by (cases request; auto simp: start_motor_plan stop_motor_plan move_position_plan unicast_ids not_less)+

lemma tunnel_plan:
  assumes "request_plan request = Some (sid, plan)" "\<not> out_of_range request" "raw_usable c"
  shows "servo_request sd request c = try_then (write_plan host_write_register sid plan) (\<lambda>_. return_ok (reply_of request Accepted)) c"
proof -
  have "\<not> is_controller c" using assms(3) by (auto simp: raw_usable_def is_controller_def split: BridgeTransport.splits)
  with assms(1,2) unicast_range show ?thesis
    by (cases request) (auto simp: servo_request_def host_start_motor_def host_stop_motor_def host_move_position_def
      validate_id_def from_result_def try_then_def raw_plans not_less)
qed

lemma resynchronize_written: "tx_written (resynchronize_uart u) = tx_written u"
  by (simp add: resynchronize_uart_def)

lemma plan_modes:
  assumes "request_plan request = Some (sid, plan)" "\<not> out_of_range request" "wire_request request = Some (verb, params, command)"
    and "raw_usable c" "uart_usable u" "raw_pending c = uart_pending u"
    and "servo_request sd request c = (raw, c')" "execute_command command u = (direct, u')"
  shows "(raw = Inr reply \<longleftrightarrow> (\<exists>r. direct = Inr r \<and> reply = reply_of request r)) \<and>
    raw_written c' = raw_written c @ sent_for sid plan (uart_pending u) \<and>
    tx_written u' = tx_written u @ sent_for sid plan (uart_pending u)"
proof -
  obtain r1 c1 where raw1: "write_plan host_write_register sid plan c = (r1, c1)" by fastforce
  obtain r2 u2 where direct2: "write_plan write_register sid plan u = (r2, u2)" by fastforce
  note raw_plan = tunnel.plan_result [OF assms(4) firmware_plan(2) [OF assms(1-3)] raw1]
  note direct_plan = firmware.plan_result [OF assms(5) firmware_plan(2) [OF assms(1-3)] direct2]
  have raw: "c' = c1" "raw = (case r1 of Inl e \<Rightarrow> Inl e | Inr _ \<Rightarrow> Inr (reply_of request Accepted))"
    using assms(7) raw1 by (cases r1; auto simp: tunnel_plan [OF assms(1,2,4)] return_ok_def)+
  have direct: "tx_written u' = tx_written u2" "direct = (case r2 of Inl e \<Rightarrow> Inl e | Inr _ \<Rightarrow> Inr Accepted)"
    using assms(8) direct2
    by (cases r2; auto simp: execute_command_def firmware_plan(1) [OF assms(1-3)] return_ok_def resynchronize_written)+
  show ?thesis
    using raw direct raw_plan direct_plan assms(6) by (cases r1; cases r2) auto
qed

lemma decoders_equal: "host_decode_signed_15 = decode_signed_15"
  by (simp add: fun_eq_iff host_decode_signed_15_def decode_signed_15_def)

lemma reading_modes:
  assumes "sid \<in> {1..253}" "raw_usable c" "uart_usable u" "raw_pending c = uart_pending u"
    and "raw_read_position sid c = (raw, c')" "read_position sid u = (direct, u')"
  shows "(raw = Inr p \<longleftrightarrow> direct = Inr p) \<and>
    raw_written c' = raw_written c @ [instruction_packet sid 2 [56, 2]] \<and>
    tx_written u' = tx_written u @ [instruction_packet sid 2 [56, 2]]"
proof -
  obtain r1 c1 where run1: "try_then (write_packet sid 2 [56, 2]) (\<lambda>_. read_status sid 2) c = (r1, c1)" by fastforce
  obtain r2 u2 where run2: "send_sts_packet sid STS_INSTRUCTION_READ [STS_PRESENT_POSITION, 2] u = (r2, u2)" by fastforce
  have lens: "length [56 :: u8, 2] \<le> 253" "length [STS_PRESENT_POSITION, 2] \<le> 10" by simp_all
  note t1 = raw_transaction [OF assms(2) lens(1) run1] and t2 = send_sts_packet_usable [OF assms(3) lens(2) run2]
  have raw: "c' = c1" "raw = (case r1 of Inl e \<Rightarrow> Inl e
      | Inr bytes \<Rightarrow> Inr (decode_signed_15 (from_le_bytes16 (bytes ! 0) (bytes ! 1))))"
    using assms(5) run1
    by (cases r1; auto simp: raw_read_position_def host_read_register_def return_ok_def decoders_equal)+
  have direct: "u' = u2" "direct = (case r2 of Inl e \<Rightarrow> Inl e
      | Inr st \<Rightarrow> if payload_len st \<noteq> 2 then Inl InvalidReply
          else Inr (decode_signed_15 (from_le_bytes16 (payload st ! 0) (payload st ! 1))))"
    using assms(1,6) run2 unicast_ids
    by (cases r2; auto simp: read_position_def validate_servo_id_def return_ok_def return_err_def split: if_splits)+
  have agree: "raw = Inr p \<longleftrightarrow> direct = Inr p"
  proof (cases "\<exists>qs rest. reply_in_stream sid (uart_pending u) = Reply qs rest \<and> length qs = 2")
    case True
    then obtain qs rest where qs: "reply_in_stream sid (uart_pending u) = Reply qs rest" "length qs = 2" by blast
    then have "r1 = Inr qs" "r2 = Inr (padded_status qs)"
      using t1(3) [of qs] t2(2) assms(4) by simp_all
    with raw(2) direct(2) qs(2) show ?thesis by (simp add: padded_status_def nth_append)
  next
    case False
    then have "r1 \<noteq> Inr qs" for qs using t1(3) [of qs] assms(4) by auto
    then have "\<exists>e. r1 = Inl e" by (cases r1) auto
    moreover have "\<exists>e. direct = Inl e"
      using t2(2) direct(2) False
      by (cases "reply_in_stream sid (uart_pending u)") (auto simp: padded_status_def)
    ultimately show ?thesis using raw(2) by auto
  qed
  with t1(2) t2(3) raw(1) direct(1) show ?thesis
    by (simp add: STS_INSTRUCTION_READ_def STS_PRESENT_POSITION_def)
qed

section \<open>Properties\<close>

text \<open>C7. Controller mode and raw debug mode are equivalent on the servo bus: for every servo request in range
  except a scan, which raw mode does not offer, when the same bytes come in over the raw tunnel as over the
  firmware's UART and no write fails, then the host over the tunnel and the firmware on its UART send exactly the
  same packets, also when a servo stays silent or answers wrongly, and the host replies with success if
  and only if the firmware succeeds, with the same reply.\<close>
theorem modes_agree:
  assumes "wire_request request = Some (method, params, command)" "\<not> out_of_range request"
    and "\<And>lo hi. request \<noteq> CmScanServos lo hi"
    and "raw_usable c" "uart_usable u" "raw_pending c = uart_pending u"
    and "servo_request sd request c = (raw, c')" "execute_command command u = (direct, u')"
  shows "(raw = Inr reply \<longleftrightarrow> (\<exists>r. direct = Inr r \<and> reply = reply_of request r)) \<and>
    (\<exists>packets. raw_written c' = raw_written c @ packets \<and> tx_written u' = tx_written u @ packets)"
proof (cases "\<exists>sid. request = CmReadPosition sid")
  case False
  with assms(1,3) obtain sid plan where "request_plan request = Some (sid, plan)" by (cases request) auto
  from plan_modes [OF this assms(2,1,4-8)] show ?thesis by blast
next
  case True
  then obtain sid where sid: "request = CmReadPosition sid" "sid \<in> {1..253}" "command = GetPosition sid"
    using assms(1,2) by auto
  have "\<not> is_controller c" using assms(4) by (auto simp: raw_usable_def is_controller_def split: BridgeTransport.splits)
  then have host: "host_read_position sd sid c = raw_read_position sid c"
    using sid(2) unicast_range by (simp add: host_read_position_def validate_id_def from_result_def try_then_def)
  obtain raw1 c1 where raw1: "raw_read_position sid c = (raw1, c1)" by fastforce
  obtain direct1 u1 where direct1: "read_position sid u = (direct1, u1)" by fastforce
  note modes = reading_modes [OF sid(2) assms(4-6) raw1 direct1]
  have raw: "c' = c1" "raw = (case raw1 of Inl e \<Rightarrow> Inl e | Inr p \<Rightarrow> Inr (PositionMsg sid p))"
    using assms(7) raw1 host sid(1) by (cases raw1; auto simp: servo_request_def try_then_def return_ok_def)+
  have direct: "tx_written u' = tx_written u1"
      "direct = (case direct1 of Inl e \<Rightarrow> Inl e | Inr p \<Rightarrow> Inr (Position \<lparr>pr_id = sid, pr_position = p\<rparr>))"
    using assms(8) direct1 sid(3)
    by (cases direct1; auto simp: execute_command_def try_then_def return_ok_def resynchronize_written)+
  have "raw = Inr reply \<longleftrightarrow> (\<exists>r. direct = Inr r \<and> reply = reply_of request r)"
  proof -
    have "raw1 = Inr p \<longleftrightarrow> direct1 = Inr p" for p using modes by blast
    moreover have "raw = Inr reply \<longleftrightarrow> (\<exists>p. raw1 = Inr p \<and> reply = PositionMsg sid p)"
      using raw(2) by (cases raw1) auto
    moreover have "(\<exists>r. direct = Inr r \<and> reply = reply_of request r) \<longleftrightarrow> (\<exists>p. direct1 = Inr p \<and> reply = PositionMsg sid p)"
      using direct(2) sid(1) by (cases direct1) auto
    ultimately show ?thesis by simp
  qed
  with modes raw(1) direct(1) show ?thesis by auto
qed

text \<open>A stop that the servo acknowledges, over both.\<close>

definition acknowledging :: "u8 list" where
  "acknowledging = STS_HEADER @ status_packet 1 0 []"

definition tunnelled :: BridgeConnection where
  "tunnelled = \<lparr>bc_peer = ''mcu:3333'', bc_transport = DebugRaw
     \<lparr>ts_rx = map TcpByte acknowledging, ts_tx_outcomes = [], ts_tx = []\<rparr>, bc_next_request_id = 2\<rparr>"

definition wired :: uart where
  "wired = \<lparr>rx_events = reply_events 1 [], tx_results = [], tx_written = []\<rparr>"

lemma arriving_delivered: "arriving (delivered bs) = bs"
  by (induction bs) (simp_all add: delivered_def)

theorem modes_agree_witness:
  "fst (servo_request reference_serde (CmStopMotor 1) tunnelled) = Inr (Complete ''motor_stopped'')"
proof -
  obtain raw c' where raw: "servo_request reference_serde (CmStopMotor 1) tunnelled = (raw, c')" by fastforce
  obtain direct u' where direct: "execute_command (StopMotor 1) wired = (direct, u')" by fastforce
  have pending: "raw_pending tunnelled = uart_pending wired" "raw_usable tunnelled" "uart_usable wired"
    using tcp_pending_bytes [of "[]" acknowledging]
    by (simp_all add: raw_pending_def uart_pending_def raw_usable_def uart_usable_def tunnelled_def wired_def
        reply_events_def arriving_delivered acknowledging_def)
  have "direct = Inr Accepted"
    using direct send_sts_packet_delivered [of "41 # replicate 7 0" "[]" wired 1 "[]" STS_INSTRUCTION_WRITE]
    by (simp add: execute_command_def stop_motor_plan unicast_ids stop_plan_def write_register_alt wired_def
        padded_status_def return_ok_def try_then_def)
  with modes_agree [of "CmStopMotor 1" "''motor.stop''" "id_params 1" "StopMotor 1" tunnelled wired reference_serde raw c'
      direct u' "Complete ''motor_stopped''"] raw direct pending
  show ?thesis by simp
qed

end
