(* ===== verification/Firmware_Tests.thy ===== *)
theory Firmware_Tests
  imports Sts_Packet Admission Wifi_Config
begin

text \<open>
  The unit tests of the packet and ownership module (\<open>src/src/controller.rs\<close>, which
  \<open>src/firmware-tests/src/lib.rs\<close> includes to run them) and of the provisioning tool
  (\<open>src/host/src/bin/provision-wifi.rs\<close>), run on the model. Every test is a definition over the
  model's own operations, with one conjunct for each assertion of the test function: it is false
  when an \<open>unwrap\<close> or an assertion of the test would fail. The lemmas show by evaluation that each
  test passes, so that the model and the code agree on the inputs the authors thought of.
\<close>

section \<open>STS packets\<close>

definition encodes_a_ping_packet :: bool where
  "encodes_a_ping_packet \<longleftrightarrow>
     (case encode_instruction_packet (replicate 16 0) 5 0x01 [] of
        Some (Inr len, packet) \<Rightarrow> take len packet = [0xff, 0xff, 5, 2, 1, 247]
      | _ \<Rightarrow> False)"

definition encodes_a_register_read_packet :: bool where
  "encodes_a_register_read_packet \<longleftrightarrow>
     (case encode_instruction_packet (replicate 16 0) 5 0x02 [56, 2] of
        Some (Inr len, packet) \<Rightarrow> take len packet = [0xff, 0xff, 5, 4, 2, 56, 2, 186]
      | _ \<Rightarrow> False)"

definition rejects_an_oversized_instruction_parameter_list :: bool where
  "rejects_an_oversized_instruction_parameter_list \<longleftrightarrow>
     map_option fst (encode_instruction_packet (replicate 260 0) 1 3 (replicate 254 0)) =
       Some (Inl ParametersTooLong)"

definition rejects_a_too_small_instruction_output_buffer :: bool where
  "rejects_a_too_small_instruction_output_buffer \<longleftrightarrow>
     map_option fst (encode_instruction_packet (replicate 7 0) 1 3 [40, 1]) = Some (Inl OutputTooSmall)"

definition decodes_a_status_packet_with_parameters :: bool where
  "decodes_a_status_packet_with_parameters \<longleftrightarrow>
     (case decode_status_packet [5, 4, 0, 0x34, 0x12, 0xb0] 5 of
        Some (Inr status) \<Rightarrow> sp_error status = 0 \<and> sp_parameters status = [0x34, 0x12]
      | _ \<Rightarrow> False)"

definition retains_the_servo_reported_error :: bool where
  "retains_the_servo_reported_error \<longleftrightarrow>
     (case decode_status_packet [5, 2, 0x20, 0xd8] 5 of
        Some (Inr status) \<Rightarrow> sp_error status = 0x20 \<and> sp_parameters status = []
      | _ \<Rightarrow> False)"

definition rejects_malformed_status_packets :: bool where
  "rejects_malformed_status_packets \<longleftrightarrow>
     decode_status_packet [5, 4, 0, 0x34, 0x12, 0xb1] 5 = Some (Inl InvalidChecksum) \<and>
     decode_status_packet [6, 2, 0, 0xf7] 5 = Some (Inl UnexpectedId) \<and>
     decode_status_packet [5, 67, 0, 0] 5 = Some (Inl InvalidLength)"

lemma encoding_tests_pass:
  "encodes_a_ping_packet" "encodes_a_register_read_packet"
  by (simp_all add: encodes_a_ping_packet_def encodes_a_register_read_packet_def encode_ok
      instruction_packet_def instruction_body_def STS_HEADER_def length_byte_def checksum_eq)

lemma small_buffer_test_passes: "rejects_a_too_small_instruction_output_buffer"
  by (simp add: rejects_a_too_small_instruction_output_buffer_def encode_too_small)

lemma decoding_tests_pass:
  "decodes_a_status_packet_with_parameters" "retains_the_servo_reported_error"
  "rejects_malformed_status_packets"
  by (simp_all add: decodes_a_status_packet_with_parameters_def retains_the_servo_reported_error_def
      rejects_malformed_status_packets_def decode_status_packet_alt checksum_eq)

lemma oversized_test_passes: "rejects_an_oversized_instruction_parameter_list"
  by (simp add: rejects_an_oversized_instruction_parameter_list_def encode_too_long)

section \<open>Controller ownership\<close>

definition newest_controller_epoch_wins :: bool where
  "newest_controller_epoch_wins \<longleftrightarrow>
     (let epoch0 = epoch_new; (first, epoch1) = epoch_claim epoch0; (second, epoch2) = epoch_claim epoch1
      in epoch_is_current epoch1 first \<and> \<not> epoch_is_current epoch2 first \<and>
         epoch_is_current epoch2 second)"

definition serializes_takeovers_until_a_listener_returns :: bool where
  "serializes_takeovers_until_a_listener_returns \<longleftrightarrow>
     (case try_claim admission_new of
        (Granted first replaces, a1) \<Rightarrow> \<not> replaces \<and>
          (case try_claim a1 of
             (Granted second replaces, a2) \<Rightarrow> replaces \<and>
               \<not> admission_is_current a2 first \<and> admission_is_current a2 second \<and>
               (let (claimed, a3) = try_claim a2; (returned, a4) = admission_listener_ready a3 in
                claimed = WaitForListener \<and> returned \<and>
                (case try_claim a4 of
                   (Granted third replaces, a5) \<Rightarrow> replaces \<and> admission_is_current a5 third
                 | (WaitForListener, _) \<Rightarrow> False))
           | (WaitForListener, _) \<Rightarrow> False)
      | (WaitForListener, _) \<Rightarrow> False)"

definition normal_disconnect_does_not_block_the_next_controller :: bool where
  "normal_disconnect_does_not_block_the_next_controller \<longleftrightarrow>
     (case try_claim admission_new of
        (Granted first _, a1) \<Rightarrow>
          (case try_claim (admission_release first a1) of
             (Granted _ replaces, _) \<Rightarrow> \<not> replaces
           | (WaitForListener, _) \<Rightarrow> False)
      | (WaitForListener, _) \<Rightarrow> False)"

lemma ownership_tests_pass:
  "newest_controller_epoch_wins" "serializes_takeovers_until_a_listener_returns"
  "normal_disconnect_does_not_block_the_next_controller"
  by code_simp+

section \<open>The provisioning image\<close>

definition creates_a_valid_wifi_configuration_image :: bool where
  "creates_a_valid_wifi_configuration_image \<longleftrightarrow>
     (case config_image (ascii ''test-network'') (ascii ''secret'') of
        Some (Inr img) \<Rightarrow>
          subslice img 0 4 = Some (ascii ''FLWC'') \<and> index img 4 = Some 1 \<and> index img 5 = Some 12 \<and>
          index img 6 = Some 6 \<and> subslice img 12 24 = Some (ascii ''test-network'') \<and>
          subslice img 24 30 = Some (ascii ''secret'') \<and> list_all (\<lambda>byte. byte = 0xff) (drop 30 img) \<and>
          (case (subslice img 8 12, subslice img 0 8, subslice img 12 30) of
             (Some [a, b, c, d], Some header, Some payload) \<Rightarrow>
               from_le_bytes32 a b c d = provision_checksum header payload
           | _ \<Rightarrow> False)
      | _ \<Rightarrow> False)"

definition rejects_an_empty_or_overlong_ssid :: bool where
  "rejects_an_empty_or_overlong_ssid \<longleftrightarrow>
     config_image [] (ascii ''password'') = Some (Inl BadLengths) \<and>
     config_image (ascii (replicate (SSID_MAX_LEN + 1) CHR ''s'')) (ascii ''password'') =
       Some (Inl BadLengths)"

definition accepts_the_maximum_password_length_but_rejects_more :: bool where
  "accepts_the_maximum_password_length_but_rejects_more \<longleftrightarrow>
     (case config_image (ascii ''ssid'') (ascii (replicate PASSWORD_MAX_LEN CHR ''p'')) of
        Some (Inr _) \<Rightarrow> True | _ \<Rightarrow> False) \<and>
     config_image (ascii ''ssid'') (ascii (replicate (PASSWORD_MAX_LEN + 1) CHR ''p'')) =
       Some (Inl BadLengths)"

lemma config_image_rejects:
  "ssid = [] \<or> 32 < length ssid \<or> 63 < length pw \<Longrightarrow> config_image ssid pw = Some (Inl BadLengths)"
  by (auto simp: config_image_def SSID_MAX_LEN_def PASSWORD_MAX_LEN_def)

lemma provisioning_tests_pass:
  "rejects_an_empty_or_overlong_ssid"
  "accepts_the_maximum_password_length_but_rejects_more"
  by (simp_all add: rejects_an_empty_or_overlong_ssid_def
      accepts_the_maximum_password_length_but_rejects_more_def config_image_rejects
      config_image_layout SSID_MAX_LEN_def PASSWORD_MAX_LEN_def ascii_def)

lemma image_test_passes: "creates_a_valid_wifi_configuration_image"
proof -
  define R where "R = wifi_record (ascii ''test-network'') (ascii ''secret'')"
  have parts: "length R = 30"
    "subslice R 0 4 = Some (ascii ''FLWC'')"
    "index R 4 = Some 1" "index R 5 = Some 12" "index R 6 = Some 6"
    "subslice R 12 24 = Some (ascii ''test-network'')" "subslice R 24 30 = Some (ascii ''secret'')"
    "(case (subslice R 8 12, subslice R 0 8, subslice R 12 30) of
        (Some [a, b, c, d], Some header, Some payload) \<Rightarrow>
          from_le_bytes32 a b c d = provision_checksum header payload
      | _ \<Rightarrow> False)"
    unfolding R_def by code_simp+
  have img: "config_image (ascii ''test-network'') (ascii ''secret'') =
      Some (Inr (R @ replicate 4066 0xff))"
    using config_image_layout [of "ascii ''test-network''" "ascii ''secret''"]
    by (simp add: ascii_def R_def)
  have front: "subslice (R @ r) i j = subslice R i j" if "j \<le> 30" for i j r
    using that parts(1) by (auto simp: subslice_def)
  have at: "index (R @ r) i = index R i" if "i < 30" for i r
    using that parts(1) by (auto simp: index_def nth_append)
  from parts show ?thesis
    unfolding creates_a_valid_wifi_configuration_image_def img
    by (simp add: front at list_all_iff)
qed

end
