(* ===== verification/Host_Tests.thy ===== *)
theory Host_Tests
  imports Conversation
begin

text \<open>
  The unit tests of the host (\<open>src/host/src/main.rs\<close>), run on the model. Every test is a definition
  with one conjunct for each assertion of the test function. A test's fake servo or fake MCU is a script: what
  it sends is the stream of arrivals of the connection under test, and what it asserts about the packets and
  requests it receives is asserted of what the model wrote. A response takes the number of its request from
  what was received, so the scripts check that number too. The lemmas show by evaluation that each test
  passes.
\<close>

section \<open>Test helpers\<close>

definition raw_bridge :: "tcp_event list \<Rightarrow> BridgeConnection" where
  "raw_bridge arrivals = \<lparr>bc_peer = ''127.0.0.1:5000'',
     bc_transport = DebugRaw \<lparr>ts_rx = arrivals, ts_tx_outcomes = [], ts_tx = []\<rparr>, bc_next_request_id = 1\<rparr>"

definition controller_socket :: "ws_incoming list \<Rightarrow> ws_stream" where
  "controller_socket arrivals =
     \<lparr>ws_in = map (Pair 1) arrivals, ws_outcomes = [], ws_out = [], ws_waited = 0\<rparr>"

definition controller_bridge :: "ws_incoming list \<Rightarrow> BridgeConnection" where
  "controller_bridge arrivals = \<lparr>bc_peer = ''127.0.0.1:5000'',
     bc_transport = Controller (controller_socket arrivals), bc_next_request_id = 1\<rparr>"

definition status_packet_with_error :: "u8 \<Rightarrow> u8 \<Rightarrow> u8 list \<Rightarrow> u8 list" where
  "status_packet_with_error sid err ps =
     (let len = of_nat (length ps + 2);
          packet = [0xff, 0xff, sid, len, err] @ ps
      in packet @ [checksum_for_status sid len (drop 4 packet)])"

definition test_status_packet :: "u8 \<Rightarrow> u8 list \<Rightarrow> u8 list" where
  "test_status_packet sid ps = status_packet_with_error sid 0 ps"

text \<open>One packet taken off the bytes that the fake servo got, and what is left.\<close>

definition receive_packet :: "u8 list \<Rightarrow> (u8 list \<times> u8 list) option" where
  "receive_packet stream = do {
     header_and_fixed \<leftarrow> subslice stream 0 4;
     if take 2 header_and_fixed \<noteq> STS_HEADER then None
     else do {
       len \<leftarrow> index header_and_fixed 3;
       remaining \<leftarrow> subslice stream 4 (4 + unat len);
       Some (header_and_fixed @ remaining, drop (4 + unat len) stream)
     }
   }"

fun received_packets :: "nat \<Rightarrow> u8 list \<Rightarrow> u8 list list option" where
  "received_packets 0 stream = (if stream = [] then Some [] else None)"
| "received_packets (Suc n) stream = do {
     (packet, rest) \<leftarrow> receive_packet stream;
     packets \<leftarrow> received_packets n rest;
     Some (packet # packets)
   }"

text \<open>The requests that the fake MCU got, in order.\<close>

fun receive_json_rpc_request :: "ws_outgoing \<Rightarrow> json option" where
  "receive_json_rpc_request (SentText text) = read_json text"
| "receive_json_rpc_request (SentPong _) = None"

definition received_requests :: "ws_stream \<Rightarrow> json list option" where
  "received_requests s = all_somes (map receive_json_rpc_request (ws_out s))"

definition bridge_requests :: "BridgeConnection \<Rightarrow> json list option" where
  "bridge_requests c = Option.bind (ws_of c) received_requests"

definition receive_browser_response :: "string \<Rightarrow> json option" where
  "receive_browser_response text = read_json text"

definition param :: "string \<Rightarrow> json \<Rightarrow> json option" where
  "param key request = Option.bind (json_get request ''params'') (\<lambda>params. json_get params key)"

text \<open>A response of the fake MCU to the request with the given number.\<close>

definition rpc_reply :: "int \<Rightarrow> json \<Rightarrow> ws_incoming" where
  "rpc_reply rid result = WsText (render (JObj [(''id'', JInt rid), (''jsonrpc'', JStr ''2.0''), (''result'', result)]))"

definition is_request :: "int \<Rightarrow> string \<Rightarrow> json \<Rightarrow> bool" where
  "is_request rid method request \<longleftrightarrow>
     json_get request ''id'' = Some (JInt rid) \<and> json_get request ''method'' = Some (JStr method)"

definition ready :: json where "ready = JObj [(''ready'', JBool True)]"
definition accepted :: json where "accepted = JObj [(''accepted'', JBool True)]"

section \<open>Bytes and limits\<close>

definition creates_sts_checksums :: bool where
  "creates_sts_checksums \<longleftrightarrow> host_checksum [1, 4, 3, 40, 1] = 206"

definition decodes_sts_signed_values :: bool where
  "decodes_sts_signed_values \<longleftrightarrow>
     host_decode_signed_15 2048 = 2048 \<and> sint (host_decode_signed_15 0x8001) = -1 \<and>
     sint (host_decode_signed_15 0xffff) = -32767"

definition accepts_only_unicast_servo_ids :: bool where
  "accepts_only_unicast_servo_ids \<longleftrightarrow>
     \<not> isl (validate_id 1) \<and> \<not> isl (validate_id 253) \<and>
     isl (validate_id 0) \<and> isl (validate_id 254) \<and> isl (validate_id 255)"

definition limits_servo_scans_to_unicast_addresses :: bool where
  "limits_servo_scans_to_unicast_addresses \<longleftrightarrow>
     \<not> isl (validate_scan_range 1 253) \<and> isl (validate_scan_range 0 10) \<and>
     isl (validate_scan_range 1 254) \<and> isl (validate_scan_range 10 1)"

definition servo_timeouts_do_not_require_reconnecting_the_bridge :: bool where
  "servo_timeouts_do_not_require_reconnecting_the_bridge \<longleftrightarrow>
     connection_is_usable_after ''Timed out waiting for an STS servo reply'' \<and>
     connection_is_usable_after ''STS reply checksum did not match'' \<and>
     \<not> connection_is_usable_after ''Could not send command to the MCU: Connection reset by peer'' \<and>
     \<not> connection_is_usable_after
       ''Could not send a JSON-RPC command to the MCU: IO error: Broken pipe (os error 32)'' \<and>
     \<not> connection_is_usable_after ''Timed out waiting for an MCU JSON-RPC response''"

definition checks_status_packets :: bool where
  "checks_status_packets \<longleftrightarrow> checksum_for_status 7 4 [0, 0x34, 0x12] = 174"

lemma byte_tests_pass:
  "creates_sts_checksums" "decodes_sts_signed_values" "accepts_only_unicast_servo_ids"
  "limits_servo_scans_to_unicast_addresses" "servo_timeouts_do_not_require_reconnecting_the_bridge"
  "checks_status_packets"
  by code_simp+

section \<open>Configuration\<close>

definition persists_and_loads_host_configuration :: bool where
  "persists_and_loads_host_configuration \<longleftrightarrow>
     (let path = ''/tmp/t/config.json'';
          config = with_host ''192.168.178.146'';
          config = config\<lparr>hc_joints := (hc_joints config)[1 := (hc_joints config ! 1)\<lparr>jo_enabled := False\<rparr>]\<rparr>
      in case persist_host_config reference_config_serde path config empty_fs of
           (Inl _, _) \<Rightarrow> False
         | (Inr _, fs) \<Rightarrow>
             (let loaded = fst (load_host_config reference_config_serde path fs) in
              ep_host (hc_endpoint loaded) = ''192.168.178.146'' \<and> \<not> jo_enabled (hc_joints loaded ! 1)))"

definition invalid_saved_configuration_falls_back_to_defaults :: bool where
  "invalid_saved_configuration_falls_back_to_defaults \<longleftrightarrow>
     (let path = ''/tmp/t/config.json'';
          fs = empty_fs\<lparr>fs_files := [path \<mapsto> ''not JSON'']\<rparr>;
          loaded = fst (load_host_config reference_config_serde path fs)
      in ep_host (hc_endpoint loaded) = ep_host (hc_endpoint default_config) \<and> length (hc_joints loaded) = 6)"

definition test_path :: string where "test_path = ''/tmp/t/config.json''"

lemma persist_test_config:
  "persist_host_config reference_config_serde test_path c empty_fs =
     (Inr (), empty_fs\<lparr>fs_files := [test_path \<mapsto> render (config_json c)]\<rparr>)"
proof -
  have path: "path_parent test_path = Some ''/tmp/t''" "with_extension test_path ''json.tmp'' = ''/tmp/t/config.json.tmp''"
    "test_path \<noteq> ''/tmp/t/config.json.tmp''"
    by code_simp+
  then show ?thesis
    by (simp add: persist_host_config_def fs_create_dir_all_def fs_write_def fs_rename_def next_result_def
        empty_fs_def reference_config_serde_def try_then_def fun_eq_iff)
qed

lemma load_stored:
  assumes "plain_host c" "validate_host_config c = Inr ()" "fs_files fs p = Some (render (config_json c))" "fs_results fs = []"
  shows "fst (load_host_config reference_config_serde p fs) = c"
  using assms by (simp add: load_host_config_def next_result_def reference_config_roundtrip)

lemma configuration_tests_pass:
  "persists_and_loads_host_configuration" "invalid_saved_configuration_falls_back_to_defaults"
proof -
  define c where "c = (with_host ''192.168.178.146'')\<lparr>hc_joints := (hc_joints (with_host ''192.168.178.146''))
    [1 := (hc_joints (with_host ''192.168.178.146'') ! 1)\<lparr>jo_enabled := False\<rparr>]\<rparr>"
  have c: "validate_host_config c = Inr ()" "plain_host c" "ep_host (hc_endpoint c) = ''192.168.178.146''"
    "\<not> jo_enabled (hc_joints c ! 1)"
    unfolding c_def by code_simp+
  have "fst (load_host_config reference_config_serde test_path (empty_fs\<lparr>fs_files := [test_path \<mapsto> render (config_json c)]\<rparr>)) = c"
    using c by (intro load_stored) (simp_all add: empty_fs_def)
  with c show "persists_and_loads_host_configuration"
    unfolding persists_and_loads_host_configuration_def Let_def c_def [symmetric] test_path_def [symmetric]
    by (simp add: persist_test_config)
next
  show "invalid_saved_configuration_falls_back_to_defaults" by code_simp
qed

section \<open>Log files\<close>

text \<open>Files 0, 1 and 2 hold what the test wrote before it rotates.\<close>

definition test_log :: "string \<Rightarrow> log_state" where
  "test_log path = \<lparr>lg_names = [path \<mapsto> 0, log_archive_path path 1 \<mapsto> 1, log_archive_path path 2 \<mapsto> 2],
     lg_data = (\<lambda>_. [])(0 := ''current'', 1 := ''previous'', 2 := ''older''), lg_next = 3, lg_results = [],
     lg_handle = 0, lg_level = LevelInfo\<rparr>"

definition rotates_host_logs_without_losing_recent_archives :: bool where
  "rotates_host_logs_without_losing_recent_archives \<longleftrightarrow>
     (let path = ''/tmp/t/fetchline-host.log'' in
      case rotate_log_file path (test_log path) of
        (Inl _, _) \<Rightarrow> False
      | (Inr replacement, s) \<Rightarrow>
          (let s = s\<lparr>lg_data := (lg_data s)(replacement := lg_data s replacement @ ''new'')\<rparr>;
               contents = (\<lambda>p. map_option (lg_data s) (lg_names s p))
           in contents path = Some ''new'' \<and> contents (log_archive_path path 1) = Some ''current'' \<and>
             contents (log_archive_path path 2) = Some ''previous'' \<and>
             contents (log_archive_path path 3) = Some ''older''))"

lemma log_test_passes: "rotates_host_logs_without_losing_recent_archives"
  by code_simp

section \<open>The application state of the tests\<close>

text \<open>\<open>AppState::default\<close>, which only the tests use, on a network and a file system, and the state whose
  configuration is stored under a given path.\<close>

definition app_state_default :: "network \<Rightarrow> filesystem \<Rightarrow> host_state" where
  "app_state_default net fs = \<lparr>hs_app = \<lparr>st_bridge = None, st_transport = ControllerMode, st_net = net\<rparr>,
     hs_config = \<lparr>cs_config = default_config, cs_path = ''fetchline-host-config.json'', cs_fs = fs\<rparr>,
     hs_waiting = [], hs_browsers = 0\<rparr>"

definition test_state :: "string \<Rightarrow> host_state" where
  "test_state config_path = \<lparr>hs_app = \<lparr>st_bridge = None, st_transport = ControllerMode,
       st_net = \<lparr>net_dials = [], net_raw_dials = []\<rparr>\<rparr>,
     hs_config = \<lparr>cs_config = default_config, cs_path = config_path, cs_fs = empty_fs\<rparr>,
     hs_waiting = [], hs_browsers = 0\<rparr>"

lemma app_state_default_inv: "host_inv (app_state_default net fs)"
proof -
  have "in_limits default_config" by code_simp
  moreover have "''fetchline-host-config.json'' = host_config_path Map.empty"
    by (simp add: host_config_path_def env_path_def)
  ultimately show ?thesis
    by (auto simp: host_inv_def config_inv_def bridge_inv_def app_state_default_def
        intro!: exI [of _ Map.empty])
qed

section \<open>The configuration routes\<close>

text \<open>A request whose body is the JSON text of a configuration, and a request that runs to its response:
  an update that waits for the lock of the configuration gets it.\<close>

definition json_request :: "http_method \<Rightarrow> string \<Rightarrow> string \<Rightarrow> http_request" where
  "json_request verb path body = \<lparr>rq_verb = verb, rq_path = path,
     rq_config = (case cf_from_str reference_config_serde body of Inr c \<Rightarrow> Inr c | Inl e \<Rightarrow> Inl (400, e))\<rparr>"

definition oneshot :: "http_request \<Rightarrow> host_state \<Rightarrow> http_response \<times> host_state" where
  "oneshot rq st = (case serve_http reference_config_serde sample_files table_router rq st of
       (Pending, st) \<Rightarrow> (case config_locked (length (hs_waiting st) - 1) st of
           Some answered \<Rightarrow> answered | None \<Rightarrow> (Pending, st))
     | answered \<Rightarrow> answered)"

definition configuration_api_persists_shared_settings :: bool where
  "configuration_api_persists_shared_settings \<longleftrightarrow>
     (let path = ''/tmp/t/config.json'';
          config = with_host ''192.168.178.146'';
          config = config\<lparr>hc_motor := (hc_motor config)\<lparr>mo_enabled := False\<rparr>\<rparr>;
          (put, st) = oneshot (json_request PUT ''/config'' (render (config_json config))) (test_state path);
          (got, st) = oneshot (json_request GET ''/config'' []) st
      in (case put of ConfigBody _ \<Rightarrow> True | _ \<Rightarrow> False) \<and>
        (case got of
           ConfigBody loaded \<Rightarrow> ep_host (hc_endpoint loaded) = ''192.168.178.146'' \<and> \<not> mo_enabled (hc_motor loaded)
         | _ \<Rightarrow> False) \<and>
        ep_host (hc_endpoint (fst (load_host_config reference_config_serde path (cs_fs (hs_config st))))) =
          ''192.168.178.146'')"

definition configuration_api_rejects_invalid_servo_settings :: bool where
  "configuration_api_rejects_invalid_servo_settings \<longleftrightarrow>
     (let config = default_config\<lparr>hc_joints := []\<rparr>;
          (response, _) = oneshot (json_request PUT ''/config'' (render (config_json config)))
            (test_state ''/tmp/t/config.json'')
      in case response of Failure status _ \<Rightarrow> status = 400 | _ \<Rightarrow> False)"

lemma json_request_config:
  "plain_host c \<Longrightarrow> json_request verb path (render (config_json c)) =
     \<lparr>rq_verb = verb, rq_path = path, rq_config = Inr c\<rparr>"
  by (simp add: json_request_def reference_config_roundtrip)

lemma api_routes:
  "table_router app_routes PUT ''/config'' = Some ConfigPut" "table_router app_routes GET ''/config'' = Some ConfigGet"
  by (simp_all add: table_router_def app_routes_def)

lemma put_test_config:
  assumes "trimmed c = c" "validate_host_config c = Inr ()" "plain_host c"
  shows "oneshot (json_request PUT ''/config'' (render (config_json c))) (test_state test_path) =
    (ConfigBody c, (test_state test_path)\<lparr>hs_config := \<lparr>cs_config = c, cs_path = test_path,
       cs_fs = empty_fs\<lparr>fs_files := [test_path \<mapsto> render (config_json c)]\<rparr>\<rparr>\<rparr>)"
  using assms
  by (simp add: oneshot_def json_request_config serve_http_def api_routes handle_http_def put_persist_def
      test_state_def persist_test_config config_locked_def put_store_def)

lemma get_test_config:
  "oneshot (json_request GET ''/config'' body) st = (ConfigBody (cs_config (hs_config st)), st)"
  by (simp add: oneshot_def json_request_def serve_http_def api_routes handle_http_def get_config_def)

lemma api_tests_pass:
  "configuration_api_persists_shared_settings" "configuration_api_rejects_invalid_servo_settings"
proof -
  define c where "c = (with_host ''192.168.178.146'')
    \<lparr>hc_motor := (hc_motor (with_host ''192.168.178.146''))\<lparr>mo_enabled := False\<rparr>\<rparr>"
  have c: "trimmed c = c" "validate_host_config c = Inr ()" "plain_host c"
    "ep_host (hc_endpoint c) = ''192.168.178.146''" "\<not> mo_enabled (hc_motor c)"
    unfolding c_def by code_simp+
  have "fst (load_host_config reference_config_serde test_path (empty_fs\<lparr>fs_files := [test_path \<mapsto> render (config_json c)]\<rparr>)) = c"
    using c by (intro load_stored) (simp_all add: empty_fs_def)
  with c show "configuration_api_persists_shared_settings"
    unfolding configuration_api_persists_shared_settings_def Let_def c_def [symmetric] test_path_def [symmetric]
    by (simp add: put_test_config get_test_config)
next
  define c where "c = default_config\<lparr>hc_joints := []\<rparr>"
  have c: "trimmed c = c" "isl (validate_host_config c)" "plain_host c"
    unfolding c_def by code_simp+
  then show "configuration_api_rejects_invalid_servo_settings"
    unfolding configuration_api_rejects_invalid_servo_settings_def Let_def c_def [symmetric]
    by (auto simp: json_request_config oneshot_def serve_http_def api_routes handle_http_def put_persist_def
        test_state_def isl_def)
qed

section \<open>The controller connection\<close>

definition controller_mode_uses_a_high_level_command_and_discards_a_stale_response :: bool where
  "controller_mode_uses_a_high_level_command_and_discards_a_stale_response \<longleftrightarrow>
     (case host_move_position reference_serde 5 1625 20 1000
         (controller_bridge [rpc_reply 0 accepted, rpc_reply 1 accepted]) of
        (Inl _, _) \<Rightarrow> False
      | (Inr _, bridge) \<Rightarrow>
          (case bridge_requests bridge of
             Some [request] \<Rightarrow> is_request 1 ''servo.setPosition'' request \<and>
               json_get request ''jsonrpc'' = Some (JStr ''2.0'') \<and> param ''id'' request = Some (JInt 5) \<and>
               param ''position'' request = Some (JInt 1625) \<and> param ''acceleration'' request = Some (JInt 20) \<and>
               param ''torqueLimit'' request = Some (JInt 1000)
           | _ \<Rightarrow> False))"

definition controller_mode_scans_servo_ids_on_the_mcu :: bool where
  "controller_mode_scans_servo_ids_on_the_mcu \<longleftrightarrow>
     (case host_scan_servos reference_serde 1 10
         (controller_bridge [rpc_reply 1 (JObj [(''ids'', JArr [JInt 2, JInt 5, JInt 7])])]) of
        (Inr (ServoScan start_id end_id ids), bridge) \<Rightarrow>
          start_id = 1 \<and> end_id = 10 \<and> ids = [2, 5, 7] \<and>
          (case bridge_requests bridge of
             Some [request] \<Rightarrow> is_request 1 ''servo.scan'' request \<and>
               param ''startId'' request = Some (JInt 1) \<and> param ''endId'' request = Some (JInt 10)
           | _ \<Rightarrow> False)
      | _ \<Rightarrow> False)"

definition raw_tunnel_enable_is_an_explicit_json_rpc_command :: bool where
  "raw_tunnel_enable_is_an_explicit_json_rpc_command \<longleftrightarrow>
     (let port = JInt (uint RAW_TUNNEL_TCP_PORT) in
      case controller_request reference_serde ''debug.enableRawTunnel'' (JObj [])
         (controller_bridge [rpc_reply 1 (JObj [(''active'', JBool True), (''port'', port)])]) of
        (Inl _, _) \<Rightarrow> False
      | (Inr result, bridge) \<Rightarrow>
          json_get result ''port'' = Some port \<and> json_get result ''active'' = Some (JBool True) \<and>
          (case bridge_requests bridge of
             Some [request] \<Rightarrow> is_request 1 ''debug.enableRawTunnel'' request
           | _ \<Rightarrow> False))"

lemma controller_mode_tests_pass:
  "controller_mode_uses_a_high_level_command_and_discards_a_stale_response"
  "controller_mode_scans_servo_ids_on_the_mcu"
  "raw_tunnel_enable_is_an_explicit_json_rpc_command"
  by code_simp+

section \<open>The raw servo path\<close>

text \<open>The packets that the fake servo got, when it got as many as the test receives and nothing else.\<close>

definition bridge_packets :: "nat \<Rightarrow> BridgeConnection \<Rightarrow> u8 list list option" where
  "bridge_packets n c = received_packets n (concat (raw_written c))"

definition tcp_bytes :: "u8 list \<Rightarrow> tcp_event list" where
  "tcp_bytes bytes = map TcpByte bytes"

definition motor_start_selects_continuous_mode_then_writes_speed :: bool where
  "motor_start_selects_continuous_mode_then_writes_speed \<longleftrightarrow>
     (let acknowledged = tcp_bytes (test_status_packet 1 []) in
      case host_start_motor reference_serde 1 1024 20 DirClockwise
         (raw_bridge (acknowledged @ acknowledged @ acknowledged)) of
        (Inl _, _) \<Rightarrow> False
      | (Inr _, bridge) \<Rightarrow> bridge_packets 3 bridge = Some
          [[0xff, 0xff, 1, 4, 3, 33, 1, 213], [0xff, 0xff, 1, 4, 3, 40, 1, 206],
           [0xff, 0xff, 1, 10, 3, 41, 20, 0, 0, 0, 0, 0, 4, 176]])"

definition position_read_decodes_the_servo_response :: bool where
  "position_read_decodes_the_servo_response \<longleftrightarrow>
     (case host_read_position reference_serde 2 (raw_bridge (tcp_bytes (test_status_packet 2 [0x34, 0x12]))) of
        (Inl _, _) \<Rightarrow> False
      | (Inr position, bridge) \<Rightarrow> position = 0x1234 \<and>
          bridge_packets 1 bridge = Some [[0xff, 0xff, 2, 4, 2, 56, 2, 189]])"

definition contains :: "string \<Rightarrow> string \<Rightarrow> bool" where
  "contains s part \<longleftrightarrow> list_ex (\<lambda>n. starts_with (drop n s) part) [0..<Suc (length s)]"

text \<open>The error of reading the position of servo 2 when one request was received and these events arrived.\<close>

definition failed_read :: "tcp_event list \<Rightarrow> string option" where
  "failed_read arrivals =
     (case host_read_position reference_serde 2 (raw_bridge arrivals) of
        (Inl error, bridge) \<Rightarrow> if map_option length (bridge_packets 1 bridge) = Some 1 then Some error else None
      | (Inr _, _) \<Rightarrow> None)"

definition position_read_rejects_a_reply_from_another_servo :: bool where
  "position_read_rejects_a_reply_from_another_servo \<longleftrightarrow>
     (case failed_read (tcp_bytes (test_status_packet 3 [0, 0])) of
        Some error \<Rightarrow> contains error ''came from servo 3'' \<and> connection_is_usable_after error
      | None \<Rightarrow> False)"

definition position_read_rejects_a_bad_checksum_without_dropping_tcp :: bool where
  "position_read_rejects_a_bad_checksum_without_dropping_tcp \<longleftrightarrow>
     (let packet = test_status_packet 2 [0, 0];
          packet = butlast packet @ [last packet XOR 0xff]
      in case failed_read (tcp_bytes packet) of
          Some error \<Rightarrow> error = ''STS reply checksum did not match'' \<and> connection_is_usable_after error
        | None \<Rightarrow> False)"

definition position_read_reports_a_servo_status_error :: bool where
  "position_read_reports_a_servo_status_error \<longleftrightarrow>
     (case failed_read (tcp_bytes (status_packet_with_error 2 0x20 [0, 0])) of
        Some error \<Rightarrow> error = ''Servo 2 reported STS error 0x20'' \<and> connection_is_usable_after error
      | None \<Rightarrow> False)"

definition position_read_drops_tcp_after_a_truncated_reply :: bool where
  "position_read_drops_tcp_after_a_truncated_reply \<longleftrightarrow>
     (case failed_read (tcp_bytes [0xff, 0xff, 2, 4, 0]) of
        Some error \<Rightarrow> starts_with error ''Could not read STS servo reply'' \<and> \<not> connection_is_usable_after error
      | None \<Rightarrow> False)"

text \<open>Servo 3 does not answer: its wait elapses.\<close>

definition position_refresh_continues_after_one_servo_times_out :: bool where
  "position_refresh_continues_after_one_servo_times_out \<longleftrightarrow>
     (case host_read_positions reference_serde [2, 3, 4]
         (raw_bridge (tcp_bytes (test_status_packet 2 [2, 0]) @ [Elapsed] @ tcp_bytes (test_status_packet 4 [4, 0]))) of
        (Inr (PositionsMsg positions errors), bridge) \<Rightarrow>
          length positions = 2 \<and> hp_id (positions ! 0) = 2 \<and> hp_id (positions ! 1) = 4 \<and>
          length errors = 1 \<and> starts_with (errors ! 0) ''Servo 3: Timed out'' \<and>
          bridge_packets 3 bridge = Some
            [[0xff, 0xff, 2, 4, 2, 56, 2, 189], [0xff, 0xff, 3, 4, 2, 56, 2, 188], [0xff, 0xff, 4, 4, 2, 56, 2, 187]]
      | _ \<Rightarrow> False)"

lemma raw_write_test_passes: "motor_start_selects_continuous_mode_then_writes_speed"
  by code_simp

lemma raw_read_test_passes: "position_read_decodes_the_servo_response"
  by code_simp

lemma raw_refusal_tests_pass:
  "position_read_rejects_a_reply_from_another_servo"
  "position_read_rejects_a_bad_checksum_without_dropping_tcp"
  "position_read_reports_a_servo_status_error"
  "position_read_drops_tcp_after_a_truncated_reply"
  by code_simp+

lemma raw_refresh_test_passes: "position_refresh_continues_after_one_servo_times_out"
  by code_simp

section \<open>Reconnecting\<close>

text \<open>The default service on a network where these attempts to reach the MCU are answered.\<close>

definition test_host :: "(nat \<times> dial) list \<Rightarrow> AppState" where
  "test_host dials = hs_app (app_state_default \<lparr>net_dials = dials, net_raw_dials = []\<rparr> empty_fs)"

definition is_connected :: "ServerMessage \<Rightarrow> bool" where
  "is_connected reply = (case reply of Connected _ \<Rightarrow> True | _ \<Rightarrow> False)"

definition all_pings :: "BridgeConnection option \<Rightarrow> int list \<Rightarrow> bool" where
  "all_pings bridge rids \<longleftrightarrow> (case Option.bind bridge bridge_requests of
       Some requests \<Rightarrow> list_all2 (\<lambda>rid. is_request rid ''system.ping'') rids requests
     | None \<Rightarrow> False)"

definition reconnecting_to_the_same_mcu_health_checks_its_websocket_client :: bool where
  "reconnecting_to_the_same_mcu_health_checks_its_websocket_client \<longleftrightarrow>
     (let state = test_host [(1, DialOpened (controller_socket [rpc_reply 1 ready, rpc_reply 2 ready]))];
          (first, state) = connect reference_serde ''127.0.0.1'' 5000 state;
          (second, state) = connect reference_serde ''127.0.0.1'' 5000 state
      in is_connected first \<and> is_connected second \<and> all_pings (st_bridge state) [1, 2])"

definition reconnecting_replaces_a_stale_controller_websocket :: bool where
  "reconnecting_replaces_a_stale_controller_websocket \<longleftrightarrow>
     (let state = test_host [(1, DialOpened (controller_socket [rpc_reply 1 ready, WsEnd])),
            (1, DialOpened (controller_socket [rpc_reply 1 ready]))];
          (first, state1) = connect reference_serde ''127.0.0.1'' 5000 state;
          (second, state2) = connect reference_serde ''127.0.0.1'' 5000 state1
      in is_connected first \<and> all_pings (st_bridge state1) [1] \<and>
        is_connected second \<and> all_pings (st_bridge state2) [1] \<and> net_dials (st_net state2) = [])"

definition reconnecting_waits_for_a_controller_listener_returning_after_handover :: bool where
  "reconnecting_waits_for_a_controller_listener_returning_after_handover \<longleftrightarrow>
     (let state = test_host [(HOST_SERVO_TIMEOUT, UpgradeElapsed),
            (1, DialOpened (controller_socket [rpc_reply 1 ready]))];
          (reply, state) = connect reference_serde ''127.0.0.1'' 5000 state
      in is_connected reply \<and> all_pings (st_bridge state) [1] \<and> net_dials (st_net state) = [])"

text \<open>A closed port refuses every attempt until the window for retries is over.\<close>

definition connection_refusal_is_reported_without_a_bridge :: bool where
  "connection_refusal_is_reported_without_a_bridge \<longleftrightarrow>
     (case connect reference_serde ''127.0.0.1'' 5000
         (test_host (replicate 31 (0, DialFailed ''Connection refused (os error 111)''))) of
        (ErrorMsg msg bridge_connected, state) \<Rightarrow>
          starts_with msg ''Could not connect'' \<and> \<not> bridge_connected \<and> net_dials (st_net state) = []
      | _ \<Rightarrow> False)"

text \<open>A request that the fake MCU answers at once, and reading back what was sent.\<close>

definition open_bridge :: "string \<Rightarrow> u32 \<Rightarrow> ws_incoming list \<Rightarrow> ws_outgoing list \<Rightarrow> nat \<Rightarrow> BridgeConnection" where
  "open_bridge peer rid arrivals sent w = linked peer rid (map (Pair 1) arrivals) sent w"

lemma open_bridge_simps [simp]:
  "is_controller (open_bridge peer rid arrivals sent w)" "bc_peer (open_bridge peer rid arrivals sent w) = peer"
  by (simp_all add: open_bridge_def)

lemma rpc_reply_read:
  assumes "plain (JObj kvs)"
  shows "sd_response reference_serde (render (JObj [(''id'', JInt (uint (rid :: u32))), (''jsonrpc'', JStr ''2.0''),
      (''result'', JObj kvs)])) =
    Inr \<lparr>jr_jsonrpc = ''2.0'', jr_id = Some rid, jr_result = Some (JObj kvs), jr_error = None\<rparr>"
proof -
  have "uint rid < 2 ^ 32" using uint_lt2p [of rid] by simp
  with assms show ?thesis
    unfolding reference_serde_def
    by (simp add: json_codec.decode_encode plain_char_def or_error_def decode_response_def
        json_get_def read_str_def read_int_in_def optional_field_def del: render.simps)
qed

lemma answered_request:
  assumes "plain (JObj kvs)" "0 < d"
  shows "controller_request_with_timeout reference_serde method params d
      (open_bridge peer rid (rpc_reply (uint rid) (JObj kvs) # arrivals) sent w) =
    (Inr (JObj kvs), open_bridge peer (rid + 1) arrivals
      (sent @ [SentText (render (request_json rid method params))]) (w + 1))"
proof -
  have "answers reference_serde rid (rpc_reply (uint rid) (JObj kvs))
      \<lparr>jr_jsonrpc = ''2.0'', jr_id = Some rid, jr_result = Some (JObj kvs), jr_error = None\<rparr>"
    using rpc_reply_read [OF assms(1), of rid] by (simp add: answers_def rpc_reply_def)
  from linked_answered [OF reference_to_string this] assms(2) show ?thesis
    by (simp add: open_bridge_def response_outcome_def)
qed

lemma ready_plain: "plain ready" "ready = JObj [(''ready'', JBool True)]" "plain (JObj [(''ready'', JBool True)])"
  by (simp_all add: ready_def plain_char_def)

lemma answered_ping:
  "ping_controller reference_serde (open_bridge peer rid (rpc_reply (uint rid) ready # arrivals) sent w) =
    (Inr (), open_bridge peer (rid + 1) arrivals
      (sent @ [SentText (render (request_json rid ''system.ping'' (JObj [])))]) (w + 1))"
  unfolding ping_controller_def controller_request_def ready_plain(2)
  by (simp add: try_then_def answered_request [OF ready_plain(3)] HOST_SERVO_TIMEOUT_def from_result_def
      expect_controller_ready_def json_get_def as_bool_def)

lemma request_json_plain: "list_all plain_char verb \<Longrightarrow> plain params \<Longrightarrow> plain (request_json rid verb params)"
proof -
  have "list_all plain_char ''id''" "list_all plain_char ''jsonrpc''" "list_all plain_char ''method''"
    "list_all plain_char ''params''" "list_all plain_char ''2.0''"
    by (simp_all add: plain_char_def)
  then show "list_all plain_char verb \<Longrightarrow> plain params \<Longrightarrow> plain (request_json rid verb params)"
    by (simp add: request_json_def)
qed

lemma read_requests:
  assumes "list_all (\<lambda>(rid, method, params). list_all plain_char method \<and> plain params) rs"
  shows "all_somes (map receive_json_rpc_request
      (map (\<lambda>(rid, method, params). SentText (render (request_json rid method params))) rs)) =
    Some (map (\<lambda>(rid, method, params). request_json rid method params) rs)"
  using assms
proof (induction rs)
  case (Cons r rs)
  obtain rid verb params where r: "r = (rid, verb, params)" by (cases r)
  with Cons.prems have "read_json (render (request_json rid verb params)) = Some (request_json rid verb params)"
    by (intro json_codec.decode_encode request_json_plain) simp_all
  with Cons r show ?case by simp
qed simp

lemma is_request_json: "is_request i verb (request_json rid verb' params) \<longleftrightarrow> i = uint rid \<and> verb = verb'"
  by (auto simp: is_request_def request_json_def json_get_def)

definition ping_text :: "u32 \<Rightarrow> ws_outgoing" where
  "ping_text rid = SentText (render (request_json rid ''system.ping'' (JObj [])))"

lemma all_pings_open:
  "all_pings (Some (open_bridge peer rid arrivals (map ping_text ns) w)) rids \<longleftrightarrow> rids = map uint ns"
proof -
  have "all_somes (map receive_json_rpc_request (map ping_text ns)) =
      Some (map (\<lambda>rid. request_json rid ''system.ping'' (JObj [])) ns)"
    using read_requests [of "map (\<lambda>rid. (rid, ''system.ping'', JObj [])) ns"]
    by (simp add: list.pred_map comp_def ping_text_def plain_char_def list.pred_True)
  then show ?thesis
    by (simp add: all_pings_def bridge_requests_def ws_of_def open_bridge_def linked_def received_requests_def
        list_all2_map2 is_request_json)
       (auto simp: list_all2_conv_all_nth list_eq_iff_nth_eq)
qed

text \<open>Connecting to the fake MCU.\<close>

definition test_peer :: string where "test_peer = ''127.0.0.1:5000''"

lemma host_text: "trim_string ''127.0.0.1'' = ''127.0.0.1''"
  by code_simp

lemma port_text: "''127.0.0.1'' @ '':'' @ decimal (unat (5000 :: u16)) = test_peer"
proof -
  have "decimal 5000 = ''5000''" by (simp add: decimal.simps char_of_def bit_0)
  then show ?thesis by (simp add: test_peer_def)
qed

lemmas peer_text = host_text port_text

definition bridged :: "BridgeConnection option \<Rightarrow> (nat \<times> dial) list \<Rightarrow> AppState" where
  "bridged bridge dials = \<lparr>st_bridge = bridge, st_transport = ControllerMode,
     st_net = \<lparr>net_dials = dials, net_raw_dials = []\<rparr>\<rparr>"

lemma connect_alt:
  "connect reference_serde ''127.0.0.1'' 5000 (bridged bridge dials) =
     (case reuse_bridge reference_serde test_peer bridge of
        Some c \<Rightarrow> (Connected test_peer, bridged (Some c) dials)
      | None \<Rightarrow>
          (case connect_controller test_peer dials of
             (Inl e, _, ds) \<Rightarrow> (ErrorMsg e False, bridged None ds)
           | (Inr websocket, _, ds) \<Rightarrow>
               (case ping_controller reference_serde
                   \<lparr>bc_peer = test_peer, bc_transport = Controller websocket, bc_next_request_id = 1\<rparr> of
                  (Inl e, _) \<Rightarrow> (ErrorMsg e False, bridged None ds)
                | (Inr _, c) \<Rightarrow> (Connected test_peer, bridged (Some c) ds))))"
  using peer_text(2)
  by (simp add: connect_def peer_text(1) Let_def bridged_def setup_connection_def del: append_Cons append.simps
      split: option.split prod.split sum.split)

lemma connects:
  assumes "reuse_bridge reference_serde test_peer bridge = None" "list_all (\<lambda>(_, d). retried d) fails"
    and "attempts_time 100 fails < 3100"
  shows "connect reference_serde ''127.0.0.1'' 5000
      (bridged bridge (fails @ (t, DialOpened (controller_socket (rpc_reply 1 ready # arrivals))) # ds)) =
    (Connected test_peer, bridged (Some (open_bridge test_peer 2 arrivals [ping_text 1] 1)) ds)"
  using assms loop_connects [of fails 0 test_peer t "controller_socket (rpc_reply 1 ready # arrivals)" ds]
    answered_ping [of test_peer 1 arrivals "[]" 0]
  by (simp add: connect_alt connect_controller_def open_bridge_def linked_def controller_socket_def ping_text_def)

lemma reuses:
  "reuse_bridge reference_serde test_peer (Some (open_bridge test_peer rid (rpc_reply (uint rid) ready # arrivals) sent w)) =
     Some (open_bridge test_peer (rid + 1) arrivals (sent @ [ping_text rid]) (w + 1))"
  by (simp add: reuse_bridge_def answered_ping ping_text_def)

lemma drops_closed:
  "reuse_bridge reference_serde test_peer (Some (open_bridge test_peer rid (WsEnd # arrivals) sent w)) = None"
proof -
  obtain n where n: "MAX_STALE_CONTROLLER_RESPONSES = Suc n" by (simp add: MAX_STALE_CONTROLLER_RESPONSES_def)
  show ?thesis
    by (simp add: reuse_bridge_def ping_controller_def controller_request_def controller_request_with_timeout_def
        reference_to_string send_command_def ws_sent_def n ws_next_def try_then_def HOST_SERVO_TIMEOUT_def
        open_bridge_def linked_def is_controller_def del: render.simps)
qed

lemma test_host_bridged: "test_host dials = bridged None dials"
  by (simp add: test_host_def app_state_default_def bridged_def)

lemma no_bridge [simp]: "reuse_bridge sd peer None = None"
  by (simp add: reuse_bridge_def)

lemma reconnecting_tests_pass:
  "reconnecting_to_the_same_mcu_health_checks_its_websocket_client"
  "reconnecting_replaces_a_stale_controller_websocket"
  "reconnecting_waits_for_a_controller_listener_returning_after_handover"
proof -
  show "reconnecting_to_the_same_mcu_health_checks_its_websocket_client"
    using connects [of None "[]" 1 "[rpc_reply 2 ready]" "[]"] reuses [of 2 "[]" "[ping_text 1]" 1]
      all_pings_open [of test_peer 3 "[]" "[1, 2]"]
    by (simp add: reconnecting_to_the_same_mcu_health_checks_its_websocket_client_def test_host_bridged
        is_connected_def connect_alt [of "Some _"] bridged_def [of "Some (open_bridge _ 3 _ _ _)"])
next
  show "reconnecting_replaces_a_stale_controller_websocket"
    using connects [of None "[]" 1 "[WsEnd]" "[(1, DialOpened (controller_socket [rpc_reply 1 ready]))]"]
      connects [of "Some (open_bridge test_peer 2 [WsEnd] [ping_text 1] 1)" "[]" 1 "[]" "[]"]
      all_pings_open [of test_peer 2 "[WsEnd]" "[1]"] all_pings_open [of test_peer 2 "[]" "[1]"]
    by (simp add: reconnecting_replaces_a_stale_controller_websocket_def test_host_bridged
        is_connected_def drops_closed) (simp add: bridged_def)
next
  show "reconnecting_waits_for_a_controller_listener_returning_after_handover"
    using connects [of None "[(HOST_SERVO_TIMEOUT, UpgradeElapsed)]" 1 "[]" "[]"]
      all_pings_open [of test_peer 2 "[]" "[1]"]
    by (simp add: reconnecting_waits_for_a_controller_listener_returning_after_handover_def test_host_bridged
        is_connected_def retried_def HOST_SERVO_TIMEOUT_def) (simp add: bridged_def)
qed

lemma refusals:
  "n \<le> 30 \<Longrightarrow> connect_controller_loop peer (100 * (30 - n)) (replicate (Suc n) (0, DialFailed e)) =
     (Inl (''Could not connect to '' @ peer @ '': '' @ e), 3000, [])"
proof (induction n)
  case 0
  then show ?case by (simp add: connect_controller_loop.simps CONTROLLER_CONNECT_RETRY_WINDOW_def)
next
  case (Suc n)
  then have "100 * (30 - Suc n) + 100 = 100 * (30 - n)" "100 * (30 - Suc n) < 3000" by simp_all
  with Suc loop_retries [of "DialFailed e" "100 * (30 - Suc n)" 0 peer "replicate (Suc n) (0, DialFailed e)"]
  show ?case
    by (simp add: retried_def CONTROLLER_CONNECT_RETRY_WINDOW_def CONTROLLER_CONNECT_RETRY_INTERVAL_def)
qed

lemma refusal_test_passes: "connection_refusal_is_reported_without_a_bridge"
  using refusals [of 30 test_peer "''Connection refused (os error 111)''"]
  by (simp add: connection_refusal_is_reported_without_a_bridge_def test_host_bridged connect_alt connect_controller_def)
     (simp add: bridged_def)

section \<open>From the browser to the controller\<close>

text \<open>The host with one browser, which connects to the MCU and scans for servos.\<close>

definition browser_host_and_controller_complete_a_servo_scan_end_to_end :: bool where
  "browser_host_and_controller_complete_a_servo_scan_end_to_end \<longleftrightarrow>
     (let mcu = controller_socket [rpc_reply 1 ready, rpc_reply 2 (JObj [(''ids'', JArr [JInt 5])])];
          asks = [CmConnect ''127.0.0.1'' 5000, CmScanServos 1 10];
          (replies, state) = client_session reference_serde reference_from_str
            (map (\<lambda>m. BrText (render (client_message_json m))) asks) [] (test_host [(1, DialOpened mcu)])
      in (case all_somes (map receive_browser_response replies) of
            Some [connected, response] \<Rightarrow>
              json_get connected ''type'' = Some (JStr ''connected'') \<and>
              json_get response ''type'' = Some (JStr ''servo_scan'') \<and>
              json_get response ''start_id'' = Some (JInt 1) \<and> json_get response ''end_id'' = Some (JInt 10) \<and>
              json_get response ''ids'' = Some (JArr [JInt 5])
          | _ \<Rightarrow> False) \<and>
         (case Option.bind (st_bridge state) bridge_requests of
            Some [ping, scan] \<Rightarrow> is_request 1 ''system.ping'' ping \<and> is_request 2 ''servo.scan'' scan \<and>
              param ''startId'' scan = Some (JInt 1) \<and> param ''endId'' scan = Some (JInt 10)
          | _ \<Rightarrow> False))"

definition scan_text :: ws_outgoing where
  "scan_text = SentText (render (request_json 2 ''servo.scan'' (scan_params 1 10)))"

lemma scans:
  "host_scan_servos reference_serde 1 10
     (open_bridge peer 2 [rpc_reply 2 (JObj [(''ids'', JArr [JInt 5])])] sent w) =
   (Inr (ServoScan 1 10 [5]), open_bridge peer 3 [] (sent @ [scan_text]) (w + 1))"
proof -
  have "plain (JObj [(''ids'', JArr [JInt 5])])" by (simp add: plain_char_def)
  note answered = answered_request [OF this, of SERVO_SCAN_TIMEOUT "''servo.scan''" "scan_params 1 10" peer 2 "[]" sent w]
  have "checked_scan reference_serde 1 10 (JObj [(''ids'', JArr [JInt 5])]) = Inr (ServoScan 1 10 [5])"
    "validate_scan_range 1 10 = Inr ()"
    by code_simp+
  with answered show ?thesis
    by (simp add: host_scan_servos_def from_result_def try_then_def SERVO_SCAN_TIMEOUT_def scan_text_def)
qed

lemma scan_requests:
  "bridge_requests (open_bridge peer 3 [] [ping_text 1, scan_text] w) =
     Some [request_json 1 ''system.ping'' (JObj []), request_json 2 ''servo.scan'' (scan_params 1 10)]"
proof -
  have "list_all plain_char ''system.ping''" "list_all plain_char ''servo.scan''" "plain (scan_params 1 10)"
    by (simp_all add: plain_char_def scan_params_def)
  then show ?thesis
    using read_requests [of "[(1, ''system.ping'', JObj []), (2, ''servo.scan'', scan_params 1 10)]"]
    by (simp add: bridge_requests_def ws_of_def open_bridge_def linked_def received_requests_def ping_text_def scan_text_def)
qed

lemma responses_read:
  "read_json (render (JObj [(''type'', JStr ''connected''), (''address'', JStr test_peer)])) =
     Some (JObj [(''type'', JStr ''connected''), (''address'', JStr test_peer)])"
  "read_json (render (JObj [(''type'', JStr ''servo_scan''), (''start_id'', JInt 1), (''end_id'', JInt 10),
       (''ids'', JArr [JInt 5])])) =
     Some (JObj [(''type'', JStr ''servo_scan''), (''start_id'', JInt 1), (''end_id'', JInt 10), (''ids'', JArr [JInt 5])])"
  by (intro json_codec.decode_encode, simp add: plain_char_def test_peer_def)+

lemma end_to_end_test_passes: "browser_host_and_controller_complete_a_servo_scan_end_to_end"
proof -
  let ?mcu = "controller_socket [rpc_reply 1 ready, rpc_reply 2 (JObj [(''ids'', JArr [JInt 5])])]"
  have reads: "reference_from_str (render (client_message_json (CmConnect ''127.0.0.1'' 5000))) = Inr (CmConnect ''127.0.0.1'' 5000)"
    "reference_from_str (render (client_message_json (CmScanServos 1 10))) = Inr (CmScanServos 1 10)"
    by (rule reference_from_str_reads, simp add: plain_request_def plain_char_def)+
  have "handle_request reference_serde (CmConnect ''127.0.0.1'' 5000) (bridged None [(1, DialOpened ?mcu)]) =
      (Connected test_peer, bridged (Some (open_bridge test_peer 2 [rpc_reply 2 (JObj [(''ids'', JArr [JInt 5])])] [ping_text 1] 1)) [])"
    using connects [of None "[]" 1 "[rpc_reply 2 (JObj [(''ids'', JArr [JInt 5])])]" "[]"]
    by (simp add: handle_request_def)
  moreover have "handle_request reference_serde (CmScanServos 1 10)
      (bridged (Some (open_bridge test_peer 2 [rpc_reply 2 (JObj [(''ids'', JArr [JInt 5])])] [ping_text 1] 1)) []) =
      (ServoScan 1 10 [5], bridged (Some (open_bridge test_peer 3 [] [ping_text 1, scan_text] 2)) [])"
    using scans [of test_peer "[ping_text 1]" 1]
    by (simp add: handle_request_def bridged_def servo_request_def numeral_2_eq_2)
  ultimately have run: "client_session reference_serde reference_from_str
      (map (\<lambda>m. BrText (render (client_message_json m))) [CmConnect ''127.0.0.1'' 5000, CmScanServos 1 10]) []
      (test_host [(1, DialOpened ?mcu)]) =
    ([render (server_message_json (Connected test_peer)), render (server_message_json (ServoScan 1 10 [5]))],
      bridged (Some (open_bridge test_peer 3 [] [ping_text 1, scan_text] 2)) [])"
    by (simp add: reads test_host_bridged reference_to_string Let_def
        del: render.simps client_message_json.simps server_message_json.simps)
  show ?thesis
    unfolding browser_host_and_controller_complete_a_servo_scan_end_to_end_def Let_def run
    by (simp add: receive_browser_response_def responses_read scan_requests bridged_def is_request_json
        json_get_def param_def request_json_def scan_params_def is_request_def del: render.simps)
qed

end
