(* ===== verification/Spec2Isabelle.thy ===== *)
theory Spec2Isabelle
  imports Command_Time Firmware_Boot Websocket Build_Script Conversation Mode_Equivalence Firmware_Tests Host_Tests
begin

text \<open>
  Verification of fetchline, a bridge between a browser and Feetech STS servos. The system has two
  programs. The firmware on an ESP32-C3 (\<open>src/src/\<close>) drives the servo bus over a UART, serves a
  JSON-RPC 2.0 controller API over WebSocket to one session at a time and, on request, a raw TCP tunnel
  to the bus. The host (\<open>src/host/src/main.rs\<close>) serves a control panel to browsers, holds the one
  connection to the firmware and turns requests of the panel into controller requests or, in its debug
  mode, into STS packets of its own. A separate tool writes the Wi-Fi record that the firmware reads at
  start-up.

  \<^bold>\<open>Shared vocabulary.\<close> \<open>Fetchline_Prelude\<close> has the machine integers, slices whose
  out-of-range accesses are \<open>None\<close>, the state-and-error action with \<open>try_then\<close> for the
  \<open>?\<close> operator, byte orders, and two locales: \<open>codec\<close> (what one side writes the other reads;
  interpreted on STS status packets, WebSocket frames, the Wi-Fi record and compact JSON) and
  \<open>invariant_system\<close> (an invariant of a transition system holds in every reachable state; interpreted
  on the controller tasks, the raw tunnel, the Wi-Fi task, the host's bridge, its configuration and the whole
  running host). \<open>Utf8\<close>, \<open>Json\<close> and \<open>Json_Reader\<close> hold text and JSON values with a reference
  reader; \<open>Protocol\<close> the ports; \<open>Std_Paths\<close> the path operations.

  \<^bold>\<open>Firmware.\<close>
  \<^item> \<open>Sts_Packet\<close>, \<open>Sts_Stream\<close>, \<open>Sts_Transaction\<close>: the packet encoder and decoder
    of \<open>controller.rs\<close>, the abstract parse of a byte stream, and one transaction of
    \<open>send_sts_packet\<close> and \<open>read_sts_status\<close> against any sequence of receive events (bytes,
    errors, the deadline). A transaction refines the abstract parse; the header search looks at 128 bytes,
    as the code does. Every single corrupted byte of a reply is rejected.
  \<^item> \<open>Register_Plan\<close>, \<open>Sts_Bus\<close>: the servo commands of \<open>main.rs\<close> up to
    \<open>execute_command\<close>. The locale \<open>register_bus\<close> states what a sequence of acknowledged
    register writes puts on the wire; firmware and host both interpret it. Commands address only unicast
    servos, send their registers in order, and a scan finds exactly the servos that answer.
  \<^item> \<open>Command_Time\<close>: time functions that follow the servo commands and charge every deadline in full.
    A command takes at most its number of transactions times 58 ms and the time to write a packet, and 8 ms:
    at least 250 ms less than the host waits for the response, for writes of up to 20 ms (a packet of 16 bytes at 1 Mbaud
    takes 0.16 ms).
  \<^item> \<open>Admission\<close>, \<open>Controller_Service\<close>: the ownership object and the three controller tasks
    as one interleaved machine whose phases are the suspension points. Only the newest session starts
    commands, one task uses the UART, a replaced session is told, and admission is never stuck. Generations
    are 64-bit counters, so executions with fewer than \<open>2 ^ 64\<close> grants are considered.
  \<^item> \<open>Raw_Tunnel\<close>: the tunnel switch and its task. No change of the switch is lost and bytes are
    forwarded unchanged.
  \<^item> \<open>Controller_Rpc\<close>: requests, failures, responses and \<open>handle_json_rpc\<close>. Every response
    fits its 1024-byte buffer; nothing but a well-formed command touches the bus.
  \<^item> \<open>Websocket\<close>: upgrade, frame reader and frame writer of \<open>websocket.rs\<close>.
  \<^item> \<open>Wifi_Config\<close>, \<open>Wifi_Provision\<close>: the record in flash, written by \<open>config_image\<close> and
    read by \<open>load_wifi_credentials\<close>, with its round trip and corruption check; and the whole
    provisioning tool, from its prompts to the run of \<open>espflash\<close>, on a machine whose operations can
    fail. A run that succeeds leaves exactly the typed credentials for the firmware.
  \<^item> \<open>Firmware_Boot\<close>: \<open>main\<close> with the outcome of each driver call as input and the order of its
    effects as output, the status screens, the board constants and the Wi-Fi task. A start panics only when a
    driver fails; without credentials the radio stays off; otherwise the tasks and sockets are exactly those
    that the services have room for. It composes with the provisioning tool.
  \<^item> \<open>Build_Script\<close>: both roles of \<open>build.rs\<close>.

  \<^bold>\<open>Host.\<close>
  \<^item> \<open>Host_Raw\<close>: connections and the host's own STS driver; it sends the firmware's packets and
    reads replies by the same parse.
  \<^item> \<open>Host_Rpc\<close>, \<open>Host_Connect\<close>: numbered requests with stale responses (at most 32 messages
    per request), and the retry loops with their clocks. Results belong to their requests, responses in
    time are found, and every loop ends within its bound.
  \<^item> \<open>Host_Service\<close>: the requests of the browser, the bridge and the browser session. The bridge is
    dropped exactly on the broken-connection errors, and those are the failures the MCU did not answer.
  \<^item> \<open>Host_Config\<close>, \<open>Host_Log\<close>: the stored configuration and the rotating log over file
    systems in which every operation can fail.
  \<^item> \<open>Host_Http\<close>: the routes, the start of the host, and the running service as one transition system
    in which HTTP requests, browser requests, configuration updates that wait for their lock and changes of
    the files and the network interleave. Its reachable states keep the invariants of all parts.
  \<^item> \<open>End_To_End\<close>, \<open>Handshakes\<close> and this theory: host and firmware composed. A request of
    the browser is executed as the command it means and its result comes back; a connect is answered by the
    firmware and makes its connection the bridge; the request for the raw tunnel
    switches it on and the host reaches the port the answer names.
  \<^item> \<open>Host_Wire\<close>: the JSON of the configuration and of the browser's requests, as the derive
    attributes define it, with its round trips (four more interpretations of \<open>codec\<close>).
  \<^item> \<open>Conversation\<close>: any sequence of servo requests through host, connection and firmware
    (\<open>host_run\<close>, \<open>mcu_run\<close>) against the specification \<open>bus_run\<close>, a service directly
    on the servo bus: same replies, same bus.
  \<^item> \<open>Mode_Equivalence\<close>: the locale \<open>acknowledged_bus\<close> extends \<open>register_bus\<close> by the
    acknowledgements in the incoming bytes; interpreted on the firmware's UART and on the host's raw
    connection it gives that both modes send the same packets and succeed alike.
  \<^item> \<open>Firmware_Tests\<close>, \<open>Host_Tests\<close>: the unit tests of the sources as booleans over the model,
    all of them shown to pass. A test's fake servo or MCU is the list of what arrives, its assertions on
    what it receives are assertions on what the model wrote.

  \<^bold>\<open>Parameters.\<close> SHA-1, Base64, the flash reader and the JSON libraries are arguments of the
  definitions that use them, as are \<open>espflash\<close> and the HTTP router. What is assumed of them is named:
  \<open>compact_serializer\<close>, \<open>reads_requests\<close>, \<open>faithful_serde\<close>, \<open>writes_file\<close>,
  \<open>documented_router\<close>, \<open>rom_fills\<close> and, for the configuration, that it is read back as it
  was written; concrete functions satisfy each (\<open>reference_serde\<close>, \<open>reference_from_slice\<close>,
  \<open>reference_config_serde\<close>, \<open>compact_ser\<close>, \<open>table_router\<close>). Networks, UART, files and peers are lists of what will
  happen next, so a theorem about all lists is a theorem about every environment.

  \<^bold>\<open>Findings.\<close> These theorems exhibit behaviour that differs from what the sources intend:
  \<open>gate_opened_by_other_transport\<close> (any listening socket opens the reconnect gate),
  \<open>bridge_state_misreported\<close> (three refusals report a lost bridge that is still there),
  \<open>overlapping_updates_diverge\<close> (two configuration updates at once can leave file and memory
  different), \<open>lost_log_never_reopened\<close> (a log file that could not be reopened stays closed),
  \<open>password_left_on_disk\<close> (the provisioning tool does not remove its file when \<open>espflash\<close> cannot
  be started) and \<open>provisioning_hint_clipped\<close> (a status line is wider than the display).

  \<^bold>\<open>Not modelled.\<close> The clock, heap and scheduler set-up of the firmware and \<open>network_task\<close>
  (calls into the HAL and the network stack without a result), the JavaScript, HTML and style sheets of the
  panel, the text and time stamp of log lines (so the lines that the services write are not part of their
  models; \<open>Host_Log\<close> has the logger itself), and the test helper that starts an HTTP server. Wall-clock time of the firmware appears only
  as its deadlines.
\<close>

section \<open>Properties of the whole system\<close>


text \<open>A servo 2 that answers a read with the position -1, and the host's connection on which the firmware's
  response arrives behind the late response to an earlier request.\<close>

definition answering_mcu :: mcu where
  "answering_mcu = \<lparr>mcu_uart = \<lparr>rx_events = reply_events 2 [1, 0x80], tx_results = [], tx_written = []\<rparr>, mcu_raw = raw_new\<rparr>"

definition position_response :: string where
  "position_response = render (success_json 5 (Position \<lparr>pr_id = 2, pr_position = - 1\<rparr>))"

definition answered_connection :: BridgeConnection where
  "answered_connection = \<lparr>bc_peer = ''mcu:3333'', bc_transport = Controller
     \<lparr>ws_in = [(30, WsText (ready_response 4)), (60, WsText position_response)], ws_outcomes = [], ws_out = [], ws_waited = 0\<rparr>,
     bc_next_request_id = 5\<rparr>"


end
